(* ===== verification/Gestalt_Prelude.thy ===== *)
theory Gestalt_Prelude
  imports Main "HOL-Library.List_Lexorder" "HOL-Library.Char_ord" "HOL-Library.AList"
    "HOL-Library.Sublist" "HOL-Library.Multiset"
begin

text \<open>
  Shared vocabulary of the development: Go strings with \<^verbatim>\<open>strings.TrimSpace\<close> and
  \<^verbatim>\<open>strings.Cut\<close>, Go instants and durations, Go errors with \<^verbatim>\<open>errors.Is\<close>, the result type
  of fallible functions, and the lemmas on lists and association lists that the component
  theories share. A Go string is its list of bytes (\<open>string\<close>, i.e. \<open>char list\<close>).
\<close>

named_theorems go_defs \<open>definitions of the Go helper functions, to be unfolded together\<close>
named_theorems store_simps \<open>how the object store operations act on rows\<close>
named_theorems rec_simps \<open>how record fields are read back\<close>

subsection \<open>Errors\<close>

text \<open>
  \<^verbatim>\<open>errors.New\<close> makes a sentinel, \<^verbatim>\<open>fmt.Errorf\<close> without \<^verbatim>\<open>%w\<close> a plain message, and
  \<^verbatim>\<open>fmt.Errorf("...: %w", err)\<close> wraps an error. The text carried is the format string (up to
  the \<^verbatim>\<open>: %w\<close> of a wrapper), with its verbs in place: the operands printed into the message are
  not part of the value, the wrapped error is. \<open>errors_is e t\<close> is \<^verbatim>\<open>errors.Is(e, t)\<close> for a
  sentinel \<open>t\<close>: it looks through the wrapping.
\<close>

datatype error = Sentinel string | Errorf string | Wrapf string error

fun errors_is :: "error \<Rightarrow> error \<Rightarrow> bool" where
  "errors_is (Wrapf m e) t = (Wrapf m e = t \<or> errors_is e t)"
| "errors_is e t = (e = t)"

type_synonym 'a result = "error + 'a"

lemma errors_is_refl [simp]: "errors_is e e"
  by (cases e) auto

lemma errors_is_Wrapf_Sentinel [simp]:
  "errors_is (Wrapf m e) (Sentinel s) = errors_is e (Sentinel s)"
  by simp

subsection \<open>Strings\<close>

text \<open>
  \<^verbatim>\<open>strings.TrimSpace\<close> removes every leading and trailing code point that
  \<^verbatim>\<open>unicode.IsSpace\<close> accepts. On bytes, these are the UTF-8 encodings below: the six ASCII
  spaces, U+0085, U+00A0, U+1680, U+2000..U+200A, U+2028, U+2029, U+202F, U+205F and U+3000.
\<close>

definition space_encodings :: "string list" where
  "space_encodings =
     [[CHR 0x09], [CHR 0x0A], [CHR 0x0B], [CHR 0x0C], [CHR 0x0D], [CHR 0x20],
      [CHR 0xC2, CHR 0x85], [CHR 0xC2, CHR 0xA0], [CHR 0xE1, CHR 0x9A, CHR 0x80],
      [CHR 0xE2, CHR 0x80, CHR 0x80], [CHR 0xE2, CHR 0x80, CHR 0x81],
      [CHR 0xE2, CHR 0x80, CHR 0x82], [CHR 0xE2, CHR 0x80, CHR 0x83],
      [CHR 0xE2, CHR 0x80, CHR 0x84], [CHR 0xE2, CHR 0x80, CHR 0x85],
      [CHR 0xE2, CHR 0x80, CHR 0x86], [CHR 0xE2, CHR 0x80, CHR 0x87],
      [CHR 0xE2, CHR 0x80, CHR 0x88], [CHR 0xE2, CHR 0x80, CHR 0x89],
      [CHR 0xE2, CHR 0x80, CHR 0x8A], [CHR 0xE2, CHR 0x80, CHR 0xA8],
      [CHR 0xE2, CHR 0x80, CHR 0xA9], [CHR 0xE2, CHR 0x80, CHR 0xAF],
      [CHR 0xE2, CHR 0x81, CHR 0x9F], [CHR 0xE3, CHR 0x80, CHR 0x80]]"

fun strip_one :: "string list \<Rightarrow> string \<Rightarrow> string option" where
  "strip_one [] s = None"
| "strip_one (e # es) s =
     (if e \<noteq> [] \<and> prefix e s then Some (drop (length e) s) else strip_one es s)"

lemma strip_one_Some:
  "strip_one es s = Some t \<Longrightarrow> \<exists>e. e \<in> set es \<and> e \<noteq> [] \<and> s = e @ t"
  by (induction es) (auto split: if_splits simp: prefix_def)

lemma strip_one_shorter: "strip_one es s = Some t \<Longrightarrow> length t < length s"
  by (auto dest: strip_one_Some)

lemma strip_one_None:
  "strip_one es s = None \<longleftrightarrow> (\<forall>e \<in> set es. e \<noteq> [] \<longrightarrow> \<not> prefix e s)"
  by (induction es) auto

function strip_all :: "string list \<Rightarrow> string \<Rightarrow> string" where
  "strip_all es s = (case strip_one es s of None \<Rightarrow> s | Some t \<Rightarrow> strip_all es t)"
  by pat_completeness auto
termination
  by (relation "measure (\<lambda>(es, s). length s)") (auto dest: strip_one_shorter)

declare strip_all.simps [simp del]

lemma strip_all_fixed [simp]: "strip_one es s = None \<Longrightarrow> strip_all es s = s"
  by (simp add: strip_all.simps)

lemma strip_one_strip_all [simp]: "strip_one es (strip_all es s) = None"
proof (induction es s rule: strip_all.induct)
  case (1 es s)
  then show ?case
    by (cases "strip_one es s") (simp_all add: strip_all.simps [of es s])
qed

lemma strip_all_idem [simp]: "strip_all es (strip_all es s) = strip_all es s"
  by simp

lemma strip_all_suffix: "suffix (strip_all es s) s"
proof (induction es s rule: strip_all.induct)
  case (1 es s)
  show ?case
  proof (cases "strip_one es s")
    case None
    then show ?thesis by simp
  next
    case (Some t)
    with "1.IH" have "suffix (strip_all es t) t" by simp
    moreover from Some have "suffix t s"
      by (auto dest!: strip_one_Some simp: suffix_def)
    ultimately show ?thesis
      using Some by (auto simp: strip_all.simps [of es s] intro: suffix_order.trans)
  qed
qed

lemma strip_one_Nil [simp]: "strip_one es [] = None"
  by (induction es) auto

definition TrimLeft_space :: "string \<Rightarrow> string" where
  "TrimLeft_space s = strip_all space_encodings s"

definition TrimRight_space :: "string \<Rightarrow> string" where
  "TrimRight_space s = rev (strip_all (map rev space_encodings) (rev s))"

definition TrimSpace :: "string \<Rightarrow> string" where
  "TrimSpace s = TrimRight_space (TrimLeft_space s)"

lemma TrimRight_space_prefix: "prefix (TrimRight_space s) s"
  using strip_all_suffix [of "map rev space_encodings" "rev s"]
  by (simp add: TrimRight_space_def suffix_to_prefix)

lemma TrimLeft_space_prefix_fixed:
  assumes "TrimLeft_space s = s" and "prefix t s"
  shows "TrimLeft_space t = t"
proof -
  from assms(1) have "strip_one space_encodings s = None"
    by (metis TrimLeft_space_def strip_one_strip_all)
  with assms(2) have "strip_one space_encodings t = None"
    by (auto simp: strip_one_None intro: prefix_order.trans)
  then show ?thesis by (simp add: TrimLeft_space_def)
qed

lemma TrimSpace_idem [simp]: "TrimSpace (TrimSpace s) = TrimSpace s"
proof -
  have "TrimLeft_space (TrimSpace s) = TrimSpace s"
    unfolding TrimSpace_def
    by (rule TrimLeft_space_prefix_fixed [where s = "TrimLeft_space s"])
      (simp_all add: TrimLeft_space_def TrimRight_space_prefix)
  then show ?thesis
    by (simp add: TrimSpace_def TrimRight_space_def)
qed

lemma TrimSpace_Nil [simp]: "TrimSpace [] = []"
  by (simp add: TrimSpace_def TrimLeft_space_def TrimRight_space_def)

text \<open>A string that starts and ends with a printable ASCII character is left alone.\<close>

definition is_graph :: "char \<Rightarrow> bool" where
  "is_graph c \<longleftrightarrow> (33::nat) \<le> of_char c \<and> of_char c \<le> (126::nat)"

lemma space_encodings_hd:
  "\<forall>e \<in> set space_encodings. e \<noteq> [] \<and> \<not> is_graph (hd e) \<and> \<not> is_graph (last e)"
  by (simp add: space_encodings_def is_graph_def)

lemma strip_one_graph:
  assumes "\<forall>e \<in> set es. e \<noteq> [] \<longrightarrow> \<not> is_graph (hd e)" and "s \<noteq> []" and "is_graph (hd s)"
  shows "strip_one es s = None"
  using assms by (auto simp: strip_one_None prefix_def)

lemma TrimSpace_graph [simp]:
  assumes "s \<noteq> []" and "is_graph (hd s)" and "is_graph (last s)"
  shows "TrimSpace s = s"
proof -
  have "strip_one space_encodings s = None"
    by (rule strip_one_graph) (use space_encodings_hd assms in auto)
  moreover have "strip_one (map rev space_encodings) (rev s) = None"
    by (rule strip_one_graph) (use space_encodings_hd assms in \<open>auto simp: hd_rev\<close>)
  ultimately show ?thesis
    by (simp add: TrimSpace_def TrimLeft_space_def TrimRight_space_def)
qed

lemma TrimSpace_ends:
  assumes "p \<noteq> []" and "is_graph (hd p)" and "is_graph (last p)" and "TrimSpace y = y"
  shows "TrimSpace (p @ y) = p @ y"
proof -
  have left: "strip_one space_encodings (p @ y) = None"
    by (rule strip_one_graph) (use space_encodings_hd assms in auto)
  have "rev y = strip_all (map rev space_encodings) (rev (TrimLeft_space y))"
    using arg_cong [OF assms(4), of rev] by (simp add: TrimSpace_def TrimRight_space_def)
  then have y: "strip_one (map rev space_encodings) (rev y) = None" by simp
  have graph: "\<forall>e \<in> set space_encodings. \<forall>c \<in> set e. \<not> is_graph c"
    by (simp add: space_encodings_def is_graph_def)
  have "\<not> prefix (rev e) (rev (p @ y))" if e: "e \<in> set space_encodings" "e \<noteq> []" for e
  proof
    assume "prefix (rev e) (rev (p @ y))"
    then have "prefix (rev e) (rev y @ rev p)" by simp
    then consider "prefix (rev e) (rev y)" | zs where "rev e = rev y @ zs" "prefix zs (rev p)" "zs \<noteq> []"
      by (metis append_Nil2 prefix_append prefix_order.order_refl)
    then show False
    proof cases
      case 1
      then show False using y e by (auto simp: strip_one_None)
    next
      case (2 zs)
      then have "hd zs = last p" using assms(1) by (metis hd_append2 hd_rev prefixE)
      then have "last p \<in> set e" using 2 by (metis Un_iff hd_in_set set_append set_rev)
      then show False using graph e(1) assms(3) by blast
    qed
  qed
  then have "strip_one (map rev space_encodings) (rev (p @ y)) = None"
    by (auto simp: strip_one_None)
  then show ?thesis using left by (simp add: TrimSpace_def TrimLeft_space_def TrimRight_space_def)
qed

text \<open>\<^verbatim>\<open>strings.Cut(s, sep)\<close> for a one byte separator.\<close>

fun Cut :: "string \<Rightarrow> char \<Rightarrow> string \<times> string \<times> bool" where
  "Cut [] sep = ([], [], False)"
| "Cut (c # s) sep =
     (if c = sep then ([], s, True)
      else (case Cut s sep of (before, after, found) \<Rightarrow>
        if found then (c # before, after, True) else (c # s, [], False)))"

lemma Cut_found: "Cut s sep = (b, a, True) \<longleftrightarrow> s = b @ sep # a \<and> sep \<notin> set b"
proof (induction s arbitrary: b a)
  case Nil
  then show ?case by simp
next
  case (Cons c s)
  obtain b' a' f where eq: "Cut s sep = (b', a', f)" by (cases "Cut s sep")
  show ?case
    using Cons.IH [of b' a'] Cons.IH [of "tl b" a] eq by (cases b; cases f) auto
qed

lemma Cut_missing: "sep \<notin> set s \<Longrightarrow> Cut s sep = (s, [], False)"
  by (induction s) (auto split: prod.splits)

subsection \<open>Instants and durations\<close>

text \<open>
  A \<^verbatim>\<open>time.Time\<close> is its instant in nanoseconds since Go's zero time
  (0001-01-01T00:00:00Z), so \<^verbatim>\<open>IsZero\<close> is \<open>t = 0\<close>; \<^verbatim>\<open>UTC()\<close> does not change the instant, and
  \<^verbatim>\<open>Before\<close>, \<^verbatim>\<open>After\<close> and \<^verbatim>\<open>Equal\<close> compare instants. A \<^verbatim>\<open>time.Duration\<close> is a number of
  nanoseconds. \<^verbatim>\<open>Truncate(d)\<close> rounds down to a multiple of \<open>d\<close> since the zero time.
\<close>

type_synonym time = int
type_synonym duration = int

definition Microsecond :: duration where "Microsecond = 1000"
definition Millisecond :: duration where "Millisecond = 1000000"
definition Second :: duration where "Second = 1000000000"
definition Minute :: duration where "Minute = 60000000000"
definition Hour :: duration where "Hour = 3600000000000"

definition Truncate :: "time \<Rightarrow> duration \<Rightarrow> time" where
  "Truncate t d = (if d \<le> 0 then t else t - t mod d)"

definition truncate_ms :: "time \<Rightarrow> time" where
  "truncate_ms t = Truncate t Millisecond"

lemma truncate_ms_eq: "truncate_ms t = t - t mod 1000000"
  by (simp add: truncate_ms_def Truncate_def Millisecond_def)

lemma truncate_ms_idem [simp]: "truncate_ms (truncate_ms t) = truncate_ms t"
  by (simp add: truncate_ms_eq minus_mod_eq_mult_div)

lemma truncate_ms_0 [simp]: "truncate_ms 0 = 0"
  by (simp add: truncate_ms_eq)

lemma truncate_ms_le: "truncate_ms t \<le> t"
  by (simp add: truncate_ms_eq)

lemma truncate_ms_gt: "t < truncate_ms t + 1000000"
  using pos_mod_bound [of 1000000 t] by (simp add: truncate_ms_eq)

lemma truncate_ms_mono: "s \<le> t \<Longrightarrow> truncate_ms s \<le> truncate_ms t"
  by (simp add: truncate_ms_eq minus_mod_eq_mult_div zdiv_mono1)

lemma truncate_ms_pos: "1000000 \<le> t \<Longrightarrow> 0 < truncate_ms t"
  using truncate_ms_gt [of t] truncate_ms_mono [of 1000000 t] by (simp add: truncate_ms_eq)

text \<open>A value is a whole number of milliseconds when truncation leaves it alone.\<close>

definition whole_ms :: "time \<Rightarrow> bool" where
  "whole_ms t \<longleftrightarrow> truncate_ms t = t"

lemma whole_ms_truncate [simp]: "whole_ms (truncate_ms t)"
  by (simp add: whole_ms_def)

lemma whole_ms_0 [simp]: "whole_ms 0"
  by (simp add: whole_ms_def)

subsection \<open>Sorting with a strict comparison\<close>

text \<open>
  \<^verbatim>\<open>sort.Slice\<close> sorts by a strict comparison. The model is insertion sort; where the comparison
  is a strict total order on the elements the result is the only sorted permutation, whatever
  algorithm the library uses.
\<close>

fun insert_by :: "('a \<Rightarrow> 'a \<Rightarrow> bool) \<Rightarrow> 'a \<Rightarrow> 'a list \<Rightarrow> 'a list" where
  "insert_by lt x [] = [x]"
| "insert_by lt x (y # ys) = (if lt y x then y # insert_by lt x ys else x # y # ys)"

fun sort_by :: "('a \<Rightarrow> 'a \<Rightarrow> bool) \<Rightarrow> 'a list \<Rightarrow> 'a list" where
  "sort_by lt [] = []"
| "sort_by lt (x # xs) = insert_by lt x (sort_by lt xs)"

lemma mset_insert_by [simp]: "mset (insert_by lt x xs) = add_mset x (mset xs)"
  by (induction xs) auto

lemma mset_sort_by [simp]: "mset (sort_by lt xs) = mset xs"
  by (induction xs) auto

lemma set_sort_by [simp]: "set (sort_by lt xs) = set xs"
  by (metis mset_sort_by set_mset_mset)

lemma length_sort_by [simp]: "length (sort_by lt xs) = length xs"
  by (metis mset_sort_by size_mset)

lemma distinct_sort_by [simp]: "distinct (sort_by lt xs) = distinct xs"
  by (metis mset_sort_by mset_eq_imp_distinct_iff)

lemma set_insert_by [simp]: "set (insert_by lt x xs) = insert x (set xs)"
  by (metis mset_insert_by set_mset_add_mset_insert set_mset_mset)

lemma sorted_wrt_insert_by:
  assumes "\<And>a b. a \<in> set (x # xs) \<Longrightarrow> b \<in> set (x # xs) \<Longrightarrow> \<not> lt a b \<or> \<not> lt b a"
    and "\<And>a b c. a \<in> set (x # xs) \<Longrightarrow> b \<in> set (x # xs) \<Longrightarrow> c \<in> set (x # xs) \<Longrightarrow>
      \<not> lt b a \<Longrightarrow> \<not> lt c b \<Longrightarrow> \<not> lt c a"
    and "sorted_wrt (\<lambda>a b. \<not> lt b a) xs"
  shows "sorted_wrt (\<lambda>a b. \<not> lt b a) (insert_by lt x xs)"
  using assms
proof (induction xs)
  case Nil
  show ?case by simp
next
  case (Cons y ys)
  have IH: "sorted_wrt (\<lambda>a b. \<not> lt b a) (insert_by lt x ys)"
  proof (rule Cons.IH)
    show "\<not> lt a b \<or> \<not> lt b a" if "a \<in> set (x # ys)" "b \<in> set (x # ys)" for a b
      using that Cons.prems(1) [of a b] by auto
    show "\<not> lt c a" if "a \<in> set (x # ys)" "b \<in> set (x # ys)" "c \<in> set (x # ys)"
      "\<not> lt b a" "\<not> lt c b" for a b c
      using that Cons.prems(2) [of a b c] by simp blast
    show "sorted_wrt (\<lambda>a b. \<not> lt b a) ys" using Cons.prems(3) by simp
  qed
  show ?case
  proof (cases "lt y x")
    case True
    then have "\<not> lt x y" using Cons.prems(1) [of x y] by simp
    then show ?thesis using True IH Cons.prems(3) by simp
  next
    case False
    then have "\<not> lt z x" if "z \<in> set ys" for z
      using that Cons.prems(2) [of x y z] Cons.prems(3) False by simp
    then show ?thesis using False Cons.prems(3) by simp
  qed
qed

lemma distinct_map_sort_by [simp]: "distinct (map f (sort_by lt xs)) = distinct (map f xs)"
  by (metis mset_map mset_sort_by mset_eq_imp_distinct_iff)

lemma find_unique:
  assumes "distinct (map f xs)"
  shows "find (\<lambda>x. f x = k) xs = Some y \<longleftrightarrow> y \<in> set xs \<and> f y = k"
  using assms by (induction xs) auto

text \<open>In a strictly sorted list the elements behind the one at a position are the rest.\<close>

lemma filter_after:
  assumes "sorted_wrt R xs" and "n < length xs" and "\<And>a b. R a b \<Longrightarrow> \<not> R b a"
  shows "filter (R (xs ! n)) xs = drop (Suc n) xs"
  using assms(1,2)
proof (induction xs arbitrary: n)
  case (Cons x xs)
  show ?case
  proof (cases n)
    case 0
    have "filter (R x) xs = xs" using Cons.prems(1) by simp
    then show ?thesis using 0 assms(3) [of x x] by auto
  next
    case (Suc m)
    then have "R x (xs ! m)" using Cons.prems by simp
    then show ?thesis using Suc Cons assms(3) by simp
  qed
qed simp

lemma sorted_wrt_sort_by:
  assumes "\<And>a b. a \<in> set xs \<Longrightarrow> b \<in> set xs \<Longrightarrow> \<not> lt a b \<or> \<not> lt b a"
    and "\<And>a b c. a \<in> set xs \<Longrightarrow> b \<in> set xs \<Longrightarrow> c \<in> set xs \<Longrightarrow>
      \<not> lt b a \<Longrightarrow> \<not> lt c b \<Longrightarrow> \<not> lt c a"
  shows "sorted_wrt (\<lambda>a b. \<not> lt b a) (sort_by lt xs)"
  using assms
proof (induction xs)
  case Nil
  show ?case by simp
next
  case (Cons x xs)
  have "sorted_wrt (\<lambda>a b. \<not> lt b a) (sort_by lt xs)"
  proof (rule Cons.IH)
    show "\<not> lt a b \<or> \<not> lt b a" if "a \<in> set xs" "b \<in> set xs" for a b
      using that Cons.prems(1) [of a b] by simp
    show "\<not> lt c a" if "a \<in> set xs" "b \<in> set xs" "c \<in> set xs" "\<not> lt b a" "\<not> lt c b"
      for a b c
      using that Cons.prems(2) [of a b c] by simp
  qed
  then have "sorted_wrt (\<lambda>a b. \<not> lt b a) (insert_by lt x (sort_by lt xs))"
  proof (rule sorted_wrt_insert_by [rotated 2])
    show "\<not> lt a b \<or> \<not> lt b a"
      if "a \<in> set (x # sort_by lt xs)" "b \<in> set (x # sort_by lt xs)" for a b
      using that Cons.prems(1) [of a b] by simp
    show "\<not> lt c a"
      if "a \<in> set (x # sort_by lt xs)" "b \<in> set (x # sort_by lt xs)"
        "c \<in> set (x # sort_by lt xs)" "\<not> lt b a" "\<not> lt c b" for a b c
      using that Cons.prems(2) [of a b c] by simp
  qed
  then show ?case by simp
qed

subsection \<open>Association lists\<close>

text \<open>
  A Go map whose iteration order the code does not depend on is an association list with
  distinct keys; \<open>AList.update\<close> and \<open>AList.delete\<close> are assignment and \<^verbatim>\<open>delete\<close>.
\<close>

abbreviation wf_alist :: "('k \<times> 'v) list \<Rightarrow> bool" where
  "wf_alist m \<equiv> distinct (map fst m)"

lemma map_of_AList_update [simp]:
  "map_of (AList.update k v m) k' = (if k' = k then Some v else map_of m k')"
  by (simp add: AList.update_conv')

lemma map_of_AList_delete [simp]:
  "map_of (AList.delete k m) k' = (if k' = k then None else map_of m k')"
  by (simp add: AList.delete_conv')

lemma update_fresh: "map_of xs k = None \<Longrightarrow> AList.update k v xs = xs @ [(k, v)]"
  by (induction xs) (auto split: if_splits)

lemma wf_alist_update: "wf_alist m \<Longrightarrow> wf_alist (AList.update k v m)"
  by (rule AList.distinct_update)

lemma wf_alist_delete: "wf_alist m \<Longrightarrow> wf_alist (AList.delete k m)"
  by (rule AList.distinct_delete)

lemma map_of_mem: "wf_alist m \<Longrightarrow> (k, v) \<in> set m \<longleftrightarrow> map_of m k = Some v"
  by simp

end
