(* ===== verification/Go_Time.thy ===== *)
theory Go_Time
  imports Gestalt_Prelude
begin

text \<open>
  Go's calendar and its RFC 3339 text: \<^verbatim>\<open>Time.Format\<close> and \<^verbatim>\<open>time.Parse\<close> for the layouts the
  program uses (\<^verbatim>\<open>time.RFC3339\<close>, \<^verbatim>\<open>time.RFC3339Nano\<close> and \<^verbatim>\<open>"2006-01-02 15:04:05"\<close>), as
  functions on instants. The parser is the general one of package time with its leniencies
  (one digit hours, comma fractions, surplus fraction digits); the printer is for UTC.
  The main results are that the calendar conversion is exact and that parsing inverts printing:
  exactly for RFC3339Nano, up to the dropped fraction of a second for RFC3339.
\<close>

subsection \<open>The proleptic Gregorian calendar\<close>

definition is_leap :: "int \<Rightarrow> bool" where
  "is_leap y \<longleftrightarrow> y mod 4 = 0 \<and> (y mod 100 \<noteq> 0 \<or> y mod 400 = 0)"

definition month_lengths :: "bool \<Rightarrow> int list" where
  "month_lengths leap = [31, if leap then 29 else 28, 31, 30, 31, 30, 31, 31, 30, 31, 30, 31]"

text \<open>\<^verbatim>\<open>daysIn(month, year)\<close>; out of range months never reach it.\<close>

definition daysIn :: "int \<Rightarrow> int \<Rightarrow> int" where
  "daysIn m y = (if 1 \<le> m \<and> m \<le> 12 then month_lengths (is_leap y) ! nat (m - 1) else 0)"

definition days_before_year :: "int \<Rightarrow> int" where
  "days_before_year y = 365 * (y - 1) + (y - 1) div 4 - (y - 1) div 100 + (y - 1) div 400"

fun sum_months :: "nat \<Rightarrow> int list \<Rightarrow> int" where
  "sum_months (Suc n) (l # ls) = l + sum_months n ls"
| "sum_months _ _ = 0"

definition date_days :: "int \<Rightarrow> int \<Rightarrow> int \<Rightarrow> int" where
  "date_days y m d =
     days_before_year y + sum_months (nat (m - 1)) (month_lengths (is_leap y)) + (d - 1)"

text \<open>The year of a day number, from the mean year length and one correction either way.\<close>

definition year_of :: "int \<Rightarrow> int" where
  "year_of n =
     (let y = 400 * n div 146097 + 1
      in if n < days_before_year y then y - 1
         else if days_before_year (y + 1) \<le> n then y + 1 else y)"

fun month_day :: "int list \<Rightarrow> int \<Rightarrow> int \<Rightarrow> int \<times> int" where
  "month_day [] m yd = (m, yd + 1)"
| "month_day (l # ls) m yd = (if yd < l then (m, yd + 1) else month_day ls (m + 1) (yd - l))"

definition civil :: "int \<Rightarrow> int \<times> int \<times> int" where
  "civil n =
     (let y = year_of n; (m, d) = month_day (month_lengths (is_leap y)) 1 (n - days_before_year y)
      in (y, m, d))"

text \<open>\<^verbatim>\<open>time.Date(..., time.UTC)\<close> for fields in range.\<close>

definition Date :: "int \<Rightarrow> int \<Rightarrow> int \<Rightarrow> int \<Rightarrow> int \<Rightarrow> int \<Rightarrow> int \<Rightarrow> time" where
  "Date y mo d h mi s ns =
     (((date_days y mo d * 24 + h) * 60 + mi) * 60 + s) * 1000000000 + ns"

subsection \<open>Printing\<close>

definition digit :: "int \<Rightarrow> char" where
  "digit n = char_of (48 + nat n)"

text \<open>\<^verbatim>\<open>appendInt(b, x, width)\<close>: at least \<open>width\<close> digits, zero padded.\<close>

fun pad_digits :: "nat \<Rightarrow> int \<Rightarrow> string" where
  "pad_digits 0 x = ''''"
| "pad_digits (Suc w) x = pad_digits w (x div 10) @ [digit (x mod 10)]"

text \<open>Years 0 to 9999 are printed with exactly four digits, the other fields with two.\<close>

definition format_date_time :: "time \<Rightarrow> char \<Rightarrow> string" where
  "format_date_time t sep =
     (let secs = t div 1000000000; n = secs div 86400; r = secs mod 86400; (y, m, d) = civil n
      in pad_digits 4 y @ ''-'' @ pad_digits 2 m @ ''-'' @ pad_digits 2 d @ [sep] @
         pad_digits 2 (r div 3600) @ '':'' @ pad_digits 2 (r div 60 mod 60) @ '':'' @
         pad_digits 2 (r mod 60))"

text \<open>\<^verbatim>\<open>t.UTC().Format(time.RFC3339)\<close>: the fraction of the second is not printed.\<close>

definition format_RFC3339 :: "time \<Rightarrow> string" where
  "format_RFC3339 t = format_date_time t (CHR ''T'') @ ''Z''"

definition drop_trailing_zeros :: "string \<Rightarrow> string" where
  "drop_trailing_zeros s = rev (dropWhile (\<lambda>c. c = CHR ''0'') (rev s))"

definition format_nanos :: "int \<Rightarrow> string" where
  "format_nanos ns =
     (let ds = drop_trailing_zeros (pad_digits 9 ns) in if ds = '''' then '''' else ''.'' @ ds)"

text \<open>\<^verbatim>\<open>t.UTC().Format(time.RFC3339Nano)\<close>: the fraction without its trailing zeros.\<close>

definition format_RFC3339Nano :: "time \<Rightarrow> string" where
  "format_RFC3339Nano t =
     format_date_time t (CHR ''T'') @ format_nanos (t mod 1000000000) @ ''Z''"

subsection \<open>Parsing\<close>

definition isDigit :: "char \<Rightarrow> bool" where
  "isDigit c \<longleftrightarrow> 48 \<le> (of_char c :: nat) \<and> (of_char c :: nat) \<le> 57"

definition digit_value :: "char \<Rightarrow> int" where
  "digit_value c = int (of_char c) - 48"

definition digits_value :: "string \<Rightarrow> int" where
  "digits_value s = foldl (\<lambda>acc c. acc * 10 + digit_value c) 0 s"

text \<open>\<^verbatim>\<open>getnum(s, fixed)\<close>: one or two digits, exactly two when \<open>fixed\<close>.\<close>

definition getnum :: "string \<Rightarrow> bool \<Rightarrow> (int \<times> string) option" where
  "getnum s fixed =
     (case s of
        [] \<Rightarrow> None
      | c # cs \<Rightarrow>
          if \<not> isDigit c then None
          else (case cs of
              [] \<Rightarrow> if fixed then None else Some (digit_value c, cs)
            | d # ds \<Rightarrow>
                if isDigit d then Some (digit_value c * 10 + digit_value d, ds)
                else if fixed then None else Some (digit_value c, cs)))"

definition expect :: "char \<Rightarrow> string \<Rightarrow> string option" where
  "expect c s = (case s of [] \<Rightarrow> None | x # xs \<Rightarrow> if x = c then Some xs else None)"

definition in_range :: "int \<Rightarrow> int \<Rightarrow> int \<times> string \<Rightarrow> (int \<times> string) option" where
  "in_range lo hi p = (if lo \<le> fst p \<and> fst p \<le> hi then Some p else None)"

definition parse_year :: "string \<Rightarrow> (int \<times> string) option" where
  "parse_year s =
     (if length s < 4 \<or> \<not> list_all isDigit (take 4 s) then None
      else Some (digits_value (take 4 s), drop 4 s))"

text \<open>
  \<^verbatim>\<open>parseNanoseconds\<close>: at most nine digits count, and missing ones are zeros. The fraction is
  optional, starts with a period or a comma, and takes every digit that follows.
\<close>

definition parse_fraction :: "string \<Rightarrow> int \<times> string" where
  "parse_fraction s =
     (case s of
        sep # d # _ \<Rightarrow>
          if (sep = CHR ''.'' \<or> sep = CHR '','') \<and> isDigit d
          then (let ds = takeWhile isDigit (tl s); used = take 9 ds
                in (digits_value used * 10 ^ (9 - length used), dropWhile isDigit (tl s)))
          else (0, s)
      | _ \<Rightarrow> (0, s))"

text \<open>The zone: \<^verbatim>\<open>Z\<close> or a signed \<^verbatim>\<open>hh:mm\<close>, as an offset in seconds east of UTC.\<close>

definition parse_zone :: "string \<Rightarrow> (int \<times> string) option" where
  "parse_zone s =
     (case s of
        [] \<Rightarrow> None
      | c # cs \<Rightarrow>
          if c = CHR ''Z'' then Some (0, cs)
          else if length s < 6 \<or> s ! 3 \<noteq> CHR '':'' then None
          else
            Option.bind (getnum (take 2 (drop 1 s)) True) (\<lambda>(hr, _).
            Option.bind (getnum (take 2 (drop 4 s)) True) (\<lambda>(mm, _).
              if hr > 24 \<or> mm > 60 then None
              else if c = CHR ''+'' then Some ((hr * 60 + mm) * 60, drop 6 s)
              else if c = CHR ''-'' then Some (- ((hr * 60 + mm) * 60), drop 6 s)
              else None)))"

definition skip_separator :: "char \<Rightarrow> string \<Rightarrow> string option" where
  "skip_separator sep s =
     (if sep = CHR '' ''
      then (if s \<noteq> [] \<and> hd s \<noteq> CHR '' '' then None
            else Some (dropWhile (\<lambda>c. c = CHR '' '') s))
      else expect sep s)"

text \<open>
  \<^verbatim>\<open>time.Parse\<close> for date, separator, time of day, optional fraction, and a zone when the
  layout has one. The day is checked against the month once both are known.
\<close>

definition parse_layout :: "char \<Rightarrow> bool \<Rightarrow> string \<Rightarrow> time option" where
  "parse_layout sep zoned s =
     Option.bind (parse_year s) (\<lambda>(y, s).
     Option.bind (expect (CHR ''-'') s) (\<lambda>s.
     Option.bind (Option.bind (getnum s True) (in_range 1 12)) (\<lambda>(mo, s).
     Option.bind (expect (CHR ''-'') s) (\<lambda>s.
     Option.bind (getnum s True) (\<lambda>(d, s).
     Option.bind (skip_separator sep s) (\<lambda>s.
     Option.bind (Option.bind (getnum s False) (in_range 0 23)) (\<lambda>(h, s).
     Option.bind (expect (CHR '':'') s) (\<lambda>s.
     Option.bind (Option.bind (getnum s True) (in_range 0 59)) (\<lambda>(mi, s).
     Option.bind (expect (CHR '':'') s) (\<lambda>s.
     Option.bind (Option.bind (getnum s True) (in_range 0 59)) (\<lambda>(sec, s).
     (case parse_fraction s of (ns, s) \<Rightarrow>
     Option.bind (if zoned then parse_zone s else Some (0, s)) (\<lambda>(offset, s).
       if s \<noteq> [] \<or> d < 1 \<or> daysIn mo y < d then None
       else Some (Date y mo d h mi sec ns - offset * 1000000000))))))))))))))"

definition parse_RFC3339 :: "string \<Rightarrow> time option" where
  "parse_RFC3339 s = parse_layout (CHR ''T'') True s"

definition parse_date_time :: "string \<Rightarrow> time option" where
  "parse_date_time s = parse_layout (CHR '' '') False s"

lemmas parse_defs =
  parse_layout_def parse_year_def expect_def getnum_def in_range_def parse_fraction_def
  parse_zone_def skip_separator_def isDigit_def digit_value_def digits_value_def

subsection \<open>The calendar conversion is exact\<close>

lemma div_bounds: "(0::int) < k \<Longrightarrow> k * (a div k) \<le> a \<and> a < k * (a div k) + k"
  using pos_mod_bound [of k a] pos_mod_sign [of k a] mult_div_mod_eq [of k a] by linarith

lemma year_of_bounds:
  "days_before_year (year_of n) \<le> n \<and> n < days_before_year (year_of n + 1)"
proof -
  define q where "q = 400 * n div 146097"
  have q: "146097 * q \<le> 400 * n" "400 * n < 146097 * q + 146097"
    using div_bounds [of 146097 "400 * n"] by (auto simp: q_def)
  have b: "365 * 400 * a + 100 * (a - 3) - 4 * a + a - 399 \<le> 400 * days_before_year (a + 1)"
    "400 * days_before_year (a + 1) \<le> 365 * 400 * a + 100 * a - 4 * (a - 99) + a" for a
    using div_bounds [of 4 a] div_bounds [of 100 a] div_bounds [of 400 a]
    by (auto simp: days_before_year_def)
  have "days_before_year q \<le> n" if "n < days_before_year (q + 1)"
    using that q b [of "q - 1"] b [of q] by simp
  moreover have "n < days_before_year (q + 3)" if "days_before_year (q + 2) \<le> n"
    using that q b [of "q + 2"] by (simp add: add.commute)
  ultimately show ?thesis
    by (auto simp: year_of_def Let_def add.commute simp flip: q_def)
qed

lemma div_pred: "y div k = (y - 1) div k + (if y mod k = 0 then 1 else 0)" if "1 < k" for k y :: int
proof (cases "y mod k = 0")
  case True
  then have "y - 1 = k * (y div k - 1) + (k - 1)"
    using mult_div_mod_eq [of k y] by (simp add: algebra_simps)
  then have "(y - 1) div k = y div k - 1"
    by (rule int_div_pos_eq) (use that in auto)
  then show ?thesis using True by simp
next
  case False
  have "y - 1 = k * (y div k) + (y mod k - 1)"
    using mult_div_mod_eq [of k y] by (simp add: algebra_simps)
  then have "(y - 1) div k = y div k"
    by (rule int_div_pos_eq)
      (use that False pos_mod_bound [of k y] pos_mod_sign [of k y] in linarith)+
  then show ?thesis using False by simp
qed

lemma year_length:
  "days_before_year (y + 1) = days_before_year y + (if is_leap y then 366 else 365)"
proof -
  have dvds: "(100::int) dvd 400" "(4::int) dvd 100" by simp_all
  have imp: "y mod 100 = 0" if "y mod 400 = 0"
    using that dvds(1) by (metis mod_0_imp_dvd dvd_trans dvd_imp_mod_0)
  have imp': "y mod 4 = 0" if "y mod 100 = 0"
    using that dvds(2) by (metis mod_0_imp_dvd dvd_trans dvd_imp_mod_0)
  have days: "days_before_year (y + 1) = days_before_year y + 365
    + (if y mod 4 = 0 then 1 else 0) - (if y mod 100 = 0 then 1 else 0)
    + (if y mod 400 = 0 then 1 else 0)"
    unfolding days_before_year_def add_diff_cancel_right'
    by (subst div_pred [of 4 y], simp, subst div_pred [of 100 y], simp,
        subst div_pred [of 400 y], simp, simp only: algebra_simps)
  have leap: "p = x + 365 + (if b4 then 1 else 0) - (if b100 then 1 else 0) +
      (if b400 then 1 else 0) \<Longrightarrow> (b400 \<Longrightarrow> b100) \<Longrightarrow> (b100 \<Longrightarrow> b4) \<Longrightarrow>
      p = x + (if b4 \<and> (\<not> b100 \<or> b400) then 366 else 365)" for p x :: int and b4 b100 b400
    by (cases b4; cases b100; cases b400) simp_all
  from leap [OF days imp imp'] show ?thesis unfolding is_leap_def .
qed

lemma days_before_year_mono: "y \<le> z \<Longrightarrow> days_before_year y \<le> days_before_year z"
proof (induction z rule: int_ge_induct)
  case base
  show ?case by simp
next
  case (step i)
  then show ?case using year_length [of i] by auto
qed

lemma month_day_correct:
  assumes "0 \<le> yd" and "yd < sum_list ls"
  shows "\<exists>i < length ls. month_day ls m yd = (m + int i, yd - sum_months i ls + 1) \<and>
    sum_months i ls \<le> yd \<and> yd < sum_months i ls + ls ! i"
  using assms
proof (induction ls arbitrary: m yd)
  case Nil
  then show ?case by simp
next
  case (Cons l ls)
  show ?case
  proof (cases "yd < l")
    case True
    with Cons.prems show ?thesis by (intro exI [of _ 0]) auto
  next
    case False
    with Cons.prems obtain i where "i < length ls"
      and "month_day ls (m + 1) (yd - l) = (m + 1 + int i, yd - l - sum_months i ls + 1)"
      and "sum_months i ls \<le> yd - l" and "yd - l < sum_months i ls + ls ! i"
      using Cons.IH [of "yd - l" "m + 1"] by auto
    with False show ?thesis by (intro exI [of _ "Suc i"]) auto
  qed
qed

lemma civil_correct:
  assumes "civil n = (y, m, d)"
  shows "y = year_of n" and "1 \<le> m" and "m \<le> 12" and "1 \<le> d" and "d \<le> daysIn m y"
    and "date_days y m d = n"
proof -
  let ?ls = "month_lengths (is_leap (year_of n))"
  let ?yd = "n - days_before_year (year_of n)"
  have "sum_list ?ls = (if is_leap (year_of n) then 366 else 365)" and len: "length ?ls = 12"
    by (simp_all add: month_lengths_def)
  then have "0 \<le> ?yd" and "?yd < sum_list ?ls"
    using year_of_bounds [of n] year_length [of "year_of n"] by auto
  then obtain i where i: "i < length ?ls"
    "month_day ?ls 1 ?yd = (1 + int i, ?yd - sum_months i ?ls + 1)"
    "sum_months i ?ls \<le> ?yd" "?yd < sum_months i ?ls + ?ls ! i"
    using month_day_correct [of ?yd ?ls 1] by auto
  with assms len show "y = year_of n" "1 \<le> m" "m \<le> 12" "1 \<le> d" "d \<le> daysIn m y"
      "date_days y m d = n"
    by (auto simp: civil_def Let_def daysIn_def date_days_def)
qed

subsection \<open>Parsing inverts printing\<close>

lemma of_char_digit: "0 \<le> x \<Longrightarrow> x \<le> 9 \<Longrightarrow> of_char (digit x) = 48 + nat x"
  by (simp add: digit_def)

lemma digit_simps:
  assumes "0 \<le> x" and "x \<le> 9"
  shows "isDigit (digit x)" and "digit_value (digit x) = x"
    and "digit x = CHR ''0'' \<longleftrightarrow> x = 0"
proof -
  have "(of_char (CHR ''0'') :: nat) = 48" by simp
  then have "digit x = CHR ''0'' \<longleftrightarrow> 48 + nat x = 48"
    using of_char_digit [OF assms] by (metis of_char_eq_iff)
  then show "digit x = CHR ''0'' \<longleftrightarrow> x = 0" using assms by simp
qed (use assms in \<open>simp_all add: isDigit_def digit_value_def of_char_digit\<close>)

lemma digit_mod [simp]:
  "isDigit (digit (x mod 10))" "digit_value (digit (x mod 10)) = x mod 10"
  "digit (x mod 10) = CHR ''0'' \<longleftrightarrow> x mod 10 = 0"
  using digit_simps [of "x mod 10"] pos_mod_bound [of 10 x] by simp_all

lemma length_pad_digits [simp]: "length (pad_digits w x) = w"
  by (induction w arbitrary: x) auto

lemma isDigit_pad_digits: "list_all isDigit (pad_digits w x)"
  by (induction w arbitrary: x) auto

lemma digits_value_snoc: "digits_value (s @ [c]) = digits_value s * 10 + digit_value c"
  by (simp add: digits_value_def)

lemma digits_value_pad: "0 \<le> x \<Longrightarrow> x < 10 ^ w \<Longrightarrow> digits_value (pad_digits w x) = x"
proof (induction w arbitrary: x)
  case 0
  then show ?case by (simp add: digits_value_def)
next
  case (Suc w)
  then have "0 \<le> x div 10" and "x div 10 < 10 ^ w"
    by (simp_all add: pos_imp_zdiv_nonneg_iff div_less_iff_less_mult mult.commute)
  from Suc.IH [OF this] show ?case by (simp add: digits_value_snoc)
qed

lemma pad_digits_2: "pad_digits 2 x = [digit (x div 10 mod 10), digit (x mod 10)]"
  by (simp add: numeral_2_eq_2)

lemma getnum_pad: "0 \<le> x \<Longrightarrow> x \<le> 99 \<Longrightarrow> getnum (pad_digits 2 x @ s) fixed = Some (x, s)"
  using digit_simps [of "x div 10"] by (simp add: pad_digits_2 getnum_def)

lemma parse_year_pad:
  "0 \<le> y \<Longrightarrow> y \<le> 9999 \<Longrightarrow> parse_year (pad_digits 4 y @ s) = Some (y, s)"
  by (simp add: parse_year_def isDigit_pad_digits digits_value_pad)

lemma digits_value_append_zeros:
  "digits_value (s @ replicate k (CHR ''0'')) = digits_value s * 10 ^ k"
proof (induction k)
  case 0
  show ?case by simp
next
  case (Suc k)
  have "digit_value (CHR ''0'') = 0" by (simp add: digit_value_def)
  with Suc show ?case
    by (simp add: replicate_append_same [symmetric] digits_value_snoc flip: append_assoc)
qed

lemma drop_trailing_zeros_split:
  "s = drop_trailing_zeros s @ replicate (length s - length (drop_trailing_zeros s)) (CHR ''0'')"
proof -
  define tk dr where "tk = takeWhile (\<lambda>c. c = CHR ''0'') (rev s)"
    and "dr = dropWhile (\<lambda>c. c = CHR ''0'') (rev s)"
  have "rev s = tk @ dr" by (simp add: tk_def dr_def)
  then have s: "s = rev dr @ rev tk" by (metis rev_append rev_rev_ident)
  have "\<forall>c \<in> set tk. c = CHR ''0''" by (auto simp: tk_def dest: set_takeWhileD)
  then have "tk = replicate (length tk) (CHR ''0'')" by (simp add: replicate_length_same)
  moreover have "drop_trailing_zeros s = rev dr" by (simp add: drop_trailing_zeros_def dr_def)
  moreover have "length s - length (rev dr) = length tk" using s by simp
  ultimately show ?thesis using s by (metis rev_replicate)
qed

lemma parse_fraction_format:
  assumes "0 \<le> ns" and "ns < 1000000000"
  shows "parse_fraction (format_nanos ns @ ''Z'') = (ns, ''Z'')"
proof -
  define ds where "ds = drop_trailing_zeros (pad_digits 9 ns)"
  define k where "k = 9 - length ds"
  have split: "pad_digits 9 ns = ds @ replicate k (CHR ''0'')"
    using drop_trailing_zeros_split [of "pad_digits 9 ns"] by (simp add: ds_def k_def)
  then have len: "length ds \<le> 9"
    using length_pad_digits [of 9 ns] by (metis length_append le_add1)
  have val: "digits_value ds * 10 ^ k = ns"
    using digits_value_pad [of ns 9] assms split digits_value_append_zeros [of ds k] by simp
  have dig: "\<forall>c \<in> set ds. isDigit c"
    using isDigit_pad_digits [of 9 ns] split by (auto simp: list_all_iff)
  have Z: "\<not> isDigit (CHR ''Z'')" by (simp add: isDigit_def)
  have fmt: "format_nanos ns = (if ds = [] then [] else ''.'' @ ds)"
    by (simp add: format_nanos_def ds_def Let_def)
  show ?thesis
  proof (cases ds)
    case Nil
    then have "ns = 0" using val by (simp add: digits_value_def)
    then show ?thesis
      unfolding fmt using Nil by (simp add: parse_fraction_def)
  next
    case (Cons d ds')
    have "takeWhile isDigit (ds @ ''Z'') = ds" "dropWhile isDigit (ds @ ''Z'') = ''Z''"
      using dig Z by (auto simp: takeWhile_append dropWhile_append)
    then show ?thesis
      unfolding fmt using Cons val len dig
      by (simp add: parse_fraction_def k_def)
  qed
qed

text \<open>The instants whose year has four digits.\<close>

definition four_digit_year :: "time \<Rightarrow> bool" where
  "four_digit_year t \<longleftrightarrow>
     0 \<le> year_of (t div 1000000000 div 86400) \<and> year_of (t div 1000000000 div 86400) \<le> 9999"

lemma seconds_of_day:
  fixes r :: int
  assumes "0 \<le> r" and "r < 86400"
  shows "(r div 3600 * 60 + r div 60 mod 60) * 60 + r mod 60 = r"
    and "r div 3600 \<le> 23" and "0 \<le> r div 3600"
proof -
  have "r div 3600 = r div 60 div 60"
    using zdiv_zmult2_eq [of 60 r 60] by simp
  then have "r div 3600 * 60 + r div 60 mod 60 = r div 60" by simp
  then show "(r div 3600 * 60 + r div 60 mod 60) * 60 + r mod 60 = r" by simp
  show "r div 3600 \<le> 23" "0 \<le> r div 3600"
    using zdiv_mono1 [of r 86399 3600] assms by (simp_all add: pos_imp_zdiv_nonneg_iff)
qed

lemma daysIn_le: "daysIn m y \<le> 31"
proof (cases "1 \<le> m \<and> m \<le> 12")
  case True
  moreover have "length (month_lengths (is_leap y)) = 12" by (simp add: month_lengths_def)
  ultimately have "nat (m - 1) < length (month_lengths (is_leap y))" by linarith
  then have "daysIn m y \<in> set (month_lengths (is_leap y))"
    using True nth_mem by (simp add: daysIn_def)
  then show ?thesis by (auto simp: month_lengths_def split: if_splits)
qed (auto simp: daysIn_def)

lemma parse_fields:
  assumes "0 \<le> y" "y \<le> 9999" "1 \<le> m" "m \<le> 12" "1 \<le> d" "d \<le> daysIn m y"
    and "0 \<le> h" "h \<le> 23" "0 \<le> mi" "mi \<le> 59" "0 \<le> s" "s \<le> 59"
    and frac: "parse_fraction (f @ ''Z'') = (ns, ''Z'')"
  shows "parse_RFC3339 (pad_digits 4 y @ ''-'' @ pad_digits 2 m @ ''-'' @ pad_digits 2 d @ ''T'' @
    pad_digits 2 h @ '':'' @ pad_digits 2 mi @ '':'' @ pad_digits 2 s @ f @ ''Z'') =
    Some (Date y m d h mi s ns)"
  using assms daysIn_le [of m y]
  by (simp add: parse_RFC3339_def parse_layout_def parse_year_pad getnum_pad expect_def
      in_range_def skip_separator_def parse_zone_def)

lemma parse_format_date_time:
  assumes "four_digit_year t" and frac: "parse_fraction (f @ ''Z'') = (ns, ''Z'')"
  shows "parse_RFC3339 (format_date_time t (CHR ''T'') @ f @ ''Z'') =
    Some (t - t mod 1000000000 + ns)"
proof -
  define secs n r where "secs = t div 1000000000" and "n = secs div 86400" and "r = secs mod 86400"
  obtain y m d where c: "civil n = (y, m, d)" by (cases "civil n") auto
  note cc = civil_correct [OF c]
  have y: "0 \<le> y" "y \<le> 9999"
    using assms(1) cc(1) by (simp_all add: four_digit_year_def n_def secs_def)
  have r: "0 \<le> r" "r < 86400" by (simp_all add: r_def)
  define h mi s where "h = r div 3600" and "mi = r div 60 mod 60" and "s = r mod 60"
  have hms: "(h * 60 + mi) * 60 + s = r" "h \<le> 23" "0 \<le> h" "0 \<le> mi" "mi \<le> 59" "0 \<le> s" "s \<le> 59"
    using seconds_of_day [OF r] pos_mod_bound [of 60 "r div 60"] pos_mod_bound [of 60 r]
    unfolding h_def mi_def s_def by simp_all
  have "((n * 24 + h) * 60 + mi) * 60 + s = n * 86400 + ((h * 60 + mi) * 60 + s)"
    by (simp add: algebra_simps)
  also have "\<dots> = secs" unfolding hms(1) by (simp add: n_def r_def)
  finally have "((n * 24 + h) * 60 + mi) * 60 + s = secs" .
  then have "Date y m d h mi s ns = secs * 1000000000 + ns"
    by (simp add: Date_def cc(6))
  also have "secs * 1000000000 = t - t mod 1000000000"
    by (simp add: secs_def minus_mod_eq_div_mult)
  finally have date: "Date y m d h mi s ns = t - t mod 1000000000 + ns" .
  have "format_date_time t (CHR ''T'') @ f @ ''Z'' = pad_digits 4 y @ ''-'' @ pad_digits 2 m @
      ''-'' @ pad_digits 2 d @ ''T'' @ pad_digits 2 h @ '':'' @ pad_digits 2 mi @ '':'' @
      pad_digits 2 s @ f @ ''Z''"
    unfolding format_date_time_def Let_def secs_def [symmetric] n_def [symmetric]
      r_def [symmetric] c prod.case h_def [symmetric] mi_def [symmetric] s_def [symmetric]
    by simp
  with parse_fields [OF y cc(2-5) hms(3,2,4-7) frac] date show ?thesis by simp
qed

lemma parse_format_RFC3339Nano:
  "four_digit_year t \<Longrightarrow> parse_RFC3339 (format_RFC3339Nano t) = Some t"
  using parse_format_date_time [of t "format_nanos (t mod 1000000000)" "t mod 1000000000"]
    parse_fraction_format [of "t mod 1000000000"]
  by (simp add: format_RFC3339Nano_def)

lemma parse_format_RFC3339:
  "four_digit_year t \<Longrightarrow> parse_RFC3339 (format_RFC3339 t) = Some (Truncate t Second)"
  using parse_format_date_time [of t "[]" 0]
  by (simp add: format_RFC3339_def parse_fraction_def Truncate_def Second_def)

end
