(* ===== verification/Indexed_Store.thy ===== *)
theory Indexed_Store
  imports Go_Time
begin

text \<open>
  The IndexedDB interface every core-data service is written against: record values and the
  field readers of \<^verbatim>\<open>internal/coredata/convert.go\<close>, the W3C key order of
  \<^verbatim>\<open>internal/indexeddbcodec/compare_keys.go\<close>, and the object store with its transactions as the
  in-memory implementation \<^verbatim>\<open>core/testing/indexeddb_stub_*.go\<close> defines them. Every store
  operation may also fail with an error of the backing provider: an oracle \<open>db_fail\<close>
  decides per operation, so that the error paths of the services are part of the model.
\<close>

subsection \<open>Record values\<close>

text \<open>
  The dynamic values of an \<^verbatim>\<open>idb.Record\<close> (a \<^verbatim>\<open>map[string]any\<close>). \<open>VFloat\<close> is a
  \<^verbatim>\<open>float64\<close> with an integral value, which is how JSON hands counters back.
\<close>

datatype val =
    VNil
  | VString string
  | VBytes string
  | VBool bool
  | VInt int
  | VFloat int
  | VTime time
  | VMap "(string \<times> val) list"
  | VList "val list"

type_synonym rec = "string \<rightharpoonup> val"

definition recString :: "rec \<Rightarrow> string \<Rightarrow> string" where
  "recString r k = (case r k of Some (VString s) \<Rightarrow> s | Some (VBytes s) \<Rightarrow> s | _ \<Rightarrow> '''')"

text \<open>A time stored as text is parsed as RFC 3339, then as a plain date and time.\<close>

definition recTime :: "rec \<Rightarrow> string \<Rightarrow> time" where
  "recTime r k =
     (case r k of
        Some (VTime t) \<Rightarrow> t
      | Some (VString s) \<Rightarrow>
          (case parse_RFC3339 s of
             Some t \<Rightarrow> t
           | None \<Rightarrow> (case parse_date_time s of Some t \<Rightarrow> t | None \<Rightarrow> 0))
      | _ \<Rightarrow> 0)"

definition recordInt :: "rec \<Rightarrow> string \<Rightarrow> int" where
  "recordInt r k = (case r k of Some (VInt n) \<Rightarrow> n | Some (VFloat n) \<Rightarrow> n | _ \<Rightarrow> 0)"

definition recBool :: "rec \<Rightarrow> string \<Rightarrow> bool" where
  "recBool r k = (case r k of Some (VBool b) \<Rightarrow> b | _ \<Rightarrow> False)"

lemma rec_readers [rec_simps]:
  "r k = Some (VString s) \<Longrightarrow> recString r k = s"
  "r k = Some (VTime t) \<Longrightarrow> recTime r k = t"
  "r k = Some (VInt n) \<Longrightarrow> recordInt r k = n"
  "r k = Some (VBool b) \<Longrightarrow> recBool r k = b"
  "r k = None \<Longrightarrow> recString r k = ''''"
  "r k = None \<Longrightarrow> recTime r k = 0"
  by (simp_all add: recString_def recTime_def recordInt_def recBool_def)

subsection \<open>Key order\<close>

text \<open>
  The W3C key types in their order: number, date, string, binary, array. A value that is no
  key (nil or a map) is never indexed, so the textual fallback of the source is not modelled.
\<close>

datatype idb_key =
    KNumber int
  | KDate time
  | KString string
  | KBinary string
  | KArray "idb_key list"

fun key_of :: "val \<Rightarrow> idb_key option"
  and keys_of :: "val list \<Rightarrow> idb_key list option" where
  "key_of (VList vs) = map_option KArray (keys_of vs)"
| "key_of (VBytes b) = Some (KBinary b)"
| "key_of (VTime t) = Some (KDate t)"
| "key_of (VString s) = Some (KString s)"
| "key_of (VBool b) = Some (KNumber (if b then 1 else 0))"
| "key_of (VInt n) = Some (KNumber n)"
| "key_of (VFloat n) = Some (KNumber n)"
| "key_of VNil = None"
| "key_of (VMap m) = None"
| "keys_of [] = Some []"
| "keys_of (v # vs) =
     (case key_of v of None \<Rightarrow> None | Some k \<Rightarrow> map_option ((#) k) (keys_of vs))"

fun key_kind :: "idb_key \<Rightarrow> nat" where
  "key_kind (KNumber _) = 0"
| "key_kind (KDate _) = 1"
| "key_kind (KString _) = 2"
| "key_kind (KBinary _) = 3"
| "key_kind (KArray _) = 4"

definition sign :: "bool \<Rightarrow> bool \<Rightarrow> int" where
  "sign lt gt = (if lt then - 1 else if gt then 1 else 0)"

text \<open>\<^verbatim>\<open>Time.UnixNano\<close> is computed in an \<^verbatim>\<open>int64\<close> and wraps outside the years 1678 to 2262.\<close>

definition unix_epoch :: time where
  "unix_epoch = 62135596800000000000"

definition wrap64 :: "int \<Rightarrow> int" where
  "wrap64 n = (n + 2 ^ 63) mod 2 ^ 64 - 2 ^ 63"

definition UnixNano :: "time \<Rightarrow> int" where
  "UnixNano t = wrap64 (t - unix_epoch)"

definition compareDates :: "time \<Rightarrow> time \<Rightarrow> int" where
  "compareDates a b = sign (UnixNano a < UnixNano b) (UnixNano b < UnixNano a)"

text \<open>
  \<^verbatim>\<open>[]rune(s)\<close>: UTF-8 decoding, where a byte that starts no valid sequence becomes U+FFFD and
  is skipped alone.
\<close>

definition cont :: "nat \<Rightarrow> bool" where "cont b \<longleftrightarrow> 0x80 \<le> b \<and> b \<le> 0xBF"

definition second_ok :: "nat \<Rightarrow> nat \<Rightarrow> bool" where
  "second_ok b0 b1 \<longleftrightarrow>
     (if b0 = 0xE0 then 0xA0 \<le> b1 \<and> b1 \<le> 0xBF
      else if b0 = 0xED then 0x80 \<le> b1 \<and> b1 \<le> 0x9F
      else if b0 = 0xF0 then 0x90 \<le> b1 \<and> b1 \<le> 0xBF
      else if b0 = 0xF4 then 0x80 \<le> b1 \<and> b1 \<le> 0x8F
      else cont b1)"

fun decode_rune :: "nat list \<Rightarrow> nat \<times> nat" where
  "decode_rune [] = (0xFFFD, 0)"
| "decode_rune (b0 # bs) =
     (if b0 < 0x80 then (b0, 1)
      else if 0xC2 \<le> b0 \<and> b0 \<le> 0xDF then
        (case bs of
           b1 # _ \<Rightarrow> if cont b1 then ((b0 - 0xC0) * 64 + (b1 - 0x80), 2) else (0xFFFD, 1)
         | _ \<Rightarrow> (0xFFFD, 1))
      else if 0xE0 \<le> b0 \<and> b0 \<le> 0xEF then
        (case bs of
           b1 # b2 # _ \<Rightarrow>
             if second_ok b0 b1 \<and> cont b2
             then ((b0 - 0xE0) * 4096 + (b1 - 0x80) * 64 + (b2 - 0x80), 3) else (0xFFFD, 1)
         | _ \<Rightarrow> (0xFFFD, 1))
      else if 0xF0 \<le> b0 \<and> b0 \<le> 0xF4 then
        (case bs of
           b1 # b2 # b3 # _ \<Rightarrow>
             if second_ok b0 b1 \<and> cont b2 \<and> cont b3
             then ((b0 - 0xF0) * 262144 + (b1 - 0x80) * 4096 + (b2 - 0x80) * 64 + (b3 - 0x80), 4)
             else (0xFFFD, 1)
         | _ \<Rightarrow> (0xFFFD, 1))
      else (0xFFFD, 1))"

function decode_runes :: "nat list \<Rightarrow> nat list" where
  "decode_runes [] = []"
| "decode_runes (b # bs) =
     (case decode_rune (b # bs) of (r, n) \<Rightarrow> r # decode_runes (drop (n - 1) bs))"
  by pat_completeness auto
termination
  by (relation "measure length") auto

text \<open>\<^verbatim>\<open>utf16.Encode\<close>: a rune above U+FFFF is a surrogate pair.\<close>

definition utf16_units :: "nat \<Rightarrow> nat list" where
  "utf16_units r =
     (if r < 0x10000 then [r]
      else [0xD800 + (r - 0x10000) div 1024, 0xDC00 + (r - 0x10000) mod 1024])"

definition utf16 :: "string \<Rightarrow> nat list" where
  "utf16 s = concat (map utf16_units (decode_runes (map of_char s)))"

fun compare_units :: "nat list \<Rightarrow> nat list \<Rightarrow> int" where
  "compare_units [] [] = 0"
| "compare_units [] (_ # _) = - 1"
| "compare_units (_ # _) [] = 1"
| "compare_units (a # as) (b # bs) =
     (if a < b then - 1 else if b < a then 1 else compare_units as bs)"

definition compareUTF16Strings :: "string \<Rightarrow> string \<Rightarrow> int" where
  "compareUTF16Strings a b = compare_units (utf16 a) (utf16 b)"

definition compare_bytes :: "string \<Rightarrow> string \<Rightarrow> int" where
  "compare_bytes a b = compare_units (map of_char a) (map of_char b)"

fun CompareKeys :: "idb_key \<Rightarrow> idb_key \<Rightarrow> int"
  and compareArrayKeys :: "idb_key list \<Rightarrow> idb_key list \<Rightarrow> int" where
  "CompareKeys (KNumber a) (KNumber b) = sign (a < b) (b < a)"
| "CompareKeys (KDate a) (KDate b) = compareDates a b"
| "CompareKeys (KString a) (KString b) = compareUTF16Strings a b"
| "CompareKeys (KBinary a) (KBinary b) = compare_bytes a b"
| "CompareKeys (KArray a) (KArray b) = compareArrayKeys a b"
| "CompareKeys a b = (if key_kind a < key_kind b then - 1 else 1)"
| "compareArrayKeys [] [] = 0"
| "compareArrayKeys [] (_ # _) = - 1"
| "compareArrayKeys (_ # _) [] = 1"
| "compareArrayKeys (a # as) (b # bs) =
     (let c = CompareKeys a b in if c \<noteq> 0 then c else compareArrayKeys as bs)"

subsection \<open>Queries\<close>

text \<open>The nil query, an exact key, and a range with optional, possibly open bounds.\<close>

datatype query =
    QAll
  | QKey idb_key
  | QRange "idb_key option" "idb_key option" bool bool

definition KeyInRange :: "idb_key \<Rightarrow> idb_key option \<Rightarrow> idb_key option \<Rightarrow> bool \<Rightarrow> bool \<Rightarrow> bool" where
  "KeyInRange k lower upper lowerOpen upperOpen \<longleftrightarrow>
     (case lower of
        None \<Rightarrow> True
      | Some l \<Rightarrow> if lowerOpen then 0 < CompareKeys k l else 0 \<le> CompareKeys k l) \<and>
     (case upper of
        None \<Rightarrow> True
      | Some u \<Rightarrow> if upperOpen then CompareKeys k u < 0 else CompareKeys k u \<le> 0)"

fun MatchQuery :: "idb_key \<Rightarrow> query \<Rightarrow> bool" where
  "MatchQuery k QAll = True"
| "MatchQuery k (QKey t) = (CompareKeys k t = 0)"
| "MatchQuery k (QRange l u lo uo) = KeyInRange k l u lo uo"

definition Bound :: "idb_key \<Rightarrow> idb_key \<Rightarrow> bool \<Rightarrow> bool \<Rightarrow> query" where
  "Bound l u lo uo = QRange (Some l) (Some u) lo uo"

definition Only :: "idb_key \<Rightarrow> query" where
  "Only k = QRange (Some k) (Some k) False False"

definition UpperBound :: "idb_key \<Rightarrow> bool \<Rightarrow> query" where
  "UpperBound u uo = QRange None (Some u) False uo"

subsection \<open>The database\<close>

record index_schema =
  ix_name :: string
  ix_key_path :: "string list"
  ix_unique :: bool

record object_store =
  os_rows :: "(string \<times> rec) list"
  os_indexes :: "index_schema list"

text \<open>
  \<open>db_fail n\<close> is the error the provider answers to the \<open>n\<close>-th operation, if it fails;
  a failed operation has no effect. \<open>db_tick\<close> counts the operations.
\<close>

record db =
  db_stores :: "string \<Rightarrow> object_store"
  db_tick :: nat
  db_fail :: "nat \<Rightarrow> error option"

definition ErrNotFound_idb :: error where "ErrNotFound_idb = Sentinel ''indexeddb: not found''"
definition ErrAlreadyExists_idb :: error where
  "ErrAlreadyExists_idb = Sentinel ''indexeddb: already exists''"

text \<open>The sentinel \<^verbatim>\<open>core.ErrNotFound\<close> the services answer with.\<close>

definition ErrNotFound :: error where "ErrNotFound = Sentinel ''not found''"

definition db_rows :: "db \<Rightarrow> string \<Rightarrow> (string \<times> rec) list" where
  "db_rows d n = os_rows (db_stores d n)"

definition set_rows :: "string \<Rightarrow> (string \<times> rec) list \<Rightarrow> db \<Rightarrow> db" where
  "set_rows n rows d =
     d\<lparr>db_stores := (db_stores d)(n := (db_stores d n)\<lparr>os_rows := rows\<rparr>)\<rparr>"

definition db_op :: "(db \<Rightarrow> 'a result \<times> db) \<Rightarrow> db \<Rightarrow> 'a result \<times> db" where
  "db_op f d =
     (let d' = d\<lparr>db_tick := Suc (db_tick d)\<rparr>
      in case db_fail d (db_tick d) of Some e \<Rightarrow> (Inl e, d') | None \<Rightarrow> f d')"

definition record_id :: "rec \<Rightarrow> string" where
  "record_id r = (case r ''id'' of Some (VString s) \<Rightarrow> s | _ \<Rightarrow> '''')"

definition recordHasIndexKey :: "rec \<Rightarrow> string list \<Rightarrow> bool" where
  "recordHasIndexKey r kp \<longleftrightarrow> list_all (\<lambda>f. r f \<noteq> None \<and> r f \<noteq> Some VNil) kp"

definition hasUniqueConflict :: "object_store \<Rightarrow> rec \<Rightarrow> string option \<Rightarrow> bool" where
  "hasUniqueConflict os r ignore \<longleftrightarrow>
     list_ex (\<lambda>ix. ix_unique ix \<and> recordHasIndexKey r (ix_key_path ix) \<and>
       list_ex (\<lambda>(k, old). ignore \<noteq> Some k \<and> recordHasIndexKey old (ix_key_path ix) \<and>
         list_all (\<lambda>f. old f = r f) (ix_key_path ix)) (os_rows os)) (os_indexes os)"

definition store_Get :: "string \<Rightarrow> string \<Rightarrow> db \<Rightarrow> rec result \<times> db" where
  "store_Get n k = db_op (\<lambda>d.
     (case map_of (db_rows d n) k of None \<Rightarrow> Inl ErrNotFound_idb | Some r \<Rightarrow> Inr r, d))"

definition store_Add :: "string \<Rightarrow> rec \<Rightarrow> db \<Rightarrow> unit result \<times> db" where
  "store_Add n r = db_op (\<lambda>d.
     if map_of (db_rows d n) (record_id r) \<noteq> None \<or> hasUniqueConflict (db_stores d n) r None
     then (Inl ErrAlreadyExists_idb, d)
     else (Inr (), set_rows n (AList.update (record_id r) r (db_rows d n)) d))"

definition store_Put :: "string \<Rightarrow> rec \<Rightarrow> db \<Rightarrow> unit result \<times> db" where
  "store_Put n r = db_op (\<lambda>d.
     if hasUniqueConflict (db_stores d n) r (Some (record_id r))
     then (Inl ErrAlreadyExists_idb, d)
     else (Inr (), set_rows n (AList.update (record_id r) r (db_rows d n)) d))"

definition store_Delete :: "string \<Rightarrow> string \<Rightarrow> db \<Rightarrow> unit result \<times> db" where
  "store_Delete n k = db_op (\<lambda>d. (Inr (), set_rows n (AList.delete k (db_rows d n)) d))"

definition applyCountLimit :: "'a list \<Rightarrow> nat \<Rightarrow> 'a list" where
  "applyCountLimit xs n = (if n = 0 then xs else take n xs)"

text \<open>Rows in primary key order; a count of zero is no limit.\<close>

definition rows_GetAll :: "(string \<times> rec) list \<Rightarrow> query \<Rightarrow> nat \<Rightarrow> rec list" where
  "rows_GetAll rows q n =
     applyCountLimit (map snd (filter (\<lambda>(k, r). MatchQuery (KString k) q)
       (sort_by (\<lambda>(k, _) (k', _). CompareKeys (KString k) (KString k') < 0) rows))) n"

definition store_GetAll :: "string \<Rightarrow> query \<Rightarrow> nat \<Rightarrow> db \<Rightarrow> rec list result \<times> db" where
  "store_GetAll n q c = db_op (\<lambda>d. (Inr (rows_GetAll (db_rows d n) q c), d))"

text \<open>
  An index holds the rows that have all fields of its key path, under the field itself or the
  array of the fields, in key order with the primary key as tie breaker.
\<close>

definition index_key :: "string list \<Rightarrow> rec \<Rightarrow> idb_key option" where
  "index_key kp r =
     (if \<not> recordHasIndexKey r kp then None
      else (case kp of
          [f] \<Rightarrow> (case r f of Some v \<Rightarrow> key_of v | None \<Rightarrow> None)
        | _ \<Rightarrow> key_of (VList (map (\<lambda>f. the (r f)) kp))))"

definition index_less :: "string list \<Rightarrow> string \<times> rec \<Rightarrow> string \<times> rec \<Rightarrow> bool" where
  "index_less kp a b =
     (let c = CompareKeys (the (index_key kp (snd a))) (the (index_key kp (snd b)))
      in if c = 0 then CompareKeys (KString (fst a)) (KString (fst b)) < 0 else c < 0)"

definition rows_index_GetAll :: "(string \<times> rec) list \<Rightarrow> string list \<Rightarrow> query \<Rightarrow> rec list" where
  "rows_index_GetAll rows kp q =
     map snd (filter (\<lambda>(k, r). MatchQuery (the (index_key kp r)) q)
       (sort_by (index_less kp) (filter (\<lambda>(k, r). index_key kp r \<noteq> None) rows)))"

definition index_GetAll :: "string \<Rightarrow> string list \<Rightarrow> query \<Rightarrow> db \<Rightarrow> rec list result \<times> db" where
  "index_GetAll n kp q = db_op (\<lambda>d. (Inr (rows_index_GetAll (db_rows d n) kp q), d))"

subsection \<open>Transactions\<close>

text \<open>
  Every transaction of the services has one shape: begin, a body, then commit, with a deferred
  abort that undoes the body whenever the commit was not reached or failed. The body ends in an
  error, in a result that is returned without a commit, or in a result to commit (with the text
  that wraps a commit error).
\<close>

datatype 'a tx_end = TxFail error | TxReturn 'a | TxCommit string 'a

definition rollback :: "db \<Rightarrow> db \<Rightarrow> db" where
  "rollback before after = after\<lparr>db_stores := db_stores before\<rparr>"

definition db_begin :: "db \<Rightarrow> unit result \<times> db" where
  "db_begin = db_op (\<lambda>d. (Inr (), d))"

definition db_commit :: "db \<Rightarrow> unit result \<times> db" where
  "db_commit = db_op (\<lambda>d. (Inr (), d))"

definition with_tx :: "string \<Rightarrow> (db \<Rightarrow> 'a tx_end \<times> db) \<Rightarrow> db \<Rightarrow> 'a result \<times> db" where
  "with_tx beginMsg body d0 =
     (case db_begin d0 of
        (Inl e, d) \<Rightarrow> (Inl (Wrapf beginMsg e), d)
      | (Inr _, d) \<Rightarrow>
          (case body d of
             (TxFail e, d') \<Rightarrow> (Inl e, rollback d d')
           | (TxReturn a, d') \<Rightarrow> (Inr a, rollback d d')
           | (TxCommit commitMsg a, d') \<Rightarrow>
               (case db_commit d' of
                  (Inl e, d'') \<Rightarrow> (Inl (Wrapf commitMsg e), rollback d d'')
                | (Inr _, d'') \<Rightarrow> (Inr a, d''))))"

subsection \<open>The key order is a total preorder\<close>

lemma compare_units_less: "compare_units a b = sign (a < b) (b < a)" for a b :: "nat list"
  by (induction a b rule: compare_units.induct) (auto simp: sign_def)

lemma sign_eq_simps:
  "sign p q = 0 \<longleftrightarrow> \<not> p \<and> \<not> q" "sign p q \<le> 0 \<longleftrightarrow> p \<or> \<not> q" "sign p q < 0 \<longleftrightarrow> p"
  by (auto simp: sign_def)

lemma sign_swap: "\<not> (p \<and> q) \<Longrightarrow> sign q p = - sign p q"
  by (auto simp: sign_def)

lemma CompareKeys_swap: "CompareKeys b a = - CompareKeys a b"
  and compareArrayKeys_swap: "compareArrayKeys bs as = - compareArrayKeys as bs"
proof (induction a b and as bs rule: CompareKeys_compareArrayKeys.induct)
qed (auto simp: compareDates_def compareUTF16Strings_def compare_bytes_def compare_units_less
    Let_def intro!: sign_swap)

text \<open>
  Transitivity with strictness: the order of \<open>a\<close> and \<open>c\<close> is at least as strict as the
  order of either pair that leads from \<open>a\<close> to \<open>c\<close>.
\<close>

definition trans_at :: "('a \<Rightarrow> 'a \<Rightarrow> int) \<Rightarrow> 'a \<Rightarrow> 'a \<Rightarrow> 'a \<Rightarrow> bool" where
  "trans_at cmp a b c \<longleftrightarrow>
     (cmp a b \<le> 0 \<longrightarrow> cmp b c \<le> 0 \<longrightarrow>
       cmp a c \<le> 0 \<and> (cmp a c = 0 \<longrightarrow> cmp a b = 0 \<and> cmp b c = 0))"

lemma CompareKeys_kind: "CompareKeys a b \<le> 0 \<Longrightarrow> key_kind a \<le> key_kind b"
  by (cases a; cases b) auto

lemma CompareKeys_kind_less: "key_kind a < key_kind b \<Longrightarrow> CompareKeys a b = - 1"
  by (cases a; cases b) auto

lemma compareArrayKeys_trans:
  assumes "\<And>a b c. b \<in> set bs \<Longrightarrow> trans_at CompareKeys a b c"
  shows "trans_at compareArrayKeys as bs cs"
  using assms
proof (induction bs arbitrary: as cs)
  case (Nil as cs)
  show ?case by (cases as; cases cs) (auto simp: trans_at_def)
next
  case (Cons b bs as cs)
  have IH: "trans_at compareArrayKeys as cs' cs" if "cs' = bs" for as cs cs'
    using Cons.IH Cons.prems that by simp
  show ?case
  proof (cases as; cases cs)
    fix a as' c cs' assume eq: "as = a # as'" "cs = c # cs'"
    have "trans_at CompareKeys a b c" using Cons.prems by simp
    moreover have "trans_at compareArrayKeys as' bs cs'" by (rule IH) simp
    ultimately show ?thesis
      unfolding trans_at_def eq compareArrayKeys.simps Let_def by (auto split: if_splits)
  qed (auto simp: trans_at_def)
qed

lemma CompareKeys_trans_at: "trans_at CompareKeys a b c"
proof (induction b arbitrary: a c)
  case (KArray bs a c)
  have arr: "trans_at compareArrayKeys as bs cs" for as cs
    using KArray.IH by (rule compareArrayKeys_trans)
  show ?case
  proof (cases "\<exists>as cs. a = KArray as \<and> c = KArray cs")
    case True
    then show ?thesis using arr by (auto simp: trans_at_def)
  next
    case False
    then show ?thesis by (cases a; cases c) (auto simp: trans_at_def)
  qed
next
  case (KNumber x a c)
  show ?case by (cases a; cases c) (auto simp: trans_at_def sign_eq_simps)
next
  case (KDate x a c)
  show ?case by (cases a; cases c) (auto simp: trans_at_def sign_eq_simps compareDates_def)
next
  case (KString x a c)
  show ?case
    by (cases a; cases c)
      (auto simp: trans_at_def sign_eq_simps compareUTF16Strings_def compare_units_less)
next
  case (KBinary x a c)
  show ?case
    by (cases a; cases c)
      (auto simp: trans_at_def sign_eq_simps compare_bytes_def compare_units_less)
qed

lemma CompareKeys_trans: "CompareKeys a b \<le> 0 \<Longrightarrow> CompareKeys b c \<le> 0 \<Longrightarrow> CompareKeys a c \<le> 0"
  using CompareKeys_trans_at [of a b c] by (simp add: trans_at_def)

lemma CompareKeys_refl [simp]: "CompareKeys a a = 0"
  using CompareKeys_swap [of a a] by simp

subsection \<open>Laws of the store operations\<close>

definition db_healthy :: "db \<Rightarrow> bool" where
  "db_healthy d \<longleftrightarrow> (\<forall>n. db_fail d n = None)"

lemma db_rows_tick [simp]: "db_rows (d\<lparr>db_tick := t\<rparr>) n = db_rows d n"
  by (simp add: db_rows_def)

lemma db_rows_tick_fun [simp]: "db_rows (d\<lparr>db_tick := t\<rparr>) = db_rows d"
  by (simp add: fun_eq_iff)

lemma db_healthy_tick [simp]: "db_healthy (d\<lparr>db_tick := t\<rparr>) = db_healthy d"
  by (simp add: db_healthy_def)

lemma set_rows_simps [simp]:
  "db_rows (set_rows n rows d) m = (if m = n then rows else db_rows d m)"
  "db_fail (set_rows n rows d) = db_fail d"
  "db_tick (set_rows n rows d) = db_tick d"
  "db_healthy (set_rows n rows d) = db_healthy d"
  "os_indexes (db_stores (set_rows n rows d) m) = os_indexes (db_stores d m)"
  by (auto simp: set_rows_def db_rows_def db_healthy_def)

text \<open>What a call of each operation can have done, for any provider.\<close>

lemma db_op_cases:
  assumes "db_op f d = (r, d')"
  obtains (fail) e where "r = Inl e" and "d' = d\<lparr>db_tick := Suc (db_tick d)\<rparr>"
      and "db_fail d (db_tick d) = Some e"
  | (run) "f (d\<lparr>db_tick := Suc (db_tick d)\<rparr>) = (r, d')" and "db_fail d (db_tick d) = None"
  using assms by (auto simp: db_op_def Let_def split: option.splits)

lemma store_Get_Inr:
  "store_Get n k d = (Inr r, d') \<Longrightarrow> map_of (db_rows d n) k = Some r"
  by (auto simp: store_Get_def elim!: db_op_cases split: option.splits)

lemma store_read_stores:
  "store_Get n k d = (x, d') \<Longrightarrow> db_stores d' = db_stores d"
  "store_GetAll n q c d = (y, d') \<Longrightarrow> db_stores d' = db_stores d"
  "index_GetAll n kp q d = (y, d') \<Longrightarrow> db_stores d' = db_stores d"
  "db_begin d = (z, d') \<Longrightarrow> db_stores d' = db_stores d"
  "db_commit d = (z, d') \<Longrightarrow> db_stores d' = db_stores d"
  by (auto simp: store_Get_def store_GetAll_def index_GetAll_def db_begin_def db_commit_def
      elim!: db_op_cases)

lemma store_op_fail:
  "store_Get n k d = (x, d') \<Longrightarrow> db_fail d' = db_fail d"
  "store_GetAll n q c d = (y, d') \<Longrightarrow> db_fail d' = db_fail d"
  "index_GetAll n kp q d = (y, d') \<Longrightarrow> db_fail d' = db_fail d"
  "db_begin d = (z, d') \<Longrightarrow> db_fail d' = db_fail d"
  "db_commit d = (z, d') \<Longrightarrow> db_fail d' = db_fail d"
  "store_Add n r d = (z, d') \<Longrightarrow> db_fail d' = db_fail d"
  "store_Put n r d = (z, d') \<Longrightarrow> db_fail d' = db_fail d"
  "store_Delete n k d = (z, d') \<Longrightarrow> db_fail d' = db_fail d"
  by (auto simp: store_Get_def store_GetAll_def index_GetAll_def db_begin_def db_commit_def
      store_Add_def store_Put_def store_Delete_def elim!: db_op_cases split: if_splits)

lemma store_GetAll_Inr:
  "store_GetAll n q c d = (Inr rs, d') \<Longrightarrow> rs = rows_GetAll (db_rows d n) q c"
  by (auto simp: store_GetAll_def elim!: db_op_cases)

lemma index_GetAll_Inr:
  "index_GetAll n kp q d = (Inr rs, d') \<Longrightarrow> rs = rows_index_GetAll (db_rows d n) kp q"
  by (auto simp: index_GetAll_def elim!: db_op_cases)

lemma store_write_Inl:
  "store_Add n r d = (Inl e, d') \<Longrightarrow> db_stores d' = db_stores d"
  "store_Put n r d = (Inl e, d') \<Longrightarrow> db_stores d' = db_stores d"
  "store_Delete n k d = (Inl e, d') \<Longrightarrow> db_stores d' = db_stores d"
  by (auto simp: store_Add_def store_Put_def store_Delete_def elim!: db_op_cases split: if_splits)

lemma store_Put_Inr:
  "store_Put n r d = (Inr u, d') \<Longrightarrow>
     db_rows d' = (db_rows d)(n := AList.update (record_id r) r (db_rows d n))"
  by (auto simp: store_Put_def fun_eq_iff elim!: db_op_cases split: if_splits)

lemma store_Add_Inr:
  assumes "store_Add n r d = (Inr u, d')"
  shows "db_rows d' = (db_rows d)(n := AList.update (record_id r) r (db_rows d n))"
    and "map_of (db_rows d n) (record_id r) = None"
  using assms by (auto simp: store_Add_def fun_eq_iff elim!: db_op_cases split: if_splits)

lemma store_Delete_Inr:
  "store_Delete n k d = (Inr u, d') \<Longrightarrow> db_rows d' = (db_rows d)(n := AList.delete k (db_rows d n))"
  by (auto simp: store_Delete_def fun_eq_iff elim!: db_op_cases)

lemma db_rows_stores: "db_stores d' = db_stores d \<Longrightarrow> db_rows d' = db_rows d"
  by (simp add: db_rows_def fun_eq_iff)

text \<open>On a healthy provider every operation answers.\<close>

lemma healthy_db_op: "db_healthy d \<Longrightarrow> db_op f d = f (d\<lparr>db_tick := Suc (db_tick d)\<rparr>)"
  by (simp add: db_op_def db_healthy_def Let_def)

lemma healthy_store:
  assumes "db_healthy d"
  shows "store_Get n k d = ((case map_of (db_rows d n) k of None \<Rightarrow> Inl ErrNotFound_idb | Some r \<Rightarrow> Inr r),
      d\<lparr>db_tick := Suc (db_tick d)\<rparr>)"
    and "store_GetAll n q c d = (Inr (rows_GetAll (db_rows d n) q c), d\<lparr>db_tick := Suc (db_tick d)\<rparr>)"
    and "index_GetAll n kp q d = (Inr (rows_index_GetAll (db_rows d n) kp q), d\<lparr>db_tick := Suc (db_tick d)\<rparr>)"
    and "store_Delete n k d = (Inr (), set_rows n (AList.delete k (db_rows d n)) (d\<lparr>db_tick := Suc (db_tick d)\<rparr>))"
    and "\<not> hasUniqueConflict (db_stores d n) r (Some (record_id r)) \<Longrightarrow>
      store_Put n r d = (Inr (), set_rows n (AList.update (record_id r) r (db_rows d n))
        (d\<lparr>db_tick := Suc (db_tick d)\<rparr>))"
    and "map_of (db_rows d n) (record_id r) = None \<Longrightarrow> \<not> hasUniqueConflict (db_stores d n) r None \<Longrightarrow>
      store_Add n r d = (Inr (), set_rows n (AList.update (record_id r) r (db_rows d n))
        (d\<lparr>db_tick := Suc (db_tick d)\<rparr>))"
  using assms
  by (simp_all add: store_Get_def store_GetAll_def index_GetAll_def store_Delete_def store_Put_def
      store_Add_def healthy_db_op)

subsection \<open>Laws of transactions\<close>

text \<open>An error leaves every store as it was, whatever the body did.\<close>

lemma with_tx_Inl: "with_tx m body d = (Inl e, d') \<Longrightarrow> db_stores d' = db_stores d"
  by (auto simp: with_tx_def rollback_def dest: store_read_stores
      split: prod.splits sum.splits tx_end.splits)

lemma with_tx_Inr:
  assumes "with_tx m body d = (Inr a, d')"
  obtains (commit) d1 d2 msg where "db_stores d1 = db_stores d"
      and "db_fail d1 = db_fail d" and "body d1 = (TxCommit msg a, d2)"
      and "db_stores d' = db_stores d2"
  | (return) d1 d2 where "db_stores d1 = db_stores d" and "db_fail d1 = db_fail d"
      and "body d1 = (TxReturn a, d2)" and "db_stores d' = db_stores d"
proof -
  from assms obtain u d1 where b: "db_begin d = (Inr u, d1)"
    by (auto simp: with_tx_def split: prod.splits sum.splits)
  note d1 = store_read_stores(4) [OF b] store_op_fail(4) [OF b]
  obtain t d2 where body: "body d1 = (t, d2)" by (cases "body d1")
  show thesis
  proof (cases t)
    case (TxFail e)
    then show thesis using assms b body by (simp add: with_tx_def)
  next
    case (TxReturn a')
    then have "a' = a" "d' = rollback d1 d2" using assms b body by (simp_all add: with_tx_def)
    then show thesis using return d1 body TxReturn by (simp add: rollback_def)
  next
    case (TxCommit msg a')
    then obtain v where "db_commit d2 = (Inr v, d')" and "a' = a"
      using assms b body by (auto simp: with_tx_def split: prod.splits sum.splits)
    then show thesis using commit d1 body TxCommit store_read_stores(5) by blast
  qed
qed

lemma with_tx_fail:
  assumes "with_tx m body d = (x, d')" and "\<And>d1 t d2. body d1 = (t, d2) \<Longrightarrow> db_fail d2 = db_fail d1"
  shows "db_fail d' = db_fail d"
proof -
  obtain u d1 where b: "db_begin d = (u, d1)" by fastforce
  obtain t d2 where t: "body d1 = (t, d2)" by fastforce
  obtain v d3 where v: "db_commit d2 = (v, d3)" by fastforce
  have "db_fail d1 = db_fail d" "db_fail d2 = db_fail d" "db_fail d3 = db_fail d"
    using store_op_fail(4) [OF b] assms(2) [OF t] store_op_fail(5) [OF v] by simp_all
  then show ?thesis
    using assms(1) b t v by (cases u; cases t; cases v) (auto simp: with_tx_def rollback_def)
qed

lemma with_tx_healthy:
  assumes "db_healthy d" and "body (d\<lparr>db_tick := Suc (db_tick d)\<rparr>) = (t, d')" and "db_healthy d'"
  shows "with_tx m body d =
    (case t of
       TxFail e \<Rightarrow> (Inl e, rollback (d\<lparr>db_tick := Suc (db_tick d)\<rparr>) d')
     | TxReturn a \<Rightarrow> (Inr a, rollback (d\<lparr>db_tick := Suc (db_tick d)\<rparr>) d')
     | TxCommit msg a \<Rightarrow> (Inr a, d'\<lparr>db_tick := Suc (db_tick d')\<rparr>))"
  using assms
  by (simp add: with_tx_def db_begin_def db_commit_def healthy_db_op split: tx_end.splits)

lemma db_rows_rollback [simp]: "db_rows (rollback d d') = db_rows d"
  by (simp add: rollback_def db_rows_def fun_eq_iff)

text \<open>
  The same laws on the contents of the database, the rows of each store: they are what the
  services' specifications speak about.
\<close>

lemma db_healthy_rollback [simp]: "db_healthy (rollback d d') = db_healthy d'"
  by (simp add: rollback_def db_healthy_def)

type_synonym contents = "string \<Rightarrow> (string \<times> rec) list"

definition row_put :: "string \<Rightarrow> rec \<Rightarrow> contents \<Rightarrow> contents" where
  "row_put n r c = c(n := AList.update (record_id r) r (c n))"

definition row_delete :: "string \<Rightarrow> string \<Rightarrow> contents \<Rightarrow> contents" where
  "row_delete n k c = c(n := AList.delete k (c n))"

lemma row_put_apply [simp]:
  "map_of (row_put n r c m) k = (if m = n \<and> k = record_id r then Some r else map_of (c m) k)"
  by (simp add: row_put_def)

lemma row_delete_apply [simp]:
  "map_of (row_delete n i c m) k = (if m = n \<and> k = i then None else map_of (c m) k)"
  by (simp add: row_delete_def)

lemma row_put_other [simp]: "m \<noteq> n \<Longrightarrow> row_put n r c m = c m"
  by (simp add: row_put_def)

lemma row_delete_other [simp]: "m \<noteq> n \<Longrightarrow> row_delete n i c m = c m"
  by (simp add: row_delete_def)

definition wf_contents :: "contents \<Rightarrow> bool" where
  "wf_contents c \<longleftrightarrow> (\<forall>n. wf_alist (c n))"

lemma wf_contents_row_put [simp]: "wf_contents c \<Longrightarrow> wf_contents (row_put n r c)"
  by (simp add: wf_contents_def row_put_def wf_alist_update)

lemma wf_contents_row_delete [simp]: "wf_contents c \<Longrightarrow> wf_contents (row_delete n k c)"
  by (simp add: wf_contents_def row_delete_def wf_alist_delete)

lemma read_rows [store_simps]:
  "store_Get n k d = (x, d') \<Longrightarrow> db_rows d' = db_rows d"
  "store_GetAll n q c d = (y, d') \<Longrightarrow> db_rows d' = db_rows d"
  "index_GetAll n kp q d = (y, d') \<Longrightarrow> db_rows d' = db_rows d"
  by (auto dest: store_read_stores intro: db_rows_stores)

lemma write_rows:
  "store_Put n r d = (x, d') \<Longrightarrow> db_rows d' = (case x of Inl _ \<Rightarrow> db_rows d | Inr _ \<Rightarrow> row_put n r (db_rows d))"
  "store_Add n r d = (x, d') \<Longrightarrow> db_rows d' = (case x of Inl _ \<Rightarrow> db_rows d | Inr _ \<Rightarrow> row_put n r (db_rows d))"
  "store_Delete n k d = (x, d') \<Longrightarrow>
     db_rows d' = (case x of Inl _ \<Rightarrow> db_rows d | Inr _ \<Rightarrow> row_delete n k (db_rows d))"
  by (cases x; force intro: db_rows_stores dest: store_write_Inl store_Put_Inr store_Add_Inr(1)
      store_Delete_Inr simp: row_put_def row_delete_def)+

lemma with_tx_error: "with_tx m body d = (Inl e, d') \<Longrightarrow> db_rows d' = db_rows d"
  by (rule db_rows_stores) (rule with_tx_Inl)

text \<open>What the body establishes when it asks for a commit holds after a successful transaction.\<close>

lemma with_tx_post:
  assumes "with_tx m body d = (Inr a, d')"
    and "\<And>d1 d2 msg. db_rows d1 = db_rows d \<Longrightarrow> body d1 = (TxCommit msg a, d2) \<Longrightarrow> P (db_rows d2)"
    and "\<And>d1 d2. db_rows d1 = db_rows d \<Longrightarrow> body d1 = (TxReturn a, d2) \<Longrightarrow> P (db_rows d)"
  shows "P (db_rows d')"
  using assms(1)
proof (cases rule: with_tx_Inr)
  case (commit d1 d2 msg)
  show ?thesis
    using assms(2) [OF db_rows_stores [OF commit(1)] commit(3)] db_rows_stores [OF commit(4)] by simp
next
  case (return d1 d2)
  show ?thesis
    using assms(3) [OF db_rows_stores [OF return(1)] return(3)] db_rows_stores [OF return(4)] by simp
qed

subsection \<open>Lists of rows\<close>

lemma sorted_keys:
  "sorted_wrt (\<lambda>a b. \<not> CompareKeys (f b) (f a) < 0) (sort_by (\<lambda>a b. CompareKeys (f a) (f b) < 0) xs)"
proof (rule sorted_wrt_sort_by)
  fix a b c
  show "\<not> CompareKeys (f a) (f b) < 0 \<or> \<not> CompareKeys (f b) (f a) < 0"
    using CompareKeys_swap [of "f a" "f b"] by auto
  assume "\<not> CompareKeys (f b) (f a) < 0" and "\<not> CompareKeys (f c) (f b) < 0"
  then have "CompareKeys (f a) (f b) \<le> 0" and "CompareKeys (f b) (f c) \<le> 0"
    using CompareKeys_swap [of "f a" "f b"] CompareKeys_swap [of "f b" "f c"] by auto
  from CompareKeys_trans [OF this] show "\<not> CompareKeys (f c) (f a) < 0"
    using CompareKeys_swap [of "f a" "f c"] by auto
qed

lemma set_rows_GetAll:
  "set (rows_GetAll rows q 0) = {r. \<exists>k. (k, r) \<in> set rows \<and> MatchQuery (KString k) q}"
  by (force simp: rows_GetAll_def applyCountLimit_def)

lemma length_rows_GetAll_All: "length (rows_GetAll rows QAll 0) = length rows"
  by (simp add: rows_GetAll_def applyCountLimit_def split_def)

lemma set_rows_index_GetAll:
  "set (rows_index_GetAll rows kp q) =
    {r. \<exists>k ik. (k, r) \<in> set rows \<and> index_key kp r = Some ik \<and> MatchQuery ik q}"
  by (force simp: rows_index_GetAll_def)

text \<open>
  Two keys are the same key for the store when their UTF-16 texts agree. Keys that are valid
  text are told apart by it; \<open>separates\<close> says so for a key and the keys of a store.
\<close>

definition separates :: "(string \<times> 'a) list \<Rightarrow> string \<Rightarrow> bool" where
  "separates rows k \<longleftrightarrow> (\<forall>k' \<in> fst ` set rows. utf16 k' = utf16 k \<longrightarrow> k' = k)"

lemma compare_strings_eq: "CompareKeys (KString a) (KString b) = 0 \<longleftrightarrow> utf16 a = utf16 b"
  by (auto simp: compareUTF16Strings_def compare_units_less sign_eq_simps)

definition ascii :: "string \<Rightarrow> bool" where
  "ascii s \<longleftrightarrow> list_all (\<lambda>c. of_char c < (128::nat)) s"

lemma utf16_ascii: "ascii s \<Longrightarrow> utf16 s = map of_char s"
  by (induction s) (auto simp: utf16_def utf16_units_def ascii_def)

lemma utf16_ascii_inj: "ascii a \<Longrightarrow> ascii b \<Longrightarrow> utf16 a = utf16 b \<longleftrightarrow> a = b"
  by (simp add: utf16_ascii inj_map_eq_map inj_of_char)

definition ascii_keys :: "contents \<Rightarrow> string \<Rightarrow> bool" where
  "ascii_keys c n \<longleftrightarrow> (\<forall>k \<in> fst ` set (c n). ascii k)"

lemma ascii_keys_separates: "ascii_keys c n \<Longrightarrow> ascii k \<Longrightarrow> separates (c n) k"
  unfolding ascii_keys_def separates_def using utf16_ascii_inj by blast

lemma ascii_keys_row_put:
  "ascii_keys c n \<Longrightarrow> ascii (record_id r) \<Longrightarrow> ascii_keys (row_put n r c) n"
  unfolding ascii_keys_def row_put_def fun_upd_same dom_update by blast

lemma rows_GetAll_key:
  assumes "separates rows k" and "wf_alist rows"
  shows "rows_GetAll rows (QKey (KString k)) 1 =
    (case map_of rows k of None \<Rightarrow> [] | Some r \<Rightarrow> [r])"
proof -
  let ?lt = "\<lambda>(k, _) (k', _). CompareKeys (KString k) (KString k') < 0"
  let ?xs = "filter (\<lambda>(k', r). MatchQuery (KString k') (QKey (KString k))) (sort_by ?lt rows)"
  have "filter (\<lambda>(k', r). MatchQuery (KString k') (QKey (KString k))) xs =
      filter (\<lambda>(k', r). k' = k) xs" if "set xs \<subseteq> set rows" for xs
    using that assms(1)
    by (intro filter_cong) (force simp: separates_def compare_strings_eq simp del: CompareKeys.simps)+
  then have xs: "?xs = filter (\<lambda>(k', r). k' = k) (sort_by ?lt rows)" by simp
  have "mset (filter (\<lambda>(k', r). k' = k) (sort_by ?lt rows)) = mset (filter (\<lambda>(k', r). k' = k) rows)"
    by simp
  also have "filter (\<lambda>(k', r). k' = k) rows = (case map_of rows k of None \<Rightarrow> [] | Some r \<Rightarrow> [(k, r)])"
    using assms(2)
  proof (induction rows)
    case (Cons x rows)
    obtain k' r where "x = (k', r)" by (cases x)
    moreover have "filter (\<lambda>(k'', r). k'' = k) rows = []" if "k' = k"
      using that Cons.prems \<open>x = (k', r)\<close> by (force simp: filter_empty_conv)
    ultimately show ?case using Cons by auto
  qed simp
  finally have "mset ?xs = mset (case map_of rows k of None \<Rightarrow> [] | Some r \<Rightarrow> [(k, r)])"
    unfolding xs .
  then have "?xs = (case map_of rows k of None \<Rightarrow> [] | Some r \<Rightarrow> [(k, r)])"
    by (cases "map_of rows k") (simp_all del: mset_filter)
  then show ?thesis
    unfolding rows_GetAll_def applyCountLimit_def by (simp split: option.splits)
qed

text \<open>
  An index over text fields, asked for one exact key. The rows found are those whose fields have
  the texts of the key.
\<close>

lemma match_exact [simp]: "MatchQuery k (Bound t t False False) \<longleftrightarrow> CompareKeys k t = 0"
  by (auto simp: Bound_def KeyInRange_def)

lemma compare_text_arrays:
  "CompareKeys (KArray (map KString as)) (KArray (map KString bs)) = 0 \<longleftrightarrow> map utf16 as = map utf16 bs"
proof (induction as arbitrary: bs)
  case Nil
  show ?case by (cases bs) simp_all
next
  case (Cons a as)
  show ?case
  proof (cases bs)
    case Nil
    then show ?thesis by simp
  next
    case (Cons b bs')
    then show ?thesis
      using Cons.IH [of bs'] compare_strings_eq [of a b] by (simp add: Let_def)
  qed
qed

definition text_fields :: "string list \<Rightarrow> rec \<Rightarrow> string list \<Rightarrow> bool" where
  "text_fields kp r vs \<longleftrightarrow> list_all2 (\<lambda>f v. r f = Some (VString v)) kp vs"

lemma keys_of_texts: "keys_of (map VString vs) = Some (map KString vs)"
  by (induction vs) simp_all

lemma index_key_texts:
  assumes "text_fields kp r vs" and "length kp \<noteq> 1"
  shows "index_key kp r = Some (KArray (map KString vs))"
proof -
  have vals: "map (\<lambda>f. the (r f)) kp = map VString vs"
    using assms(1) unfolding text_fields_def by (induction rule: list_all2_induct) simp_all
  have "recordHasIndexKey r kp"
    using assms(1) unfolding text_fields_def recordHasIndexKey_def
    by (induction rule: list_all2_induct) simp_all
  then show ?thesis
    using assms(2) vals keys_of_texts [of vs] by (cases kp rule: remdups_adj.cases) (simp_all add: index_key_def)
qed

lemma index_key_text: "r f = Some (VString v) \<Longrightarrow> index_key [f] r = Some (KString v)"
  by (simp add: index_key_def recordHasIndexKey_def)

lemma index_exact_texts:
  assumes "text_fields kp r vs" and "length kp \<noteq> 1"
  shows "(\<exists>ik. index_key kp r = Some ik \<and> CompareKeys ik (KArray (map KString ts)) = 0) \<longleftrightarrow>
    map utf16 vs = map utf16 ts"
  by (simp only: index_key_texts [OF assms] option.inject ex_simps simp_thms compare_text_arrays)

lemma row_deletes: "fold (row_delete n) ids c = c(n := filter (\<lambda>(k, _). k \<notin> set ids) (c n))"
proof (induction ids arbitrary: c)
  case Nil
  show ?case by (simp add: split_def)
next
  case (Cons i ids)
  have "filter (\<lambda>(k, _). k \<notin> set ids) (AList.delete i (c n)) = filter (\<lambda>(k, _). k \<notin> set (i # ids)) (c n)"
    by (auto simp: AList.delete_eq intro!: filter_cong)
  then show ?case using Cons [of "row_delete n i c"] by (simp add: row_delete_def fun_upd_def fun_eq_iff)
qed

lemma index_rows:
  "rows_index_GetAll rows kp q = map snd (filter (\<lambda>(k, r). \<exists>ik. index_key kp r = Some ik \<and> MatchQuery ik q)
     (sort_by (index_less kp) (filter (\<lambda>(k, r). index_key kp r \<noteq> None) rows)))"
  unfolding rows_index_GetAll_def by (auto intro!: arg_cong [where f = "map snd"] filter_cong)

lemma length_index_rows:
  "length (rows_index_GetAll rows kp q) =
    length (filter (\<lambda>(k, r). \<exists>ik. index_key kp r = Some ik \<and> MatchQuery ik q) rows)"
proof -
  have "size (mset (filter P (sort_by lt (filter Q xs)))) = size (mset (filter (\<lambda>x. P x \<and> Q x) xs))"
    for P Q lt and xs :: "(string \<times> rec) list"
    by (simp add: filter_filter_mset conj_commute)
  then show ?thesis
    unfolding index_rows size_mset length_map by (auto intro!: arg_cong [where f = length] filter_cong)
qed

lemma mset_index_rows:
  "mset (rows_index_GetAll rows kp q) =
    mset (map snd (filter (\<lambda>(k, r). \<exists>ik. index_key kp r = Some ik \<and> MatchQuery ik q) rows))"
proof -
  have "mset (filter P (sort_by lt (filter Q xs))) = mset (filter P xs)"
    if "\<And>x. P x \<Longrightarrow> Q x" for P Q lt and xs :: "(string \<times> rec) list"
    using that by (auto simp: filter_filter_mset intro!: filter_mset_cong)
  from this [of "\<lambda>(k, r). \<exists>ik. index_key kp r = Some ik \<and> MatchQuery ik q" "\<lambda>(k, r). index_key kp r \<noteq> None"]
  have "mset (filter (\<lambda>(k, r). \<exists>ik. index_key kp r = Some ik \<and> MatchQuery ik q)
      (sort_by (index_less kp) (filter (\<lambda>(k, r). index_key kp r \<noteq> None) rows))) =
      mset (filter (\<lambda>(k, r). \<exists>ik. index_key kp r = Some ik \<and> MatchQuery ik q) rows)"
    by auto
  then show ?thesis unfolding index_rows by (simp only: mset_map)
qed

text \<open>A provider that reports a row as missing only when it is: other failures have other causes.\<close>

definition honest_failures :: "db \<Rightarrow> bool" where
  "honest_failures d \<longleftrightarrow> (\<forall>n e. db_fail d n = Some e \<longrightarrow> \<not> errors_is e ErrNotFound_idb)"

lemma store_Delete_honest:
  assumes "honest_failures d" and "store_Delete n k d = (y, d')"
  shows "honest_failures d'" and "y = Inl e \<Longrightarrow> \<not> errors_is e ErrNotFound_idb"
  using assms store_op_fail(8) [OF assms(2)]
  by (auto simp: honest_failures_def store_Delete_def elim!: db_op_cases)

lemma healthy_honest: "db_healthy d \<Longrightarrow> honest_failures d"
  by (simp add: db_healthy_def honest_failures_def)

subsection \<open>The contracts the services rely on\<close>

text \<open>
  A keyed collection: what a lookup finds after a write or a removal, for the values that are
  \<open>ok\<close> to write.
\<close>

locale keyed_store =
  fixes lookup :: "'d \<Rightarrow> string \<Rightarrow> 'r option"
    and store :: "'r \<Rightarrow> 'd \<Rightarrow> 'd"
    and remove :: "string \<Rightarrow> 'd \<Rightarrow> 'd"
    and ident :: "'r \<Rightarrow> string"
    and ok :: "'r \<Rightarrow> bool"
  assumes lookup_write: "ok r \<Longrightarrow> lookup (store r d) k = (if k = ident r then Some r else lookup d k)"
    and lookup_remove: "lookup (remove i d) k = (if k = i then None else lookup d k)"
begin

lemma lookup_remove_all:
  "lookup (fold remove ids d) k = (if k \<in> set ids then None else lookup d k)"
  by (induction ids arbitrary: d) (auto simp: lookup_remove)

text \<open>Writing back an image of each of a list of values, as the retargeting loop does.\<close>

lemma lookup_write_all:
  assumes "distinct (map ident rs)" and "\<And>r. r \<in> set rs \<Longrightarrow> ident (f r) = ident r"
    and "\<And>r. r \<in> set rs \<Longrightarrow> ok (f r)"
  shows "lookup (fold (\<lambda>r. store (f r)) rs d) k =
    (case find (\<lambda>r. ident r = k) rs of None \<Rightarrow> lookup d k | Some r \<Rightarrow> Some (f r))"
  using assms
proof (induction rs arbitrary: d)
  case Nil
  show ?case by simp
next
  case (Cons r rs)
  have IH: "lookup (fold (\<lambda>r. store (f r)) rs (store (f r) d)) k =
      (case find (\<lambda>r. ident r = k) rs of None \<Rightarrow> lookup (store (f r) d) k | Some r \<Rightarrow> Some (f r))"
    by (rule Cons.IH) (use Cons.prems in auto)
  have id: "ident (f r) = ident r" "ok (f r)" using Cons.prems(2,3) by simp_all
  have "find (\<lambda>r'. ident r' = k) rs = None" if "ident r = k"
    using that Cons.prems(1) by (simp add: find_None_iff) (metis imageI)
  then show ?case
    using IH id by (auto simp: lookup_write split: option.splits)
qed

end

text \<open>
  A service stores values of its own type as records of one store. The codec contract is that the
  record is keyed by the value's key and that decoding gives the value back. Then the decoded rows
  of the store are a keyed collection.
\<close>

locale row_codec =
  fixes n :: string
    and key :: "'a \<Rightarrow> string"
    and encode :: "'a \<Rightarrow> rec"
    and decode :: "rec \<Rightarrow> 'a"
    and storable :: "'a \<Rightarrow> bool"
  assumes encode_id: "storable a \<Longrightarrow> encode a ''id'' = Some (VString (key a))"
    and decode_encode: "storable a \<Longrightarrow> decode (encode a) = a"
begin

lemma record_id_encode: "storable a \<Longrightarrow> record_id (encode a) = key a"
  by (simp add: record_id_def encode_id)

lemma get_after_put:
  assumes "storable a" and "store_Put n (encode a) d = (Inr u, d')"
    and "store_Get n (key a) d' = (Inr r, d'')"
  shows "decode r = a"
  using store_Put_Inr [OF assms(2)] store_Get_Inr [OF assms(3)] assms(1)
  by (auto simp: record_id_encode decode_encode)

text \<open>Listing a store whose rows are keyed by their values lists each value once.\<close>

lemma listed:
  assumes "wf_alist (c n)" and "\<And>k a. map_option decode (map_of (c n) k) = Some a \<Longrightarrow> key a = k"
  shows "distinct (map key (map decode (rows_GetAll (c n) QAll 0)))"
    and "a \<in> set (map decode (rows_GetAll (c n) QAll 0)) \<longleftrightarrow>
      map_option decode (map_of (c n) (key a)) = Some a"
proof -
  let ?xs = "sort_by (\<lambda>(k, _) (k', _). CompareKeys (KString k) (KString k') < 0) (c n)"
  have row: "map_option decode (map_of (c n) k) = Some (decode r)" if "(k, r) \<in> set (c n)" for k r
    using that assms(1) by (simp add: map_of_eq_Some_iff)
  have key: "key (decode r) = k" if "(k, r) \<in> set (c n)" for k r
    using assms(2) [OF row [OF that]] .
  have all: "rows_GetAll (c n) QAll 0 = map snd ?xs"
    by (simp add: rows_GetAll_def applyCountLimit_def split_def)
  have eq: "map key (map decode (map snd ?xs)) = map fst ?xs"
    using key by (auto simp: comp_def)
  have "distinct (map fst ?xs)" using assms(1) by simp
  then show "distinct (map key (map decode (rows_GetAll (c n) QAll 0)))" unfolding all eq .
  show "a \<in> set (map decode (rows_GetAll (c n) QAll 0)) \<longleftrightarrow>
      map_option decode (map_of (c n) (key a)) = Some a"
  proof
    assume "a \<in> set (map decode (rows_GetAll (c n) QAll 0))"
    then obtain k r where "(k, r) \<in> set (c n)" and "a = decode r" unfolding all by auto
    then show "map_option decode (map_of (c n) (key a)) = Some a" using row key by simp
  next
    assume "map_option decode (map_of (c n) (key a)) = Some a"
    then obtain r where "map_of (c n) (key a) = Some r" and "a = decode r" by auto
    then have "r \<in> snd ` set (c n)" using map_of_SomeD by force
    then show "a \<in> set (map decode (rows_GetAll (c n) QAll 0))"
      unfolding all using \<open>a = decode r\<close> by auto
  qed
qed

end

sublocale row_codec < keyed_store "\<lambda>c k. map_option decode (map_of (c n) k)"
    "\<lambda>a. row_put n (encode a)" "row_delete n" key storable
  by unfold_locales (simp_all add: record_id_encode decode_encode)

subsection \<open>Unique indexes\<close>

text \<open>
  The store refuses a write that would give two rows the same key of a unique index. So the
  invariant that no two rows share one holds in every database the operations reach.
\<close>

definition same_index_key :: "string list \<Rightarrow> rec \<Rightarrow> rec \<Rightarrow> bool" where
  "same_index_key kp r r' \<longleftrightarrow> recordHasIndexKey r kp \<and> recordHasIndexKey r' kp \<and> list_all (\<lambda>f. r f = r' f) kp"

definition unique_on :: "(string \<times> rec) list \<Rightarrow> string list \<Rightarrow> bool" where
  "unique_on rows kp \<longleftrightarrow>
     (\<forall>k r k' r'. (k, r) \<in> set rows \<longrightarrow> (k', r') \<in> set rows \<longrightarrow> same_index_key kp r r' \<longrightarrow> k = k')"

definition unique_rows :: "object_store \<Rightarrow> bool" where
  "unique_rows os \<longleftrightarrow> wf_alist (os_rows os) \<and>
     (\<forall>ix \<in> set (os_indexes os). ix_unique ix \<longrightarrow> unique_on (os_rows os) (ix_key_path ix))"

definition uniques_ok :: "db \<Rightarrow> bool" where
  "uniques_ok d \<longleftrightarrow> (\<forall>n. unique_rows (db_stores d n))"

lemma same_index_key_sym: "same_index_key kp a b \<Longrightarrow> same_index_key kp b a"
  by (auto simp: same_index_key_def list_all_iff)

lemma unique_on_update:
  assumes "wf_alist rows" and "unique_on rows kp"
    and "\<And>k' r'. (k', r') \<in> set rows \<Longrightarrow> same_index_key kp r' r \<Longrightarrow> k' = k"
  shows "unique_on (AList.update k r rows) kp"
proof -
  have mem: "(k', r') \<in> set (AList.update k r rows) \<longleftrightarrow> (if k' = k then r' = r else (k', r') \<in> set rows)" for k' r'
    using map_of_eq_Some_iff [OF wf_alist_update [OF assms(1)], of k r k' r'] map_of_eq_Some_iff [OF assms(1), of k' r']
    by (auto simp: update_conv')
  have "a = b" if "(a, x) \<in> set (AList.update k r rows)" "(b, y) \<in> set (AList.update k r rows)"
      "same_index_key kp x y" for a x b y
  proof (cases "a = k \<or> b = k")
    case True
    then show ?thesis using that assms(3) same_index_key_sym unfolding mem by metis
  next
    case False
    then show ?thesis using that assms(2) unfolding mem unique_on_def by metis
  qed
  then show ?thesis unfolding unique_on_def by blast
qed

lemma unique_rows_update:
  assumes "unique_rows os" and "\<not> hasUniqueConflict os r (Some k)"
  shows "unique_rows (os\<lparr>os_rows := AList.update k r (os_rows os)\<rparr>)"
proof -
  have clash: "k' = k" if "ix \<in> set (os_indexes os)" "ix_unique ix" "(k', r') \<in> set (os_rows os)"
      "same_index_key (ix_key_path ix) r' r" for ix k' r'
    using assms(2) that unfolding hasUniqueConflict_def same_index_key_def list_ex_iff by force
  show ?thesis
    using assms(1) clash by (simp add: unique_rows_def wf_alist_update unique_on_update)
qed

lemma unique_rows_delete:
  assumes "unique_rows os"
  shows "unique_rows (os\<lparr>os_rows := AList.delete k (os_rows os)\<rparr>)"
proof -
  have "set (AList.delete k (os_rows os)) \<subseteq> set (os_rows os)" by (auto simp: AList.delete_eq)
  then have "unique_on (AList.delete k (os_rows os)) kp" if "unique_on (os_rows os) kp" for kp
    using that unfolding unique_on_def by blast
  then show ?thesis using assms by (simp add: unique_rows_def wf_alist_delete)
qed

lemma uniques_ok_write:
  assumes "uniques_ok d"
  shows "store_Put n r d = (x, d') \<Longrightarrow> uniques_ok d'" and "store_Add n r d = (y, d') \<Longrightarrow> uniques_ok d'"
    and "store_Delete n k d = (z, d') \<Longrightarrow> uniques_ok d'"
proof -
  have ignore: "\<not> hasUniqueConflict os r (Some i)" if "\<not> hasUniqueConflict os r None" for os i
    using that unfolding hasUniqueConflict_def list_ex_iff by fastforce
  note put = unique_rows_update [OF spec [OF assms [unfolded uniques_ok_def], of n], of r "record_id r"]
  have upd: "uniques_ok (set_rows n (AList.update (record_id r) r (db_rows d n)) (d\<lparr>db_tick := t\<rparr>))"
    if "\<not> hasUniqueConflict (db_stores d n) r (Some (record_id r))" for t
    using put [OF that] assms by (simp add: uniques_ok_def set_rows_def db_rows_def)
  show "store_Put n r d = (x, d') \<Longrightarrow> uniques_ok d'"
    using assms upd by (auto simp: store_Put_def uniques_ok_def elim!: db_op_cases split: if_splits)
  show "store_Add n r d = (y, d') \<Longrightarrow> uniques_ok d'"
    using assms upd [OF ignore] by (auto simp: store_Add_def uniques_ok_def elim!: db_op_cases split: if_splits)
  have "uniques_ok (set_rows n (AList.delete k (db_rows d n)) (d\<lparr>db_tick := t\<rparr>))" for t
    using unique_rows_delete [OF spec [OF assms [unfolded uniques_ok_def], of n], of k] assms
    by (simp add: uniques_ok_def set_rows_def db_rows_def)
  then show "store_Delete n k d = (z, d') \<Longrightarrow> uniques_ok d'"
    using assms by (auto simp: store_Delete_def uniques_ok_def elim!: db_op_cases)
qed

lemma uniques_ok_stores: "db_stores d' = db_stores d \<Longrightarrow> uniques_ok d' = uniques_ok d"
  by (simp add: uniques_ok_def)

text \<open>
  An invariant of the database: one that depends on the stores alone and that every write keeps.
  Reads and transactions keep it too, and so does any operation that is composed of them.
\<close>

locale store_invariant =
  fixes inv :: "db \<Rightarrow> bool"
  assumes inv_stores: "inv d \<Longrightarrow> db_stores d' = db_stores d \<Longrightarrow> inv d'"
    and inv_put: "inv d \<Longrightarrow> store_Put n r d = (x, d') \<Longrightarrow> inv d'"
    and inv_add: "inv d \<Longrightarrow> store_Add n r d = (x, d') \<Longrightarrow> inv d'"
    and inv_delete: "inv d \<Longrightarrow> store_Delete n k d = (x, d') \<Longrightarrow> inv d'"
begin

lemma inv_read:
  "inv d \<Longrightarrow> store_Get n k d = (x, d') \<Longrightarrow> inv d'"
  "inv d \<Longrightarrow> store_GetAll n q c d = (y, d') \<Longrightarrow> inv d'"
  "inv d \<Longrightarrow> index_GetAll n kp q d = (y, d') \<Longrightarrow> inv d'"
  by (rule inv_stores, assumption, erule store_read_stores)+

lemma inv_with_tx:
  assumes "inv d" and "with_tx m body d = (x, d')"
    and "\<And>d1 t d2. inv d1 \<Longrightarrow> body d1 = (t, d2) \<Longrightarrow> inv d2"
  shows "inv d'"
proof (cases x)
  case (Inl e)
  show ?thesis by (rule inv_stores [OF assms(1) with_tx_Inl [OF assms(2) [unfolded Inl]]])
next
  case (Inr a)
  from assms(2) [unfolded Inr] show ?thesis
  proof (cases rule: with_tx_Inr)
    case (commit d1 d2 msg)
    show ?thesis by (rule inv_stores [OF assms(3) [OF inv_stores [OF assms(1) commit(1)] commit(3)] commit(4)])
  next
    case (return d1 d2)
    show ?thesis by (rule inv_stores [OF assms(1) return(4)])
  qed
qed

lemmas inv_rules = inv_put inv_add inv_delete inv_read

end

interpretation unique_inv: store_invariant uniques_ok
  by unfold_locales (simp add: uniques_ok_def, (erule (1) uniques_ok_write)+)

subsection \<open>The key order as a whole\<close>

text \<open>
  The key order is a total preorder: comparing a key with itself gives zero, swapping the
  arguments negates the result, the order is transitive, and two texts compare as equal exactly
  when their UTF-16 codings are the same. Sorting a store or an index by it is therefore
  well defined.
\<close>

theorem key_order_total:
  "CompareKeys a a = 0 \<and> CompareKeys b a = - CompareKeys a b \<and>
    (CompareKeys a b \<le> 0 \<and> CompareKeys b c \<le> 0 \<longrightarrow> CompareKeys a c \<le> 0) \<and>
    (CompareKeys (KString s) (KString t) = 0 \<longleftrightarrow> utf16 s = utf16 t)"
  by (intro conjI impI CompareKeys_refl CompareKeys_swap compare_strings_eq) (blast intro: CompareKeys_trans)

theorem key_order_total_witness:
  "CompareKeys (KNumber 1) (KDate 0) \<le> 0 \<and> CompareKeys (KDate 0) (KArray []) \<le> 0 \<and>
    CompareKeys (KNumber 1) (KArray []) \<le> 0"
  using key_order_total [of "KNumber 1" "KDate 0" "KArray []" "''''" "''''"] by simp

end
