(* ===== verification/Json_Values.thy ===== *)
theory Json_Values
  imports Indexed_Store
begin

text \<open>
  What \<^verbatim>\<open>encoding/json\<close> does to a value that a service marshals and unmarshals into a generic
  object before storing it, and what unmarshalling that object into a struct reads back: numbers
  become \<^verbatim>\<open>float64\<close>, text is made valid UTF-8, instants are RFC 3339 text.
\<close>

subsection \<open>Numbers\<close>

text \<open>The \<^verbatim>\<open>float64\<close> nearest to an integer: 53 significant bits, ties to even.\<close>

function excess_bits :: "int \<Rightarrow> nat" where
  "excess_bits m = (if m < 2 ^ 53 then 0 else Suc (excess_bits (m div 2)))"
  by pat_completeness auto
termination
  by (relation "measure nat") auto

declare excess_bits.simps [simp del]

definition round_even :: "int \<Rightarrow> nat \<Rightarrow> int" where
  "round_even m e =
     (let q = m div 2 ^ e; r = 2 * (m mod 2 ^ e)
      in (if 2 ^ e < r \<or> r = 2 ^ e \<and> odd q then q + 1 else q) * 2 ^ e)"

definition float64_of_int :: "int \<Rightarrow> int" where
  "float64_of_int n = sgn n * round_even \<bar>n\<bar> (excess_bits \<bar>n\<bar>)"

lemma float64_of_int_exact [simp]: "\<bar>n\<bar> < 2 ^ 53 \<Longrightarrow> float64_of_int n = n"
  by (simp add: float64_of_int_def round_even_def excess_bits.simps [of "\<bar>n\<bar>"] Let_def sgn_mult_abs)

definition int64 :: "int \<Rightarrow> bool" where
  "int64 n \<longleftrightarrow> - (2 ^ 63) \<le> n \<and> n < 2 ^ 63"

subsection \<open>Text\<close>

definition byte :: "nat \<Rightarrow> char" where "byte n = char_of n"

definition encode_rune :: "nat \<Rightarrow> string" where
  "encode_rune r =
     (if r < 0x80 then [byte r]
      else if r < 0x800 then [byte (0xC0 + r div 64), byte (0x80 + r mod 64)]
      else if r < 0x10000
      then [byte (0xE0 + r div 4096), byte (0x80 + r div 64 mod 64), byte (0x80 + r mod 64)]
      else [byte (0xF0 + r div 262144), byte (0x80 + r div 4096 mod 64),
        byte (0x80 + r div 64 mod 64), byte (0x80 + r mod 64)])"

text \<open>Text after a round trip through JSON: an invalid byte has become U+FFFD.\<close>

definition json_text :: "string \<Rightarrow> string" where
  "json_text s = concat (map encode_rune (decode_runes (map of_char s)))"

lemma json_text_ascii [simp]: "ascii s \<Longrightarrow> json_text s = s"
  by (induction s) (auto simp: json_text_def ascii_def encode_rune_def byte_def)

subsection \<open>Reading the members of an object into a struct\<close>

text \<open>
  A missing or null member leaves the field zero. A member of another JSON type, or a number
  outside \<^verbatim>\<open>int64\<close>, is an error.
\<close>

definition json_int :: "(string \<times> val) list \<Rightarrow> string \<Rightarrow> int option" where
  "json_int m k =
     (case map_of m k of
        None \<Rightarrow> Some 0
      | Some VNil \<Rightarrow> Some 0
      | Some (VFloat n) \<Rightarrow> if int64 n then Some n else None
      | Some (VInt n) \<Rightarrow> Some n
      | Some _ \<Rightarrow> None)"

definition json_string :: "(string \<times> val) list \<Rightarrow> string \<Rightarrow> string option" where
  "json_string m k =
     (case map_of m k of
        None \<Rightarrow> Some ''''
      | Some VNil \<Rightarrow> Some ''''
      | Some (VString s) \<Rightarrow> Some (json_text s)
      | Some _ \<Rightarrow> None)"

definition json_time :: "(string \<times> val) list \<Rightarrow> string \<Rightarrow> time option" where
  "json_time m k =
     (case map_of m k of
        None \<Rightarrow> Some 0
      | Some VNil \<Rightarrow> Some 0
      | Some (VString s) \<Rightarrow> parse_RFC3339 s
      | Some (VTime t) \<Rightarrow> if four_digit_year t then Some t else None
      | Some _ \<Rightarrow> None)"

end
