(* ===== verification/Coredata_Schema.thy ===== *)
theory Coredata_Schema
  imports Indexed_Store
begin

text \<open>
  The object stores of the core-data layer: their names, indexes and columns, from
  \<^verbatim>\<open>internal/coredata/schemas.go\<close>, in the order of that file. \<open>conforms\<close> says that a record
  fits the columns of a schema, \<open>schema_ok\<close> that a database was opened with the indexes
  declared here.
\<close>

datatype column_type = TypeString | TypeInt | TypeBool | TypeTime | TypeBytes | TypeJSON

record ColumnDef =
  col_Name :: string
  col_Type :: column_type
  col_PrimaryKey :: bool
  col_NotNull :: bool
  col_Unique :: bool

record ObjectStoreOptions =
  opt_Indexes :: "index_schema list"
  opt_Columns :: "ColumnDef list"

definition index :: "string \<Rightarrow> string list \<Rightarrow> bool \<Rightarrow> index_schema" where
  "index n kp u = \<lparr>ix_name = n, ix_key_path = kp, ix_unique = u\<rparr>"

definition key_column :: "string \<Rightarrow> ColumnDef" where
  "key_column n = \<lparr>col_Name = n, col_Type = TypeString, col_PrimaryKey = True, col_NotNull = False,
     col_Unique = False\<rparr>"

definition column :: "string \<Rightarrow> column_type \<Rightarrow> bool \<Rightarrow> bool \<Rightarrow> ColumnDef" where
  "column n t notNull unique =
     \<lparr>col_Name = n, col_Type = t, col_PrimaryKey = False, col_NotNull = notNull, col_Unique = unique\<rparr>"

subsection \<open>Store names\<close>

definition StoreUsers :: string where "StoreUsers = ''users''"
definition StoreGroups :: string where "StoreGroups = ''groups''"
definition StoreManagedSubjects :: string where "StoreManagedSubjects = ''managed_subjects''"
definition StoreAuthorizationDynamicFragments :: string where "StoreAuthorizationDynamicFragments = ''authz_dynamic_fragments''"
definition StoreAppSHAs :: string where "StoreAppSHAs = ''app_shas''"
definition StoreAppVersionChangeRequests :: string where "StoreAppVersionChangeRequests = ''app_version_change_requests''"
definition StoreAppVersionInstallLocks :: string where "StoreAppVersionInstallLocks = ''app_version_install_locks''"
definition StoreGestaltdSourceVersionState :: string where "StoreGestaltdSourceVersionState = ''gestaltd_source_version_state''"
definition StoreAppRollouts :: string where "StoreAppRollouts = ''app_rollouts''"
definition StoreAppInstanceMaterializations :: string where "StoreAppInstanceMaterializations = ''app_instance_materializations''"
definition StoreAppAutoDeploySettings :: string where "StoreAppAutoDeploySettings = ''app_auto_deploy_settings''"
definition StoreAppVersionRolloutOutcomes :: string where "StoreAppVersionRolloutOutcomes = ''app_version_rollout_outcomes''"
definition StoreGestaltdInstanceHeartbeats :: string where "StoreGestaltdInstanceHeartbeats = ''gestaltd_instance_heartbeats''"
definition StoreAppVersionRecoveryObservations :: string where "StoreAppVersionRecoveryObservations = ''app_version_recovery_observations''"
definition StoreRemoteRegistrations :: string where "StoreRemoteRegistrations = ''remote_registrations''"
definition StoreRemoteProviders :: string where "StoreRemoteProviders = ''remote_providers''"
definition StoreConnectionInstancePreferences :: string where "StoreConnectionInstancePreferences = ''connection_instance_preferences''"
definition StoreAppAccessProfiles :: string where "StoreAppAccessProfiles = ''app_access_profiles''"
definition StoreAppAllowedOperations :: string where "StoreAppAllowedOperations = ''app_allowed_operations''"
definition StoreSCIMResources :: string where "StoreSCIMResources = ''scim_resources''"
definition StoreSCIMConfig :: string where "StoreSCIMConfig = ''scim_config''"
definition StoreSCIMSecrets :: string where "StoreSCIMSecrets = ''scim_secrets''"
definition StoreManagedSecrets :: string where "StoreManagedSecrets = ''managed_secrets''"
definition StoreManagedSecretVersions :: string where "StoreManagedSecretVersions = ''managed_secret_versions''"
definition StoreManagedSecretAuditLogs :: string where "StoreManagedSecretAuditLogs = ''managed_secret_audit_logs''"

lemmas store_names = StoreUsers_def StoreGroups_def StoreManagedSubjects_def
  StoreAuthorizationDynamicFragments_def StoreAppSHAs_def StoreAppVersionChangeRequests_def
  StoreAppVersionInstallLocks_def StoreGestaltdSourceVersionState_def StoreAppRollouts_def
  StoreAppInstanceMaterializations_def StoreAppAutoDeploySettings_def StoreAppVersionRolloutOutcomes_def
  StoreGestaltdInstanceHeartbeats_def StoreAppVersionRecoveryObservations_def StoreRemoteRegistrations_def
  StoreRemoteProviders_def StoreConnectionInstancePreferences_def StoreAppAccessProfiles_def
  StoreAppAllowedOperations_def StoreSCIMResources_def StoreSCIMConfig_def
  StoreSCIMSecrets_def StoreManagedSecrets_def StoreManagedSecretVersions_def
  StoreManagedSecretAuditLogs_def

subsection \<open>Schemas\<close>

definition SCIMResourcesSchema :: ObjectStoreOptions where
  "SCIMResourcesSchema =
     \<lparr>opt_Indexes =
      [index ''by_client_type'' [''client_id'', ''resource_type''] False,
       index ''by_client_user_name'' [''client_id'', ''resource_type'', ''user_name''] True,
       index ''by_client_core_user'' [''client_id'', ''resource_type'', ''core_user_id''] True],
     opt_Columns =
      [key_column ''id'',
       column ''client_id'' TypeString True False,
       column ''resource_type'' TypeString True False,
       column ''external_id'' TypeString False False,
       column ''core_user_id'' TypeString False False,
       column ''user_name'' TypeString False False,
       column ''profile'' TypeJSON False False,
       column ''display_name'' TypeString False False,
       column ''created_at'' TypeTime True False,
       column ''updated_at'' TypeTime True False]\<rparr>"

definition SCIMConfigSchema :: ObjectStoreOptions where
  "SCIMConfigSchema =
     \<lparr>opt_Indexes =
      [index ''by_client_id'' [''client_id''] True],
     opt_Columns =
      [key_column ''id'',
       column ''client_id'' TypeString True False,
       column ''authoritativeUserDomains'' TypeJSON True False,
       column ''activeUserRelationships'' TypeJSON True False,
       column ''enabled'' TypeBool True False,
       column ''retained'' TypeBool True False,
       column ''created_at'' TypeTime True False,
       column ''updated_at'' TypeTime True False,
       column ''updated_by'' TypeString False False,
       column ''revision'' TypeInt True False]\<rparr>"

definition SCIMSecretsSchema :: ObjectStoreOptions where
  "SCIMSecretsSchema =
     \<lparr>opt_Indexes =
      [index ''by_client'' [''client_id''] False,
       index ''by_client_credential'' [''client_id'', ''credential_id''] True],
     opt_Columns =
      [key_column ''id'',
       column ''client_id'' TypeString True False,
       column ''credential_id'' TypeString True False,
       column ''ciphertext'' TypeBytes True False,
       column ''revision'' TypeInt True False,
       column ''created_at'' TypeTime False False,
       column ''updated_at'' TypeTime True False,
       column ''updated_by'' TypeString False False]\<rparr>"

definition AppSHAsSchema :: ObjectStoreOptions where
  "AppSHAsSchema =
     \<lparr>opt_Indexes =
      [],
     opt_Columns =
      [key_column ''id'',
       column ''sha'' TypeString True False]\<rparr>"

definition UsersSchema :: ObjectStoreOptions where
  "UsersSchema =
     \<lparr>opt_Indexes =
      [index ''by_email'' [''email''] True,
       index ''by_normalized_email'' [''normalized_email''] False],
     opt_Columns =
      [key_column ''id'',
       column ''email'' TypeString True True,
       column ''normalized_email'' TypeString False False,
       column ''display_name'' TypeString False False,
       column ''created_at'' TypeTime False False,
       column ''updated_at'' TypeTime False False]\<rparr>"

definition GroupsSchema :: ObjectStoreOptions where
  "GroupsSchema =
     \<lparr>opt_Indexes =
      [],
     opt_Columns =
      [key_column ''id'',
       column ''display_name'' TypeString True False,
       column ''created_at'' TypeTime True False,
       column ''updated_at'' TypeTime True False]\<rparr>"

definition ManagedSubjectsSchema :: ObjectStoreOptions where
  "ManagedSubjectsSchema =
     \<lparr>opt_Indexes =
      [index ''by_kind'' [''kind''] False,
       index ''by_kind_deleted'' [''kind'', ''deleted''] False,
       index ''by_created_by'' [''created_by_subject_id''] False],
     opt_Columns =
      [key_column ''id'',
       column ''subject_id'' TypeString True True,
       column ''kind'' TypeString True False,
       column ''display_name'' TypeString False False,
       column ''description'' TypeString False False,
       column ''created_by_subject_id'' TypeString False False,
       column ''deleted'' TypeBool False False,
       column ''created_at'' TypeTime False False,
       column ''updated_at'' TypeTime False False,
       column ''deleted_at'' TypeTime False False]\<rparr>"

definition AppVersionChangeRequestsSchema :: ObjectStoreOptions where
  "AppVersionChangeRequestsSchema =
     \<lparr>opt_Indexes =
      [index ''by_app'' [''app''] False,
       index ''by_app_timestamp'' [''app'', ''timestamp''] False,
       index ''by_app_to_version'' [''app'', ''to_version''] False],
     opt_Columns =
      [key_column ''id'',
       column ''app'' TypeString True False,
       column ''from_version'' TypeString True False,
       column ''to_version'' TypeString True False,
       column ''actor'' TypeString False False,
       column ''timestamp'' TypeTime True False,
       column ''from_version_deployable_until'' TypeTime False False,
       column ''metadata_json'' TypeJSON False False]\<rparr>"

definition AppVersionInstallLocksSchema :: ObjectStoreOptions where
  "AppVersionInstallLocksSchema =
     \<lparr>opt_Indexes =
      [index ''by_app_version'' [''app'', ''version''] True,
       index ''by_expires_at'' [''expires_at''] False],
     opt_Columns =
      [key_column ''id'',
       column ''app'' TypeString True False,
       column ''version'' TypeString True False,
       column ''holder'' TypeString True False,
       column ''acquired_at'' TypeTime True False,
       column ''expires_at'' TypeTime True False]\<rparr>"

definition GestaltdSourceVersionStateSchema :: ObjectStoreOptions where
  "GestaltdSourceVersionStateSchema =
     \<lparr>opt_Indexes =
      [],
     opt_Columns =
      [key_column ''id'',
       column ''current_source_version'' TypeString False False,
       column ''updated_at'' TypeTime True False]\<rparr>"

definition AppRolloutsSchema :: ObjectStoreOptions where
  "AppRolloutsSchema =
     \<lparr>opt_Indexes =
      [index ''by_state'' [''state''] False],
     opt_Columns =
      [key_column ''id'',
       column ''app'' TypeString True True,
       column ''version'' TypeString True False,
       column ''state'' TypeString True False,
       column ''target_source_version'' TypeString False False,
       column ''created_at'' TypeTime True False,
       column ''enrollment_ends_at'' TypeTime True False,
       column ''deadline'' TypeTime True False,
       column ''completed_at'' TypeTime False False,
       column ''failed_at'' TypeTime False False]\<rparr>"

definition AppInstanceMaterializationsSchema :: ObjectStoreOptions where
  "AppInstanceMaterializationsSchema =
     \<lparr>opt_Indexes =
      [index ''by_instance'' [''instance_id''] False,
       index ''by_instance_app_version'' [''instance_id'', ''app'', ''version''] True,
       index ''by_app_version'' [''app'', ''version''] False],
     opt_Columns =
      [key_column ''id'',
       column ''instance_id'' TypeString True False,
       column ''source_version'' TypeString False False,
       column ''app'' TypeString True False,
       column ''version'' TypeString True False,
       column ''acknowledged_at'' TypeTime True False,
       column ''materialized_at'' TypeTime False False,
       column ''stopped_at'' TypeTime False False,
       column ''restarted_at'' TypeTime False False,
       column ''attempt_count'' TypeInt False False,
       column ''last_error_at'' TypeTime False False,
       column ''last_error_message'' TypeString False False]\<rparr>"

definition AppAutoDeploySettingsSchema :: ObjectStoreOptions where
  "AppAutoDeploySettingsSchema =
     \<lparr>opt_Indexes =
      [index ''by_enabled'' [''enabled''] False],
     opt_Columns =
      [key_column ''id'',
       column ''app'' TypeString True True,
       column ''enabled'' TypeBool True False,
       column ''pending_version'' TypeString False False,
       column ''last_seen_version'' TypeString False False,
       column ''last_error'' TypeString False False,
       column ''last_failed_rollout_at'' TypeTime False False]\<rparr>"

definition AppVersionRolloutOutcomesSchema :: ObjectStoreOptions where
  "AppVersionRolloutOutcomesSchema =
     \<lparr>opt_Indexes =
      [],
     opt_Columns =
      [key_column ''id'',
       column ''app'' TypeString True False,
       column ''version'' TypeString True False,
       column ''completed_at'' TypeTime False False,
       column ''failed_at'' TypeTime False False]\<rparr>"

definition GestaltdInstanceHeartbeatsSchema :: ObjectStoreOptions where
  "GestaltdInstanceHeartbeatsSchema =
     \<lparr>opt_Indexes =
      [index ''by_instance'' [''instance_id''] True,
       index ''by_source_version'' [''source_version''] False,
       index ''by_heartbeat_at'' [''heartbeat_at''] False,
       index ''by_source_version_heartbeat_at'' [''source_version'', ''heartbeat_at''] False],
     opt_Columns =
      [key_column ''id'',
       column ''instance_id'' TypeString True True,
       column ''source_version'' TypeString True False,
       column ''started_at'' TypeTime True False,
       column ''heartbeat_at'' TypeTime True False,
       column ''apps'' TypeJSON True False]\<rparr>"

definition AppVersionRecoveryObservationsSchema :: ObjectStoreOptions where
  "AppVersionRecoveryObservationsSchema =
     \<lparr>opt_Indexes =
      [index ''by_app'' [''app''] False,
       index ''by_app_version'' [''app'', ''version''] False],
     opt_Columns =
      [key_column ''id'',
       column ''app'' TypeString True False,
       column ''version'' TypeString True False,
       column ''recovered_at'' TypeTime True False,
       column ''source_version'' TypeString True False,
       column ''live_instances'' TypeInt True False,
       column ''minimum_healthy_instances'' TypeInt True False]\<rparr>"

definition RemoteRegistrationsSchema :: ObjectStoreOptions where
  "RemoteRegistrationsSchema =
     \<lparr>opt_Indexes =
      [index ''by_owner_subject'' [''owner_subject_id''] True],
     opt_Columns =
      []\<rparr>"

definition RemoteProvidersSchema :: ObjectStoreOptions where
  "RemoteProvidersSchema =
     \<lparr>opt_Indexes =
      [index ''by_registration'' [''registration_id''] False],
     opt_Columns =
      []\<rparr>"

definition ConnectionInstancePreferencesSchema :: ObjectStoreOptions where
  "ConnectionInstancePreferencesSchema =
     \<lparr>opt_Indexes =
      [index ''by_subject_connection'' [''subject_id'', ''connection_id''] True],
     opt_Columns =
      [key_column ''id'',
       column ''subject_id'' TypeString True False,
       column ''connection_id'' TypeString True False,
       column ''instance'' TypeString True False,
       column ''updated_at'' TypeTime True False]\<rparr>"

definition AppAllowedOperationsSchema :: ObjectStoreOptions where
  "AppAllowedOperationsSchema =
     \<lparr>opt_Indexes =
      [],
     opt_Columns =
      [key_column ''id'',
       column ''app'' TypeString True False,
       column ''operations_json'' TypeString False False,
       column ''removed_json'' TypeString False False,
       column ''updated_at'' TypeTime True False]\<rparr>"

definition AppAccessProfilesSchema :: ObjectStoreOptions where
  "AppAccessProfilesSchema =
     \<lparr>opt_Indexes =
      [index ''by_subject'' [''subject_id''] False,
       index ''by_app'' [''app''] False,
       index ''by_subject_app'' [''subject_id'', ''app''] True],
     opt_Columns =
      [key_column ''id'',
       column ''subject_id'' TypeString True False,
       column ''app'' TypeString True False,
       column ''enabled_operations'' TypeString False False,
       column ''defaults_initialized'' TypeBool True False,
       column ''updated_at'' TypeTime True False]\<rparr>"

definition AuthorizationDynamicFragmentsSchema :: ObjectStoreOptions where
  "AuthorizationDynamicFragmentsSchema =
     \<lparr>opt_Indexes =
      [index ''by_owner'' [''owner_kind'', ''owner_id''] True,
       index ''by_scope'' [''scope''] False,
       index ''by_app'' [''app''] False,
       index ''by_status'' [''status''] False],
     opt_Columns =
      [key_column ''id'',
       column ''owner_kind'' TypeString True False,
       column ''owner_id'' TypeString True False,
       column ''scope'' TypeString True False,
       column ''app'' TypeString False False,
       column ''version'' TypeInt False False,
       column ''status'' TypeString False False,
       column ''resource_types_json'' TypeString False False,
       column ''relationships_json'' TypeString False False,
       column ''audit_json'' TypeString False False,
       column ''created_at'' TypeTime False False,
       column ''updated_at'' TypeTime False False]\<rparr>"

definition ManagedSecretsSchema :: ObjectStoreOptions where
  "ManagedSecretsSchema =
     \<lparr>opt_Indexes =
      [index ''by_owner_app'' [''owner_app''] False],
     opt_Columns =
      [key_column ''id'',
       column ''name'' TypeString True True,
       column ''owner_app'' TypeString True False,
       column ''scope'' TypeString True False,
       column ''description'' TypeString False False,
       column ''current_ver'' TypeInt True False,
       column ''created_at'' TypeTime True False,
       column ''updated_at'' TypeTime True False,
       column ''created_by'' TypeString True False,
       column ''updated_by'' TypeString True False,
       column ''retired_at'' TypeTime False False,
       column ''retired_reason'' TypeString False False]\<rparr>"

definition ManagedSecretVersionsSchema :: ObjectStoreOptions where
  "ManagedSecretVersionsSchema =
     \<lparr>opt_Indexes =
      [index ''by_name_version'' [''name'', ''version''] True],
     opt_Columns =
      [key_column ''id'',
       column ''name'' TypeString True False,
       column ''version'' TypeInt True False,
       column ''state'' TypeString True False,
       column ''ciphertext'' TypeBytes True False,
       column ''created_at'' TypeTime True False,
       column ''created_by'' TypeString True False,
       column ''reason'' TypeString True False,
       column ''description'' TypeString False False,
       column ''kms_key'' TypeString True False,
       column ''kms_key_version'' TypeString False False,
       column ''ciphertext_sha256'' TypeString True False]\<rparr>"

definition ManagedSecretAuditLogsSchema :: ObjectStoreOptions where
  "ManagedSecretAuditLogsSchema =
     \<lparr>opt_Indexes =
      [index ''by_name_created'' [''name'', ''created_at''] False,
       index ''by_name_action'' [''name'', ''action''] False,
       index ''by_name_request'' [''name'', ''request_id''] True],
     opt_Columns =
      [key_column ''id'',
       column ''name'' TypeString True False,
       column ''action'' TypeString True False,
       column ''version'' TypeInt True False,
       column ''owner_app'' TypeString False False,
       column ''actor'' TypeString True False,
       column ''reason'' TypeString True False,
       column ''source'' TypeString False False,
       column ''request_id'' TypeString False False,
       column ''kms_key'' TypeString False False,
       column ''cipher_hash'' TypeString False False,
       column ''created_at'' TypeTime True False,
       column ''result'' TypeString True False]\<rparr>"

subsection \<open>Opening the database\<close>

text \<open>
  \<^verbatim>\<open>CreateObjectStore\<close> sets the schema of a store and keeps the rows of one that exists.
  \<open>create_stores\<close> is a sequence of such calls that stops at the first error, which is
  wrapped with the text of its call.
\<close>

definition CreateObjectStore :: "string \<Rightarrow> ObjectStoreOptions \<Rightarrow> db \<Rightarrow> unit result \<times> db" where
  "CreateObjectStore n schema = db_op (\<lambda>d. (Inr (),
     d\<lparr>db_stores := (db_stores d)(n := (db_stores d n)\<lparr>os_indexes := opt_Indexes schema\<rparr>)\<rparr>))"

fun create_stores ::
  "string \<Rightarrow> (string \<times> ObjectStoreOptions) list \<Rightarrow> db \<Rightarrow> unit result \<times> db" where
  "create_stores verb [] d = (Inr (), d)"
| "create_stores verb ((n, schema) # rest) d =
     (case CreateObjectStore n schema d of
        (Inl e, d) \<Rightarrow> (Inl (Wrapf (verb @ '' '' @ n @ '' store'') e), d)
      | (Inr _, d) \<Rightarrow> create_stores verb rest d)"

definition bootstrap_stores :: "(string \<times> ObjectStoreOptions) list" where
  "bootstrap_stores =
     [(StoreUsers, UsersSchema),
      (StoreManagedSubjects, ManagedSubjectsSchema),
      (StoreAppSHAs, AppSHAsSchema),
      (StoreAppVersionChangeRequests, AppVersionChangeRequestsSchema),
      (StoreAppVersionInstallLocks, AppVersionInstallLocksSchema),
      (StoreGestaltdSourceVersionState, GestaltdSourceVersionStateSchema),
      (StoreAppRollouts, AppRolloutsSchema),
      (StoreAppInstanceMaterializations, AppInstanceMaterializationsSchema),
      (StoreAppAutoDeploySettings, AppAutoDeploySettingsSchema),
      (StoreAppVersionRolloutOutcomes, AppVersionRolloutOutcomesSchema),
      (StoreGestaltdInstanceHeartbeats, GestaltdInstanceHeartbeatsSchema),
      (StoreAppVersionRecoveryObservations, AppVersionRecoveryObservationsSchema),
      (StoreRemoteRegistrations, RemoteRegistrationsSchema),
      (StoreRemoteProviders, RemoteProvidersSchema),
      (StoreConnectionInstancePreferences, ConnectionInstancePreferencesSchema),
      (StoreAppAccessProfiles, AppAccessProfilesSchema),
      (StoreAppAllowedOperations, AppAllowedOperationsSchema),
      (StoreSCIMResources, SCIMResourcesSchema),
      (StoreSCIMConfig, SCIMConfigSchema),
      (StoreSCIMSecrets, SCIMSecretsSchema),
      (StoreManagedSecrets, ManagedSecretsSchema),
      (StoreManagedSecretVersions, ManagedSecretVersionsSchema),
      (StoreManagedSecretAuditLogs, ManagedSecretAuditLogsSchema)]"

definition ensureDeferredAppRegistryStores :: "db \<Rightarrow> unit result \<times> db" where
  "ensureDeferredAppRegistryStores = create_stores ''ensure''
     [(StoreAppAutoDeploySettings, AppAutoDeploySettingsSchema),
      (StoreAppVersionRolloutOutcomes, AppVersionRolloutOutcomesSchema),
      (StoreGestaltdInstanceHeartbeats, GestaltdInstanceHeartbeatsSchema),
      (StoreAppVersionRecoveryObservations, AppVersionRecoveryObservationsSchema),
      (StoreAppAccessProfiles, AppAccessProfilesSchema),
      (StoreAppAllowedOperations, AppAllowedOperationsSchema)]"

definition ensureSCIMStores :: "db \<Rightarrow> unit result \<times> db" where
  "ensureSCIMStores = create_stores ''ensure''
     [(StoreSCIMResources, SCIMResourcesSchema), (StoreSCIMConfig, SCIMConfigSchema),
      (StoreSCIMSecrets, SCIMSecretsSchema)]"

definition ensureManagedSecretStores :: "db \<Rightarrow> unit result \<times> db" where
  "ensureManagedSecretStores = create_stores ''ensure''
     [(StoreManagedSecrets, ManagedSecretsSchema),
      (StoreManagedSecretVersions, ManagedSecretVersionsSchema),
      (StoreManagedSecretAuditLogs, ManagedSecretAuditLogsSchema)]"

definition ensureGroupsStore :: "db \<Rightarrow> unit result \<times> db" where
  "ensureGroupsStore = create_stores ''ensure'' [(StoreGroups, GroupsSchema)]"

text \<open>Sequencing of fallible steps.\<close>

definition db_seq :: "(db \<Rightarrow> unit result \<times> db) \<Rightarrow> (db \<Rightarrow> unit result \<times> db) \<Rightarrow> db \<Rightarrow> unit result \<times> db" where
  "db_seq f g d = (case f d of (Inl e, d) \<Rightarrow> (Inl e, d) | (Inr _, d) \<Rightarrow> g d)"

text \<open>
  The schema part of \<^verbatim>\<open>NewWithOptions\<close>; the services it then allocates hold nothing but the
  database handle.
\<close>

definition NewWithOptions :: "bool \<Rightarrow> db \<Rightarrow> unit result \<times> db" where
  "NewWithOptions SkipSchemaBootstrap =
     db_seq
       (if \<not> SkipSchemaBootstrap then create_stores ''create'' bootstrap_stores
        else db_seq ensureDeferredAppRegistryStores
          (db_seq ensureSCIMStores ensureManagedSecretStores))
       ensureGroupsStore"

subsection \<open>Conformance\<close>

text \<open>Every store the layer opens, with its schema.\<close>

definition declared_stores :: "(string \<times> ObjectStoreOptions) list" where
  "declared_stores = bootstrap_stores @ [(StoreGroups, GroupsSchema)]"

text \<open>The indexes a store was declared with; a store of no schema has none.\<close>

definition declared_indexes :: "string \<Rightarrow> index_schema list" where
  "declared_indexes n =
     (case map_of declared_stores n of
        None \<Rightarrow> [] | Some schema \<Rightarrow> opt_Indexes schema)"

definition schema_ok :: "db \<Rightarrow> bool" where
  "schema_ok d \<longleftrightarrow> (\<forall>n \<in> fst ` set declared_stores.
     os_indexes (db_stores d n) = declared_indexes n)"

fun has_type :: "column_type \<Rightarrow> val \<Rightarrow> bool" where
  "has_type TypeString v = (case v of VString _ \<Rightarrow> True | _ \<Rightarrow> False)"
| "has_type TypeInt v = (case v of VInt _ \<Rightarrow> True | _ \<Rightarrow> False)"
| "has_type TypeBool v = (case v of VBool _ \<Rightarrow> True | _ \<Rightarrow> False)"
| "has_type TypeTime v = (case v of VTime _ \<Rightarrow> True | _ \<Rightarrow> False)"
| "has_type TypeBytes v = (case v of VBytes _ \<Rightarrow> True | _ \<Rightarrow> False)"
| "has_type TypeJSON v = (case v of VMap _ \<Rightarrow> True | VList _ \<Rightarrow> True | _ \<Rightarrow> False)"

definition conforms :: "ObjectStoreOptions \<Rightarrow> rec \<Rightarrow> bool" where
  "conforms schema r \<longleftrightarrow> list_all (\<lambda>c.
     (case r (col_Name c) of
        None \<Rightarrow> \<not> col_NotNull c \<and> \<not> col_PrimaryKey c
      | Some VNil \<Rightarrow> \<not> col_NotNull c \<and> \<not> col_PrimaryKey c
      | Some v \<Rightarrow> has_type (col_Type c) v)) (opt_Columns schema)"

lemmas schema_simps = conforms_def column_def key_column_def

subsection \<open>What opening establishes\<close>

lemma CreateObjectStore_run:
  assumes "CreateObjectStore n schema d = (x, d')"
  shows "db_rows d' = db_rows d"
    and "x = Inr u \<Longrightarrow> os_indexes (db_stores d' m) =
      (if m = n then opt_Indexes schema else os_indexes (db_stores d m))"
    and "db_fail d' = db_fail d"
  using assms
  by (auto simp: CreateObjectStore_def db_rows_def fun_eq_iff elim!: db_op_cases)

lemma create_stores_rows: "create_stores verb ss d = (x, d') \<Longrightarrow> db_rows d' = db_rows d"
  by (induction verb ss d rule: create_stores.induct)
    (auto split: prod.splits sum.splits dest!: CreateObjectStore_run(1))

lemma create_stores_indexes:
  assumes "create_stores verb ss d = (Inr u, d')" and "distinct (map fst ss)"
  shows "os_indexes (db_stores d' m) =
    (case map_of ss m of None \<Rightarrow> os_indexes (db_stores d m) | Some schema \<Rightarrow> opt_Indexes schema)"
  using assms
proof (induction verb ss d rule: create_stores.induct)
  case (2 verb n schema rest d)
  obtain x d1 where c: "CreateObjectStore n schema d = (x, d1)"
    by (cases "CreateObjectStore n schema d")
  with 2(2) have x: "x = Inr ()" and rest: "create_stores verb rest d1 = (Inr u, d')"
    by (auto split: sum.splits)
  have IH: "os_indexes (db_stores d' m) =
    (case map_of rest m of None \<Rightarrow> os_indexes (db_stores d1 m) | Some schema \<Rightarrow> opt_Indexes schema)"
    using 2(1) [OF c [symmetric, unfolded x] refl] rest 2(3) x c by auto
  moreover have "map_of rest n = None" using 2(3) by (auto simp: map_of_eq_None_iff)
  ultimately show ?case using CreateObjectStore_run(2) [OF c x] by (auto split: option.split)
qed simp

lemma create_stores_healthy:
  "db_healthy d \<Longrightarrow> \<exists>d'. create_stores verb ss d = (Inr (), d') \<and> db_healthy d'"
proof (induction verb ss d rule: create_stores.induct)
  case (2 verb n schema rest d)
  let ?d = "d\<lparr>db_tick := Suc (db_tick d)\<rparr>"
  have "CreateObjectStore n schema d = (Inr (), ?d\<lparr>db_stores := (db_stores ?d)(n :=
      (db_stores ?d n)\<lparr>os_indexes := opt_Indexes schema\<rparr>)\<rparr>)" (is "_ = (_, ?d')")
    using 2(2) by (simp add: CreateObjectStore_def healthy_db_op)
  moreover have "db_healthy ?d'" using 2(2) by (simp add: db_healthy_def)
  ultimately show ?case using 2(1) by simp
qed simp

lemma declared_names: "distinct (map fst declared_stores)"
  unfolding declared_stores_def bootstrap_stores_def store_names by simp

lemma db_seq_run:
  assumes "db_seq f g d = (Inr u, d'')"
  obtains v d' where "f d = (Inr v, d')" and "g d' = (Inr u, d'')"
  using assms by (auto simp: db_seq_def split: prod.splits sum.splits)

lemma NewWithOptions_schema:
  assumes "NewWithOptions False d = (Inr u, d')"
  shows "schema_ok d'"
proof -
  from assms obtain v d1 where b: "create_stores ''create'' bootstrap_stores d = (Inr v, d1)"
    and g: "ensureGroupsStore d1 = (Inr u, d')"
    by (auto simp: NewWithOptions_def elim: db_seq_run)
  have dist: "distinct (map fst bootstrap_stores)" "StoreGroups \<notin> fst ` set bootstrap_stores"
    using declared_names by (auto simp: declared_stores_def)
  have "os_indexes (db_stores d' m) = declared_indexes m"
    if "m \<in> fst ` set declared_stores" for m
  proof (cases "m = StoreGroups")
    case True
    then have "map_of bootstrap_stores m = None" using dist(2) by (simp add: map_of_eq_None_iff)
    with True show ?thesis
      using create_stores_indexes [OF g [unfolded ensureGroupsStore_def], of m]
      by (simp add: declared_indexes_def declared_stores_def map_add_def)
  next
    case False
    with that have "m \<in> fst ` set bootstrap_stores" by (auto simp: declared_stores_def)
    then obtain schema where "map_of bootstrap_stores m = Some schema"
      by (cases "map_of bootstrap_stores m") (auto simp: map_of_eq_None_iff)
    with False show ?thesis
      using create_stores_indexes [OF g [unfolded ensureGroupsStore_def], of m]
        create_stores_indexes [OF b dist(1), of m]
      by (simp add: declared_indexes_def declared_stores_def map_add_def)
  qed
  then show ?thesis by (simp add: schema_ok_def)
qed

lemma NewWithOptions_rows: "NewWithOptions skip d = (x, d') \<Longrightarrow> db_rows d' = db_rows d"
  by (auto simp: NewWithOptions_def db_seq_def ensureGroupsStore_def ensureManagedSecretStores_def
      ensureSCIMStores_def ensureDeferredAppRegistryStores_def
      simp del: create_stores.simps dest!: create_stores_rows split: prod.splits sum.splits if_splits)

lemma NewWithOptions_healthy:
  assumes "db_healthy d"
  shows "\<exists>d'. NewWithOptions skip d = (Inr (), d') \<and> db_healthy d'"
proof -
  have seq: "\<exists>d'. db_seq f g d = (Inr (), d') \<and> db_healthy d'"
    if "db_healthy d" "\<And>d. db_healthy d \<Longrightarrow> \<exists>d'. f d = (Inr (), d') \<and> db_healthy d'"
      "\<And>d. db_healthy d \<Longrightarrow> \<exists>d'. g d = (Inr (), d') \<and> db_healthy d'" for f g d
    using that(1) that(2) [of d] that(3) by (fastforce simp: db_seq_def)
  show ?thesis
    unfolding NewWithOptions_def ensureGroupsStore_def ensureManagedSecretStores_def
      ensureSCIMStores_def ensureDeferredAppRegistryStores_def
    by (cases skip) (simp_all, (intro seq create_stores_healthy assms; assumption)+)
qed

lemma no_unique_conflict:
  "list_all (\<lambda>ix. \<not> ix_unique ix) (os_indexes os) \<Longrightarrow> \<not> hasUniqueConflict os r ignore"
  by (auto simp: hasUniqueConflict_def list_ex_iff list_all_iff)

lemma schema_ok_tick [simp]: "schema_ok (d\<lparr>db_tick := t\<rparr>) = schema_ok d"
  by (simp add: schema_ok_def)

lemma schema_ok_set_rows [simp]: "schema_ok (set_rows n rows d) = schema_ok d"
  by (simp add: schema_ok_def)

lemma schema_ok_indexes:
  "schema_ok d \<Longrightarrow> (n, schema) \<in> set declared_stores \<Longrightarrow>
    os_indexes (db_stores d n) = opt_Indexes schema"
proof -
  assume ok: "schema_ok d" and m: "(n, schema) \<in> set declared_stores"
  then have "map_of declared_stores n = Some schema"
    by (rule_tac map_of_is_SomeI [OF declared_names])
  moreover have "os_indexes (db_stores d n) = declared_indexes n"
    using ok m unfolding schema_ok_def by force
  ultimately show ?thesis by (simp add: declared_indexes_def)
qed

lemma schema_member:
  "(StoreAppRollouts, AppRolloutsSchema) \<in> set declared_stores"
  "(StoreGestaltdSourceVersionState, GestaltdSourceVersionStateSchema) \<in> set declared_stores"
  "(StoreAppVersionInstallLocks, AppVersionInstallLocksSchema) \<in> set declared_stores"
  "(StoreAppVersionChangeRequests, AppVersionChangeRequestsSchema) \<in> set declared_stores"
  "(StoreAppInstanceMaterializations, AppInstanceMaterializationsSchema) \<in> set declared_stores"
  "(StoreAppAutoDeploySettings, AppAutoDeploySettingsSchema) \<in> set declared_stores"
  "(StoreAppVersionRolloutOutcomes, AppVersionRolloutOutcomesSchema) \<in> set declared_stores"
  "(StoreGestaltdInstanceHeartbeats, GestaltdInstanceHeartbeatsSchema) \<in> set declared_stores"
  "(StoreAppVersionRecoveryObservations, AppVersionRecoveryObservationsSchema) \<in> set declared_stores"
  by (simp_all add: declared_stores_def bootstrap_stores_def)

subsection \<open>A fresh database\<close>

text \<open>No rows, the declared indexes, a provider that never fails; used to exhibit instances.\<close>

definition empty_db :: db where
  "empty_db = \<lparr>db_stores = (\<lambda>n. \<lparr>os_rows = [], os_indexes = declared_indexes n\<rparr>), db_tick = 0,
     db_fail = (\<lambda>_. None)\<rparr>"

lemma empty_db_simps [simp]:
  "db_healthy empty_db" "schema_ok empty_db" "db_rows empty_db n = []"
  by (simp_all add: empty_db_def db_healthy_def schema_ok_def db_rows_def)

lemma empty_no_conflict: "\<not> hasUniqueConflict (db_stores empty_db n) r i"
  by (simp add: hasUniqueConflict_def empty_db_def list_ex_iff)

interpretation schema_inv: store_invariant schema_ok
  by unfold_locales
    (auto simp: schema_ok_def store_Put_def store_Add_def store_Delete_def elim!: db_op_cases split: if_splits)

end
