(* ===== verification/App_Rollouts.thy ===== *)
theory App_Rollouts
  imports Json_Values Coredata_Schema
begin

text \<open>
  Rollouts of an app version (\<^verbatim>\<open>internal/coredata/app_rollouts.go\<close>, types in
  \<^verbatim>\<open>core/types.go\<close>). A rollout row moves from enrolling or restarting to complete or failed.
  Every method of \<^verbatim>\<open>AppRolloutService\<close> is a function on the database; the first argument says
  whether the service pointer is configured, \<open>now\<close> is what \<^verbatim>\<open>time.Now\<close> answers.
\<close>

subsection \<open>Data\<close>

datatype AppRolloutState =
    AppRolloutStateEnrolling
  | AppRolloutStateRestarting
  | AppRolloutStateComplete
  | AppRolloutStateFailed
  | OtherState string

fun state_string :: "AppRolloutState \<Rightarrow> string" where
  "state_string AppRolloutStateEnrolling = ''enrolling''"
| "state_string AppRolloutStateRestarting = ''restarting''"
| "state_string AppRolloutStateComplete = ''complete''"
| "state_string AppRolloutStateFailed = ''failed''"
| "state_string (OtherState s) = s"

definition state_of_string :: "string \<Rightarrow> AppRolloutState" where
  "state_of_string s =
     (if s = ''enrolling'' then AppRolloutStateEnrolling
      else if s = ''restarting'' then AppRolloutStateRestarting
      else if s = ''complete'' then AppRolloutStateComplete
      else if s = ''failed'' then AppRolloutStateFailed
      else OtherState s)"

datatype AppRolloutMode =
    AppRolloutModeEnrollment
  | AppRolloutModeHeartbeat
  | OtherMode string

fun mode_string :: "AppRolloutMode \<Rightarrow> string" where
  "mode_string AppRolloutModeEnrollment = ''enrollment''"
| "mode_string AppRolloutModeHeartbeat = ''heartbeat''"
| "mode_string (OtherMode s) = s"

definition mode_of_string :: "string \<Rightarrow> AppRolloutMode" where
  "mode_of_string s =
     (if s = ''enrollment'' then AppRolloutModeEnrollment
      else if s = ''heartbeat'' then AppRolloutModeHeartbeat
      else OtherMode s)"

record AppRolloutFailureSummary =
  fs_LiveInstances :: int
  fs_MinimumHealthyInstances :: int
  fs_RunningDesiredVersion :: int
  fs_NotRunning :: int
  fs_Mismatched :: int
  fs_Errors :: int
  fs_SourceVersion :: string
  fs_Version :: string
  fs_EvaluatedAt :: time

record AppRollout =
  ro_App :: string
  ro_Version :: string
  ro_State :: AppRolloutState
  ro_Mode :: AppRolloutMode
  ro_TargetSourceVersion :: string
  ro_MinimumHealthyInstances :: int
  ro_CreatedAt :: time
  ro_EnrollmentEndsAt :: time
  ro_Deadline :: time
  ro_HealthySince :: time
  ro_HeartbeatEvaluatedAt :: time
  ro_CompletedAt :: time
  ro_FailedAt :: time
  ro_FailureSummary :: "AppRolloutFailureSummary option"

record HeartbeatRolloutEvaluation =
  ev_Healthy :: bool
  ev_StabilityWindow :: duration
  ev_EvaluatedAt :: time
  ev_FailureSummary :: AppRolloutFailureSummary

definition ErrAppRolloutActive :: error where
  "ErrAppRolloutActive = Sentinel ''app rollout is active''"
definition ErrAppRolloutEpochMismatch :: error where
  "ErrAppRolloutEpochMismatch = Sentinel ''app rollout epoch does not match''"
definition ErrAppRolloutVersionMismatch :: error where
  "ErrAppRolloutVersionMismatch = Sentinel ''app rollout version does not match''"

subsection \<open>Records\<close>

text \<open>
  The failure summary is stored as the generic JSON object of its struct: numbers come back as
  \<^verbatim>\<open>float64\<close>, the timestamp as RFC 3339 text. Marshalling fails for a year outside 0 to 9999,
  and then the summary is left out. Reading covers a stored object, the only form the service
  writes; a summary stored as JSON text or bytes is read as missing here.
\<close>

definition summary_object :: "AppRolloutFailureSummary \<Rightarrow> val option" where
  "summary_object s =
     (if \<not> four_digit_year (fs_EvaluatedAt s) then None
      else Some (VMap
        [(''live_instances'', VFloat (float64_of_int (fs_LiveInstances s))),
         (''minimum_healthy_instances'', VFloat (float64_of_int (fs_MinimumHealthyInstances s))),
         (''running_desired_version'', VFloat (float64_of_int (fs_RunningDesiredVersion s))),
         (''not_running'', VFloat (float64_of_int (fs_NotRunning s))),
         (''mismatched'', VFloat (float64_of_int (fs_Mismatched s))),
         (''errors'', VFloat (float64_of_int (fs_Errors s))),
         (''source_version'', VString (json_text (fs_SourceVersion s))),
         (''version'', VString (json_text (fs_Version s))),
         (''evaluated_at'', VString (format_RFC3339Nano (fs_EvaluatedAt s)))]))"

definition summary_of_object :: "val option \<Rightarrow> AppRolloutFailureSummary option" where
  "summary_of_object v =
     (case v of
        Some (VMap m) \<Rightarrow>
          Option.bind (json_int m ''live_instances'') (\<lambda>live.
          Option.bind (json_int m ''minimum_healthy_instances'') (\<lambda>minimum.
          Option.bind (json_int m ''running_desired_version'') (\<lambda>running.
          Option.bind (json_int m ''not_running'') (\<lambda>notRunning.
          Option.bind (json_int m ''mismatched'') (\<lambda>mismatched.
          Option.bind (json_int m ''errors'') (\<lambda>errs.
          Option.bind (json_string m ''source_version'') (\<lambda>source.
          Option.bind (json_string m ''version'') (\<lambda>version.
          Option.bind (json_time m ''evaluated_at'') (\<lambda>at.
            Some \<lparr>fs_LiveInstances = live, fs_MinimumHealthyInstances = minimum,
              fs_RunningDesiredVersion = running, fs_NotRunning = notRunning,
              fs_Mismatched = mismatched, fs_Errors = errs, fs_SourceVersion = source,
              fs_Version = version, fs_EvaluatedAt = at\<rparr>)))))))))
      | _ \<Rightarrow> None)"

definition opt_time :: "string \<Rightarrow> time \<Rightarrow> rec \<Rightarrow> rec" where
  "opt_time k t r = (if t = 0 then r else r(k \<mapsto> VTime t))"

definition appRolloutRecord :: "AppRollout \<Rightarrow> rec" where
  "appRolloutRecord r =
     (let base = [
        ''id'' \<mapsto> VString (ro_App r),
        ''app'' \<mapsto> VString (ro_App r),
        ''version'' \<mapsto> VString (ro_Version r),
        ''state'' \<mapsto> VString (state_string (ro_State r)),
        ''rollout_mode'' \<mapsto> VString (mode_string (ro_Mode r)),
        ''target_source_version'' \<mapsto> VString (ro_TargetSourceVersion r),
        ''minimum_healthy_instances'' \<mapsto> VInt (ro_MinimumHealthyInstances r),
        ''created_at'' \<mapsto> VTime (ro_CreatedAt r),
        ''enrollment_ends_at'' \<mapsto> VTime (ro_EnrollmentEndsAt r),
        ''deadline'' \<mapsto> VTime (ro_Deadline r)];
        timed = opt_time ''heartbeat_evaluated_at'' (ro_HeartbeatEvaluatedAt r)
          (opt_time ''healthy_since'' (ro_HealthySince r)
            (opt_time ''failed_at'' (ro_FailedAt r)
              (opt_time ''completed_at'' (ro_CompletedAt r) base)))
      in case ro_FailureSummary r of
           None \<Rightarrow> timed
         | Some s \<Rightarrow>
             (case summary_object s of None \<Rightarrow> timed | Some v \<Rightarrow> timed(''failure_summary'' \<mapsto> v)))"

definition recordToAppRollout :: "rec \<Rightarrow> AppRollout" where
  "recordToAppRollout rec =
     (let mode = mode_of_string (recString rec ''rollout_mode'')
      in \<lparr>ro_App = recString rec ''app'',
          ro_Version = recString rec ''version'',
          ro_State = state_of_string (recString rec ''state''),
          ro_Mode = (if mode = OtherMode '''' then AppRolloutModeEnrollment else mode),
          ro_TargetSourceVersion = recString rec ''target_source_version'',
          ro_MinimumHealthyInstances = recordInt rec ''minimum_healthy_instances'',
          ro_CreatedAt = recTime rec ''created_at'',
          ro_EnrollmentEndsAt = recTime rec ''enrollment_ends_at'',
          ro_Deadline = recTime rec ''deadline'',
          ro_HealthySince = recTime rec ''healthy_since'',
          ro_HeartbeatEvaluatedAt = recTime rec ''heartbeat_evaluated_at'',
          ro_CompletedAt = recTime rec ''completed_at'',
          ro_FailedAt = recTime rec ''failed_at'',
          ro_FailureSummary = summary_of_object (rec ''failure_summary'')\<rparr>)"

subsection \<open>Helpers\<close>

definition isActiveRolloutState :: "AppRolloutState \<Rightarrow> bool" where
  "isActiveRolloutState s \<longleftrightarrow> s = AppRolloutStateEnrolling \<or> s = AppRolloutStateRestarting"

definition normalizedRolloutTime :: "time \<Rightarrow> time \<Rightarrow> time" where
  "normalizedRolloutTime now t = truncate_ms (if t = 0 then now else t)"

definition normalizeAppRollout :: "time \<Rightarrow> AppRollout \<Rightarrow> AppRollout" where
  "normalizeAppRollout now r =
     r\<lparr>ro_App := TrimSpace (ro_App r),
       ro_Version := TrimSpace (ro_Version r),
       ro_Mode := (if ro_Mode r = OtherMode '''' then AppRolloutModeEnrollment else ro_Mode r),
       ro_TargetSourceVersion := TrimSpace (ro_TargetSourceVersion r),
       ro_CreatedAt := normalizedRolloutTime now (ro_CreatedAt r),
       ro_EnrollmentEndsAt := normalizedRolloutTime now (ro_EnrollmentEndsAt r),
       ro_Deadline := normalizedRolloutTime now (ro_Deadline r)\<rparr>"

definition validateAppRollout :: "AppRollout option \<Rightarrow> unit result" where
  "validateAppRollout ro =
     (case ro of
        None \<Rightarrow> Inl (Errorf ''record is required'')
      | Some r \<Rightarrow>
          if TrimSpace (ro_App r) = '''' \<or> TrimSpace (ro_Version r) = ''''
          then Inl (Errorf ''app and version are required'')
          else
            (case (if ro_Mode r = OtherMode '''' then AppRolloutModeEnrollment else ro_Mode r) of
               AppRolloutModeEnrollment \<Rightarrow>
                 if ro_State r \<noteq> AppRolloutStateEnrolling
                 then Inl (Errorf ''enrollment rollout initial state must be %q'')
                 else if ro_CreatedAt r = 0 \<or> \<not> ro_CreatedAt r < ro_EnrollmentEndsAt r \<or>
                   \<not> ro_EnrollmentEndsAt r < ro_Deadline r
                 then Inl (Errorf ''created_at, enrollment_ends_at, and deadline must be ordered'')
                 else Inr ()
             | AppRolloutModeHeartbeat \<Rightarrow>
                 if ro_State r \<noteq> AppRolloutStateRestarting
                 then Inl (Errorf ''heartbeat rollout initial state must be %q'')
                 else if ro_CreatedAt r = 0 \<or> \<not> ro_CreatedAt r < ro_Deadline r
                 then Inl (Errorf ''created_at and deadline must be ordered'')
                 else if TrimSpace (ro_TargetSourceVersion r) = '''' \<or>
                   ro_MinimumHealthyInstances r \<le> 0
                 then Inl (Errorf ''heartbeat rollout target source version and minimum healthy instances are required'')
                 else Inr ()
             | OtherMode m \<Rightarrow> Inl (Errorf ''invalid rollout mode %q'')))"

subsection \<open>Reading\<close>

definition AppRolloutService_Get :: "bool \<Rightarrow> string \<Rightarrow> db \<Rightarrow> AppRollout result \<times> db" where
  "AppRolloutService_Get s app d =
     (if \<not> s then (Inl (Errorf ''get app rollout: service is not configured''), d)
      else if TrimSpace app = '''' then (Inl (Errorf ''get app rollout: app is required''), d)
      else
        (case store_Get StoreAppRollouts (TrimSpace app) d of
           (Inl err, d) \<Rightarrow>
             (Inl (if errors_is err ErrNotFound_idb then ErrNotFound
                else Wrapf ''get app rollout'' err), d)
         | (Inr rec, d) \<Rightarrow> (Inr (recordToAppRollout rec), d)))"

definition AppRolloutService_ListActive :: "bool \<Rightarrow> db \<Rightarrow> AppRollout list result \<times> db" where
  "AppRolloutService_ListActive s d =
     (if \<not> s then (Inl (Errorf ''list active app rollouts: service is not configured''), d)
      else
        (case store_GetAll StoreAppRollouts QAll 0 d of
           (Inl err, d) \<Rightarrow> (Inl (Wrapf ''list active app rollouts'' err), d)
         | (Inr recs, d) \<Rightarrow>
             (Inr (filter (\<lambda>r. isActiveRolloutState (ro_State r)) (map recordToAppRollout recs)), d)))"

definition terminalAt :: "AppRollout \<Rightarrow> time" where
  "terminalAt r = (if ro_State r = AppRolloutStateFailed then ro_FailedAt r else ro_CompletedAt r)"

definition AppRolloutService_ListActiveAndRecentTerminal ::
  "bool \<Rightarrow> time \<Rightarrow> db \<Rightarrow> AppRollout list result \<times> db" where
  "AppRolloutService_ListActiveAndRecentTerminal s since d =
     (if \<not> s
      then (Inl (Errorf ''list active and recent terminal app rollouts: service is not configured''), d)
      else
        (case store_GetAll StoreAppRollouts QAll 0 d of
           (Inl err, d) \<Rightarrow> (Inl (Wrapf ''list active and recent terminal app rollouts'' err), d)
         | (Inr recs, d) \<Rightarrow>
             (Inr (filter (\<lambda>r. isActiveRolloutState (ro_State r) \<or>
                 terminalAt r \<noteq> 0 \<and> \<not> terminalAt r < since) (map recordToAppRollout recs)), d)))"

subsection \<open>Creating\<close>

text \<open>
  The part of the transaction that looks at the app's row, shared with
  \<^verbatim>\<open>GestaltdSourceVersionService.CreateAppRollout\<close>; \<open>op\<close> is the text its errors start with.
\<close>

definition create_body :: "string \<Rightarrow> AppRollout \<Rightarrow> db \<Rightarrow> AppRollout tx_end \<times> db" where
  "create_body op r d =
     (case store_GetAll StoreAppRollouts (QKey (KString (ro_App r))) 1 d of
        (Inl err, d) \<Rightarrow> (TxFail (Wrapf (op @ '': load current rollout'') err), d)
      | (Inr (existing # _), d) \<Rightarrow>
          if isActiveRolloutState (ro_State (recordToAppRollout existing))
          then (TxFail ErrAppRolloutActive, d)
          else
            (case store_Put StoreAppRollouts (appRolloutRecord r) d of
               (Inl err, d) \<Rightarrow>
                 (TxFail (Wrapf (op @ '': replace terminal rollout'') err), d)
             | (Inr _, d) \<Rightarrow> (TxCommit (op @ '': commit'') r, d))
      | (Inr [], d) \<Rightarrow>
          (case store_Add StoreAppRollouts (appRolloutRecord r) d of
             (Inl err, d) \<Rightarrow>
               (TxFail (if errors_is err ErrAlreadyExists_idb then ErrAppRolloutActive
                  else Wrapf op err), d)
           | (Inr _, d) \<Rightarrow> (TxCommit (op @ '': commit'') r, d)))"

definition AppRolloutService_Create ::
  "bool \<Rightarrow> time \<Rightarrow> AppRollout option \<Rightarrow> db \<Rightarrow> AppRollout result \<times> db" where
  "AppRolloutService_Create s now rollout d =
     (if \<not> s then (Inl (Errorf ''create app rollout: service is not configured''), d)
      else
        (case (validateAppRollout rollout, rollout) of
           (Inl err, _) \<Rightarrow> (Inl (Wrapf ''create app rollout'' err), d)
         | (Inr _, None) \<Rightarrow> (Inl (Errorf ''record is required''), d)
         | (Inr _, Some r) \<Rightarrow>
             with_tx ''create app rollout: begin transaction''
               (create_body ''create app rollout'' (normalizeAppRollout now r)) d))"

subsection \<open>Moving to another state\<close>

definition epoch_matches :: "AppRollout \<Rightarrow> AppRollout \<Rightarrow> bool" where
  "epoch_matches rollout expected \<longleftrightarrow>
     ro_CreatedAt rollout = ro_CreatedAt expected \<and>
     TrimSpace (ro_TargetSourceVersion rollout) = TrimSpace (ro_TargetSourceVersion expected) \<and>
     ro_Mode rollout = ro_Mode expected"

text \<open>The field updates of a transition; \<open>None\<close> is a target state that is none.\<close>

definition enter_state :: "time \<Rightarrow> AppRolloutState \<Rightarrow> time \<Rightarrow> AppRollout \<Rightarrow> AppRollout option" where
  "enter_state now state at r =
     (case state of
        AppRolloutStateComplete \<Rightarrow>
          Some (r\<lparr>ro_State := state, ro_CompletedAt := normalizedRolloutTime now at,
            ro_FailureSummary := None\<rparr>)
      | AppRolloutStateFailed \<Rightarrow>
          Some (r\<lparr>ro_State := state, ro_FailedAt := normalizedRolloutTime now at\<rparr>)
      | AppRolloutStateRestarting \<Rightarrow> Some (r\<lparr>ro_State := state\<rparr>)
      | _ \<Rightarrow> None)"

definition transition_body ::
  "time \<Rightarrow> string \<Rightarrow> string \<Rightarrow> AppRolloutState \<Rightarrow> time \<Rightarrow> AppRollout option \<Rightarrow> db \<Rightarrow>
    AppRollout tx_end \<times> db" where
  "transition_body now app version state at expected d =
     (case store_Get StoreAppRollouts app d of
        (Inl err, d) \<Rightarrow> (TxFail (Wrapf ''transition app rollout: load current rollout'' err), d)
      | (Inr rec, d) \<Rightarrow>
          (let rollout = recordToAppRollout rec
           in if TrimSpace (ro_Version rollout) \<noteq> version
              then (TxFail ErrAppRolloutVersionMismatch, d)
              else if (case expected of None \<Rightarrow> False | Some e \<Rightarrow> \<not> epoch_matches rollout e)
              then (TxFail ErrAppRolloutEpochMismatch, d)
              else if ro_State rollout = state
              then (TxCommit ''transition app rollout: commit'' rollout, d)
              else if \<not> isActiveRolloutState (ro_State rollout)
              then (TxCommit ''transition app rollout: commit'' rollout, d)
              else
                (case enter_state now state at rollout of
                   None \<Rightarrow> (TxFail (Errorf ''transition app rollout: invalid target state %q''), d)
                 | Some rollout \<Rightarrow>
                     (case store_Put StoreAppRollouts (appRolloutRecord rollout) d of
                        (Inl err, d) \<Rightarrow> (TxFail (Wrapf ''transition app rollout'' err), d)
                      | (Inr _, d) \<Rightarrow>
                          (TxCommit ''transition app rollout: commit'' rollout, d)))))"

definition AppRolloutService_transition ::
  "bool \<Rightarrow> time \<Rightarrow> string \<Rightarrow> string \<Rightarrow> AppRolloutState \<Rightarrow> time \<Rightarrow> AppRollout option \<Rightarrow> db \<Rightarrow>
    AppRollout result \<times> db" where
  "AppRolloutService_transition s now app version state at expected d =
     (if \<not> s then (Inl (Errorf ''transition app rollout: service is not configured''), d)
      else if TrimSpace app = '''' \<or> TrimSpace version = ''''
      then (Inl (Errorf ''transition app rollout: app and version are required''), d)
      else with_tx ''transition app rollout: begin transaction''
        (transition_body now (TrimSpace app) (TrimSpace version) state at expected) d)"

definition AppRolloutService_transitionForRollout ::
  "bool \<Rightarrow> time \<Rightarrow> AppRollout option \<Rightarrow> AppRolloutState \<Rightarrow> time \<Rightarrow> db \<Rightarrow> AppRollout result \<times> db" where
  "AppRolloutService_transitionForRollout s now expected state at d =
     (case expected of
        None \<Rightarrow> (Inl (Errorf ''transition app rollout: expected rollout is required''), d)
      | Some e \<Rightarrow>
          AppRolloutService_transition s now (ro_App e) (ro_Version e) state at expected d)"

definition AppRolloutService_MarkRestarting where
  "AppRolloutService_MarkRestarting s now app version =
     AppRolloutService_transition s now app version AppRolloutStateRestarting 0 None"

definition AppRolloutService_MarkComplete where
  "AppRolloutService_MarkComplete s now app version completedAt =
     AppRolloutService_transition s now app version AppRolloutStateComplete completedAt None"

definition AppRolloutService_MarkFailed where
  "AppRolloutService_MarkFailed s now app version failedAt =
     AppRolloutService_transition s now app version AppRolloutStateFailed failedAt None"

definition AppRolloutService_MarkRestartingForRollout where
  "AppRolloutService_MarkRestartingForRollout s now expected =
     AppRolloutService_transitionForRollout s now expected AppRolloutStateRestarting 0"

definition AppRolloutService_MarkCompleteForRollout where
  "AppRolloutService_MarkCompleteForRollout s now expected completedAt =
     AppRolloutService_transitionForRollout s now expected AppRolloutStateComplete completedAt"

definition AppRolloutService_MarkFailedForRollout where
  "AppRolloutService_MarkFailedForRollout s now expected failedAt =
     AppRolloutService_transitionForRollout s now expected AppRolloutStateFailed failedAt"

subsection \<open>Applying one heartbeat observation\<close>

text \<open>What an observation at \<open>at\<close> makes of a restarting rollout, and whether it ended it.\<close>

definition apply_observation ::
  "time \<Rightarrow> HeartbeatRolloutEvaluation \<Rightarrow> AppRollout \<Rightarrow> AppRollout \<times> bool" where
  "apply_observation at ev r0 =
     (let r = r0\<lparr>ro_HeartbeatEvaluatedAt := at,
            ro_HealthySince :=
              (if ev_Healthy ev then (if ro_HealthySince r0 = 0 then at else ro_HealthySince r0)
               else 0)\<rparr>;
          stableAt = ro_HealthySince r + ev_StabilityWindow ev
      in if ev_Healthy ev \<and> ro_HealthySince r \<noteq> 0 \<and> \<not> at < stableAt \<and> \<not> ro_Deadline r < stableAt
         then (r\<lparr>ro_State := AppRolloutStateComplete, ro_CompletedAt := at, ro_FailedAt := 0,
                 ro_FailureSummary := None\<rparr>, True)
         else if \<not> at < ro_Deadline r
         then (r\<lparr>ro_State := AppRolloutStateFailed, ro_FailedAt := at, ro_CompletedAt := 0,
                 ro_FailureSummary := Some ((ev_FailureSummary ev)
                   \<lparr>fs_SourceVersion := TrimSpace (ro_TargetSourceVersion r),
                    fs_Version := TrimSpace (ro_Version r),
                    fs_MinimumHealthyInstances := ro_MinimumHealthyInstances r,
                    fs_EvaluatedAt := at\<rparr>)\<rparr>, True)
         else (r, False))"

definition observation_epoch :: "AppRollout \<Rightarrow> AppRollout \<Rightarrow> bool" where
  "observation_epoch rollout expected \<longleftrightarrow>
     TrimSpace (ro_Version rollout) = TrimSpace (ro_Version expected) \<and>
     ro_CreatedAt rollout = ro_CreatedAt expected \<and>
     TrimSpace (ro_TargetSourceVersion rollout) = TrimSpace (ro_TargetSourceVersion expected) \<and>
     ro_Mode rollout = AppRolloutModeHeartbeat \<and> ro_Mode expected = AppRolloutModeHeartbeat"

definition observation_ignored :: "time \<Rightarrow> AppRollout \<Rightarrow> bool" where
  "observation_ignored at r \<longleftrightarrow>
     ro_State r \<noteq> AppRolloutStateRestarting \<or>
     ro_HeartbeatEvaluatedAt r \<noteq> 0 \<and> at < ro_HeartbeatEvaluatedAt r"

definition evaluate_body ::
  "time \<Rightarrow> AppRollout \<Rightarrow> HeartbeatRolloutEvaluation \<Rightarrow> db \<Rightarrow> (AppRollout \<times> bool) tx_end \<times> db" where
  "evaluate_body at expected ev d =
     (case store_Get StoreAppRollouts (TrimSpace (ro_App expected)) d of
        (Inl err, d) \<Rightarrow>
          (TxFail (Wrapf ''evaluate heartbeat rollout: load current rollout'' err), d)
      | (Inr rec, d) \<Rightarrow>
          (let rollout = recordToAppRollout rec
           in if \<not> observation_epoch rollout expected then (TxFail ErrAppRolloutEpochMismatch, d)
              else if observation_ignored at rollout
              then (TxCommit ''evaluate heartbeat rollout: commit unchanged'' (rollout, False), d)
              else
                (case apply_observation at ev rollout of
                   (rollout, transitioned) \<Rightarrow>
                     (case store_Put StoreAppRollouts (appRolloutRecord rollout) d of
                        (Inl err, d) \<Rightarrow>
                          (TxFail (Wrapf ''evaluate heartbeat rollout: write rollout'' err), d)
                      | (Inr _, d) \<Rightarrow>
                          (TxCommit ''evaluate heartbeat rollout: commit'' (rollout, transitioned),
                            d)))))"

definition AppRolloutService_EvaluateHeartbeatRollout ::
  "bool \<Rightarrow> time \<Rightarrow> AppRollout option \<Rightarrow> HeartbeatRolloutEvaluation \<Rightarrow> db \<Rightarrow>
    (AppRollout \<times> bool) result \<times> db" where
  "AppRolloutService_EvaluateHeartbeatRollout s now expected ev d =
     (if \<not> s then (Inl (Errorf ''evaluate heartbeat rollout: service is not configured''), d)
      else
        (case expected of
           None \<Rightarrow>
             (Inl (Errorf ''evaluate heartbeat rollout: expected rollout is required''), d)
         | Some e \<Rightarrow>
             if ev_StabilityWindow ev \<le> 0
             then (Inl (Errorf ''evaluate heartbeat rollout: stability window must be positive''), d)
             else with_tx ''evaluate heartbeat rollout: begin transaction''
               (evaluate_body (normalizedRolloutTime now (ev_EvaluatedAt ev)) e ev) d))"

subsection \<open>The record codec\<close>

definition canonical_state :: "AppRolloutState \<Rightarrow> bool" where
  "canonical_state st \<longleftrightarrow> state_of_string (state_string st) = st"

definition canonical_mode :: "AppRolloutMode \<Rightarrow> bool" where
  "canonical_mode m \<longleftrightarrow> m \<noteq> OtherMode '''' \<and> mode_of_string (mode_string m) = m"

definition canonical :: "AppRollout \<Rightarrow> bool" where
  "canonical r \<longleftrightarrow> canonical_state (ro_State r) \<and> canonical_mode (ro_Mode r)"

definition stored_summary :: "AppRolloutFailureSummary option \<Rightarrow> AppRolloutFailureSummary option" where
  "stored_summary s = Option.bind s (\<lambda>s. summary_of_object (summary_object s))"

lemma canonical_state_simps [simp]:
  "canonical_state AppRolloutStateEnrolling" "canonical_state AppRolloutStateRestarting"
  "canonical_state AppRolloutStateComplete" "canonical_state AppRolloutStateFailed"
  "canonical_state (state_of_string t)"
  by (simp_all add: canonical_state_def state_of_string_def)

lemma canonical_mode_simps [simp]:
  "canonical_mode AppRolloutModeEnrollment" "canonical_mode AppRolloutModeHeartbeat"
  "canonical_mode (mode_of_string t) \<longleftrightarrow> t \<noteq> ''''"
  by (auto simp: canonical_mode_def mode_of_string_def split: if_splits)

lemma mode_of_string_empty [simp]: "mode_of_string t = OtherMode '''' \<longleftrightarrow> t = ''''"
  by (simp add: mode_of_string_def)

lemma canonical_recordToAppRollout [simp]: "canonical (recordToAppRollout rec)"
  by (simp add: canonical_def recordToAppRollout_def Let_def)

lemma opt_time_apply:
  "opt_time k t r k' = (if k' = k \<and> t \<noteq> 0 then Some (VTime t) else r k')"
  by (simp add: opt_time_def)

lemma appRolloutRecord_fields [rec_simps]:
  "appRolloutRecord r ''id'' = Some (VString (ro_App r))"
  "appRolloutRecord r ''app'' = Some (VString (ro_App r))"
  "appRolloutRecord r ''version'' = Some (VString (ro_Version r))"
  "appRolloutRecord r ''state'' = Some (VString (state_string (ro_State r)))"
  "appRolloutRecord r ''rollout_mode'' = Some (VString (mode_string (ro_Mode r)))"
  "appRolloutRecord r ''target_source_version'' = Some (VString (ro_TargetSourceVersion r))"
  "appRolloutRecord r ''minimum_healthy_instances'' = Some (VInt (ro_MinimumHealthyInstances r))"
  "appRolloutRecord r ''created_at'' = Some (VTime (ro_CreatedAt r))"
  "appRolloutRecord r ''enrollment_ends_at'' = Some (VTime (ro_EnrollmentEndsAt r))"
  "appRolloutRecord r ''deadline'' = Some (VTime (ro_Deadline r))"
  by (simp_all add: appRolloutRecord_def Let_def opt_time_apply split: option.split)

lemma appRolloutRecord_times [rec_simps]:
  "recTime (appRolloutRecord r) ''completed_at'' = ro_CompletedAt r"
  "recTime (appRolloutRecord r) ''failed_at'' = ro_FailedAt r"
  "recTime (appRolloutRecord r) ''healthy_since'' = ro_HealthySince r"
  "recTime (appRolloutRecord r) ''heartbeat_evaluated_at'' = ro_HeartbeatEvaluatedAt r"
  by (simp_all add: recTime_def appRolloutRecord_def Let_def opt_time_apply split: option.split)

lemma appRolloutRecord_summary:
  "summary_of_object (appRolloutRecord r ''failure_summary'') = stored_summary (ro_FailureSummary r)"
  by (auto simp: appRolloutRecord_def Let_def opt_time_apply stored_summary_def
      summary_of_object_def split: option.split)

lemma stored_rollout:
  assumes "canonical r"
  shows "recordToAppRollout (appRolloutRecord r) =
    r\<lparr>ro_FailureSummary := stored_summary (ro_FailureSummary r)\<rparr>"
  using assms
  by (cases r) (simp add: recordToAppRollout_def appRolloutRecord_summary rec_simps canonical_def
      canonical_state_def canonical_mode_def)

definition storable_summary :: "AppRolloutFailureSummary \<Rightarrow> bool" where
  "storable_summary s \<longleftrightarrow>
     list_all (\<lambda>n. \<bar>n\<bar> < 2 ^ 53) [fs_LiveInstances s, fs_MinimumHealthyInstances s,
       fs_RunningDesiredVersion s, fs_NotRunning s, fs_Mismatched s, fs_Errors s] \<and>
     ascii (fs_SourceVersion s) \<and> ascii (fs_Version s) \<and> four_digit_year (fs_EvaluatedAt s)"

lemma int64_small: "\<bar>n\<bar> < 2 ^ 53 \<Longrightarrow> int64 n"
  by (auto simp: int64_def)

lemma stored_summary_id:
  assumes "storable_summary s"
  shows "stored_summary (Some s) = Some s"
  using assms
  by (cases s) (simp add: stored_summary_def summary_object_def summary_of_object_def
      storable_summary_def json_int_def json_string_def json_time_def int64_small
      parse_format_RFC3339Nano)

lemma stored_summary_None [simp]: "stored_summary None = None"
  by (simp add: stored_summary_def)

definition storable_rollout :: "AppRollout \<Rightarrow> bool" where
  "storable_rollout r \<longleftrightarrow> canonical r \<and>
     (case ro_FailureSummary r of None \<Rightarrow> True | Some s \<Rightarrow> storable_summary s)"

interpretation rollout_codec: row_codec StoreAppRollouts ro_App appRolloutRecord recordToAppRollout storable_rollout
proof unfold_locales
  fix r assume "storable_rollout r"
  then have "canonical r" and "stored_summary (ro_FailureSummary r) = ro_FailureSummary r"
    by (auto simp: storable_rollout_def stored_summary_id split: option.splits)
  then show "recordToAppRollout (appRolloutRecord r) = r" by (simp add: stored_rollout)
qed (simp add: rec_simps)

subsection \<open>What each operation does to the rollout rows\<close>

text \<open>The rollouts a database holds, by key.\<close>

definition rollouts :: "contents \<Rightarrow> string \<Rightarrow> AppRollout option" where
  "rollouts c k = map_option recordToAppRollout (map_of (c StoreAppRollouts) k)"

definition has_active :: "contents \<Rightarrow> string \<Rightarrow> bool" where
  "has_active c k \<longleftrightarrow>
     (case rollouts c k of None \<Rightarrow> False | Some r \<Rightarrow> isActiveRolloutState (ro_State r))"

lemma record_id_appRolloutRecord [simp]: "record_id (appRolloutRecord r) = ro_App r"
  by (simp add: record_id_def rec_simps)

lemma rollouts_row_put:
  assumes "canonical r"
  shows "rollouts (row_put StoreAppRollouts (appRolloutRecord r) c) =
    (rollouts c)(ro_App r \<mapsto> r\<lparr>ro_FailureSummary := stored_summary (ro_FailureSummary r)\<rparr>)"
  using assms by (auto simp: rollouts_def stored_rollout fun_eq_iff)

lemma get_rollout:
  assumes "store_Get StoreAppRollouts k d = (Inr rec, d')"
  shows "rollouts (db_rows d) k = Some (recordToAppRollout rec)"
  using store_Get_Inr [OF assms] by (simp add: rollouts_def)

definition put_rollout :: "AppRollout \<Rightarrow> contents \<Rightarrow> contents" where
  "put_rollout r = row_put StoreAppRollouts (appRolloutRecord r)"

text \<open>The effect of a transition that succeeds: nothing, or one row entering the state.\<close>

definition transition_done ::
  "time \<Rightarrow> string \<Rightarrow> string \<Rightarrow> AppRolloutState \<Rightarrow> time \<Rightarrow> AppRollout option \<Rightarrow> contents \<Rightarrow>
    AppRollout \<Rightarrow> contents \<Rightarrow> bool" where
  "transition_done now app v st at ex c r' c' \<longleftrightarrow>
     (\<exists>r. rollouts c app = Some r \<and> TrimSpace (ro_Version r) = v \<and>
       (\<forall>e. ex = Some e \<longrightarrow> epoch_matches r e) \<and>
       (if ro_State r = st \<or> \<not> isActiveRolloutState (ro_State r)
        then r' = r \<and> c' = c
        else enter_state now st at r = Some r' \<and> c' = put_rollout r' c))"

lemma transition_body_commit:
  assumes "transition_body now app v st at ex d = (TxCommit m r', d')"
  shows "transition_done now app v st at ex (db_rows d) r' (db_rows d')"
proof -
  obtain g d1 where g: "store_Get StoreAppRollouts app d = (g, d1)"
    by (cases "store_Get StoreAppRollouts app d")
  with assms obtain rec where "g = Inr rec" by (cases g) (simp_all add: transition_body_def)
  note row = get_rollout [OF g [unfolded this]] and rows = read_rows(1) [OF g]
  let ?r = "recordToAppRollout rec"
  show ?thesis
  proof (cases "ro_State ?r = st \<or> \<not> isActiveRolloutState (ro_State ?r)")
    case True
    then show ?thesis
      using assms row rows
      by (auto simp: transition_body_def g \<open>g = Inr rec\<close> Let_def transition_done_def
          split: if_splits option.splits)
  next
    case False
    with assms obtain r u where "enter_state now st at ?r = Some r"
      and put: "store_Put StoreAppRollouts (appRolloutRecord r) d1 = (Inr u, d')" and "r' = r"
      and "TrimSpace (ro_Version ?r) = v" "\<And>e. ex = Some e \<Longrightarrow> epoch_matches ?r e"
      by (auto simp: transition_body_def g \<open>g = Inr rec\<close> Let_def
          split: if_splits option.splits prod.splits sum.splits)
    then show ?thesis
      using False row rows write_rows(1) [OF put] by (auto simp: transition_done_def put_rollout_def)
  qed
qed

lemma transition_body_no_return: "transition_body now app v st at ex d \<noteq> (TxReturn r, d')"
  by (simp add: transition_body_def Let_def split: prod.split sum.split option.split)

lemma transition_Inl:
  "AppRolloutService_transition s now app v st at ex d = (Inl e, d') \<Longrightarrow> db_rows d' = db_rows d"
  by (auto simp: AppRolloutService_transition_def dest: with_tx_error split: if_splits)

lemma transition_Inr:
  assumes "AppRolloutService_transition s now app v st at ex d = (Inr r', d')"
  shows "transition_done now (TrimSpace app) (TrimSpace v) st at ex (db_rows d) r' (db_rows d')"
    and "TrimSpace app \<noteq> ''''" and "TrimSpace v \<noteq> ''''"
proof -
  let ?body = "transition_body now (TrimSpace app) (TrimSpace v) st at ex"
  from assms have tx: "with_tx ''transition app rollout: begin transaction'' ?body d = (Inr r', d')"
    and ne: "TrimSpace app \<noteq> ''''" "TrimSpace v \<noteq> ''''"
    by (auto simp: AppRolloutService_transition_def split: if_splits)
  from ne show "TrimSpace app \<noteq> ''''" and "TrimSpace v \<noteq> ''''" by auto
  from tx show "transition_done now (TrimSpace app) (TrimSpace v) st at ex (db_rows d) r' (db_rows d')"
    by (rule with_tx_post) (metis transition_body_commit, simp add: transition_body_no_return)
qed

definition create_done :: "AppRollout \<Rightarrow> contents \<Rightarrow> contents \<Rightarrow> bool" where
  "create_done r c c' \<longleftrightarrow> c' = put_rollout r c \<and> \<not> has_active c (ro_App r)"

lemma create_body_commit:
  assumes "create_body op r d = (TxCommit m r', d')"
    and "separates (db_rows d StoreAppRollouts) (ro_App r)" and "wf_alist (db_rows d StoreAppRollouts)"
  shows "r' = r" and "create_done r (db_rows d) (db_rows d')"
proof -
  obtain g d1 where g: "store_GetAll StoreAppRollouts (QKey (KString (ro_App r))) 1 d = (g, d1)"
    by (cases "store_GetAll StoreAppRollouts (QKey (KString (ro_App r))) 1 d")
  with assms(1) obtain recs where "g = Inr recs" by (cases g) (simp_all add: create_body_def)
  note g = g [unfolded this]
  have recs: "recs = (case map_of (db_rows d StoreAppRollouts) (ro_App r) of None \<Rightarrow> [] | Some r \<Rightarrow> [r])"
    using store_GetAll_Inr [OF g] rows_GetAll_key [OF assms(2,3)] by simp
  note rows = read_rows(2) [OF g]
  have "r' = r \<and> create_done r (db_rows d) (db_rows d')"
  proof (cases "map_of (db_rows d StoreAppRollouts) (ro_App r)")
    case None
    with assms(1) obtain u where "store_Add StoreAppRollouts (appRolloutRecord r) d1 = (Inr u, d')"
      and "r' = r"
      by (auto simp: create_body_def g recs simp del: One_nat_def split: prod.splits sum.splits)
    then show ?thesis
      using None rows write_rows(2) by (fastforce simp: create_done_def put_rollout_def rollouts_def has_active_def)
  next
    case (Some old)
    with assms(1) obtain u where "store_Put StoreAppRollouts (appRolloutRecord r) d1 = (Inr u, d')"
      and "r' = r" and "\<not> isActiveRolloutState (ro_State (recordToAppRollout old))"
      by (auto simp: create_body_def g recs simp del: One_nat_def
          split: prod.splits sum.splits if_splits)
    then show ?thesis
      using Some rows write_rows(1) by (fastforce simp: create_done_def put_rollout_def rollouts_def has_active_def)
  qed
  then show "r' = r" and "create_done r (db_rows d) (db_rows d')" by auto
qed

lemma create_body_no_return: "create_body op r d \<noteq> (TxReturn r', d')"
  by (simp add: create_body_def split: prod.split sum.split list.split)

lemma create_body_result: "create_body op r d = (TxCommit m r', d') \<Longrightarrow> r' = r"
  by (auto simp: create_body_def split: prod.splits sum.splits list.splits if_splits)

lemma create_body_rows:
  assumes "create_body op r d = (t, d')"
  shows "db_rows d' = db_rows d \<or> db_rows d' = put_rollout r (db_rows d)"
proof -
  obtain g d1 where g: "store_GetAll StoreAppRollouts (QKey (KString (ro_App r))) 1 d = (g, d1)"
    by (cases "store_GetAll StoreAppRollouts (QKey (KString (ro_App r))) 1 d")
  show ?thesis
    using assms read_rows(2) [OF g] unfolding create_body_def g
    by (auto simp: put_rollout_def dest!: write_rows split: prod.splits sum.splits list.splits if_splits)
qed

lemma Create_Inl:
  "AppRolloutService_Create s now ro d = (Inl e, d') \<Longrightarrow> db_rows d' = db_rows d"
  by (auto simp: AppRolloutService_Create_def dest: with_tx_error split: if_splits sum.splits option.splits)

lemma Create_tx:
  assumes "AppRolloutService_Create s now ro d = (Inr r', d')"
  obtains r where "ro = Some r" and "validateAppRollout ro = Inr ()" and "r' = normalizeAppRollout now r"
    and "with_tx ''create app rollout: begin transaction''
      (create_body ''create app rollout'' (normalizeAppRollout now r)) d = (Inr r', d')"
proof -
  from assms obtain r where r: "ro = Some r" and v: "validateAppRollout ro = Inr ()"
    and tx: "with_tx ''create app rollout: begin transaction''
      (create_body ''create app rollout'' (normalizeAppRollout now r)) d = (Inr r', d')"
    by (auto simp: AppRolloutService_Create_def split: if_splits sum.splits option.splits)
  from tx have "r' = normalizeAppRollout now r"
    by (rule with_tx_post) (rule create_body_result, assumption, simp add: create_body_no_return)
  with r v tx that show thesis by blast
qed

lemma Create_effect:
  assumes "AppRolloutService_Create s now ro d = (Inr r', d')"
    and "separates (db_rows d StoreAppRollouts) (ro_App r')" and "wf_alist (db_rows d StoreAppRollouts)"
  shows "create_done r' (db_rows d) (db_rows d')"
proof -
  from Create_tx [OF assms(1)] obtain op begin' where
    tx: "with_tx begin' (create_body op r') d = (Inr r', d')" by metis
  from tx show ?thesis
    by (rule with_tx_post) (use create_body_commit(2) assms(2,3) in metis, simp add: create_body_no_return)
qed

definition observation_done ::
  "time \<Rightarrow> AppRollout \<Rightarrow> HeartbeatRolloutEvaluation \<Rightarrow> contents \<Rightarrow> AppRollout \<times> bool \<Rightarrow> contents \<Rightarrow> bool" where
  "observation_done at ex ev c res c' \<longleftrightarrow>
     (\<exists>r. rollouts c (TrimSpace (ro_App ex)) = Some r \<and> observation_epoch r ex \<and>
       (if observation_ignored at r then res = (r, False) \<and> c' = c
        else res = apply_observation at ev r \<and> c' = put_rollout (fst res) c))"

lemma evaluate_body_commit:
  assumes "evaluate_body at ex ev d = (TxCommit m res, d')"
  shows "observation_done at ex ev (db_rows d) res (db_rows d')"
proof -
  obtain g d1 where g: "store_Get StoreAppRollouts (TrimSpace (ro_App ex)) d = (g, d1)"
    by (cases "store_Get StoreAppRollouts (TrimSpace (ro_App ex)) d")
  with assms obtain rec where "g = Inr rec" by (cases g) (simp_all add: evaluate_body_def)
  note row = get_rollout [OF g [unfolded this]] and rows = read_rows(1) [OF g]
  let ?r = "recordToAppRollout rec"
  have ep: "observation_epoch ?r ex"
    using assms by (auto simp: evaluate_body_def g \<open>g = Inr rec\<close> Let_def split: if_splits)
  show ?thesis
  proof (cases "observation_ignored at ?r")
    case True
    then show ?thesis
      using assms row rows ep
      by (simp add: evaluate_body_def g \<open>g = Inr rec\<close> Let_def observation_done_def)
  next
    case False
    with assms ep obtain r b u where "apply_observation at ev ?r = (r, b)" and "res = (r, b)"
      and put: "store_Put StoreAppRollouts (appRolloutRecord r) d1 = (Inr u, d')"
      by (auto simp: evaluate_body_def g \<open>g = Inr rec\<close> Let_def split: prod.splits sum.splits)
    then show ?thesis
      using False row rows ep write_rows(1) [OF put] by (simp add: observation_done_def put_rollout_def)
  qed
qed

lemma evaluate_body_no_return: "evaluate_body at ex ev d \<noteq> (TxReturn r, d')"
  by (simp add: evaluate_body_def Let_def split: prod.split sum.split)

lemma Evaluate_Inl:
  "AppRolloutService_EvaluateHeartbeatRollout s now ex ev d = (Inl e, d') \<Longrightarrow> db_rows d' = db_rows d"
  by (auto simp: AppRolloutService_EvaluateHeartbeatRollout_def dest: with_tx_error
      split: if_splits option.splits)

lemma Evaluate_Inr:
  assumes "AppRolloutService_EvaluateHeartbeatRollout s now ex ev d = (Inr res, d')"
  obtains e where "ex = Some e" and "0 < ev_StabilityWindow ev"
    and "observation_done (normalizedRolloutTime now (ev_EvaluatedAt ev)) e ev (db_rows d) res (db_rows d')"
proof -
  let ?at = "normalizedRolloutTime now (ev_EvaluatedAt ev)"
  from assms obtain e where e: "ex = Some e" and w: "0 < ev_StabilityWindow ev"
    and tx: "with_tx ''evaluate heartbeat rollout: begin transaction'' (evaluate_body ?at e ev) d = (Inr res, d')"
    by (auto simp: AppRolloutService_EvaluateHeartbeatRollout_def split: if_splits option.splits)
  from tx have "observation_done ?at e ev (db_rows d) res (db_rows d')"
    by (rule with_tx_post) (metis evaluate_body_commit, simp add: evaluate_body_no_return)
  with e w that show thesis by blast
qed

subsection \<open>The invariant of the rollout rows\<close>

definition rollout_ok :: "string \<Rightarrow> AppRollout \<Rightarrow> bool" where
  "rollout_ok k r \<longleftrightarrow>
     ro_App r = k \<and> k \<noteq> '''' \<and> TrimSpace k = k \<and> TrimSpace (ro_Version r) \<noteq> '''' \<and>
     ro_State r \<in> {AppRolloutStateEnrolling, AppRolloutStateRestarting, AppRolloutStateComplete,
       AppRolloutStateFailed} \<and>
     ro_CreatedAt r \<le> ro_Deadline r \<and>
     (ro_State r = AppRolloutStateComplete \<longrightarrow> ro_FailureSummary r = None) \<and>
     (case ro_Mode r of
        AppRolloutModeEnrollment \<Rightarrow>
          ro_CreatedAt r \<le> ro_EnrollmentEndsAt r \<and> ro_EnrollmentEndsAt r \<le> ro_Deadline r
      | AppRolloutModeHeartbeat \<Rightarrow>
          ro_State r \<noteq> AppRolloutStateEnrolling \<and> ro_TargetSourceVersion r \<noteq> '''' \<and>
          0 < ro_MinimumHealthyInstances r
      | OtherMode _ \<Rightarrow> False)"

definition rollouts_ok :: "contents \<Rightarrow> bool" where
  "rollouts_ok c \<longleftrightarrow> wf_alist (c StoreAppRollouts) \<and>
     (\<forall>k r. rollouts c k = Some r \<longrightarrow> rollout_ok k r)"

lemma rollout_ok_canonical: "rollout_ok k r \<Longrightarrow> canonical r"
  by (auto simp: rollout_ok_def canonical_def split: AppRolloutMode.splits)

lemma rollouts_okD: "rollouts_ok c \<Longrightarrow> rollouts c k = Some r \<Longrightarrow> rollout_ok k r"
  by (simp add: rollouts_ok_def)

lemma rollouts_put:
  assumes "rollout_ok k r"
  shows "rollouts (put_rollout r c) =
    (rollouts c)(k \<mapsto> r\<lparr>ro_FailureSummary := stored_summary (ro_FailureSummary r)\<rparr>)"
proof -
  have "ro_App r = k" using assms by (simp add: rollout_ok_def)
  with rollouts_row_put [OF rollout_ok_canonical [OF assms], of c] show ?thesis
    by (simp add: put_rollout_def)
qed

lemma rollout_ok_stored:
  "rollout_ok k r \<Longrightarrow> rollout_ok k (r\<lparr>ro_FailureSummary := stored_summary (ro_FailureSummary r)\<rparr>)"
  by (auto simp: rollout_ok_def split: AppRolloutMode.splits)

lemma rollouts_ok_put:
  assumes "rollouts_ok c" and "rollout_ok k r"
  shows "rollouts_ok (put_rollout r c)"
  unfolding rollouts_ok_def
proof
  show "wf_alist (put_rollout r c StoreAppRollouts)"
    using assms(1) by (simp add: rollouts_ok_def put_rollout_def row_put_def wf_alist_update)
  show "\<forall>k' r'. rollouts (put_rollout r c) k' = Some r' \<longrightarrow> rollout_ok k' r'"
    using assms rollout_ok_stored [OF assms(2)] unfolding rollouts_put [OF assms(2)]
    by (auto simp: rollouts_ok_def)
qed

lemma enter_state_frame:
  assumes "enter_state now st at r = Some r'"
  shows "ro_App r' = ro_App r" "ro_Version r' = ro_Version r" "ro_Mode r' = ro_Mode r"
    "ro_TargetSourceVersion r' = ro_TargetSourceVersion r"
    "ro_MinimumHealthyInstances r' = ro_MinimumHealthyInstances r"
    "ro_CreatedAt r' = ro_CreatedAt r" "ro_EnrollmentEndsAt r' = ro_EnrollmentEndsAt r"
    "ro_Deadline r' = ro_Deadline r" "ro_HealthySince r' = ro_HealthySince r"
    "ro_HeartbeatEvaluatedAt r' = ro_HeartbeatEvaluatedAt r" "ro_State r' = st"
    "st \<in> {AppRolloutStateRestarting, AppRolloutStateComplete, AppRolloutStateFailed}"
    "st = AppRolloutStateComplete \<Longrightarrow> ro_FailureSummary r' = None"
  using assms by (auto simp: enter_state_def split: AppRolloutState.splits)

lemma enter_state_ok:
  assumes "enter_state now st at r = Some r'" and "rollout_ok k r"
  shows "rollout_ok k r'"
  using assms(2) enter_state_frame [OF assms(1)]
  by (auto simp: rollout_ok_def split: AppRolloutMode.splits)

lemma apply_observation_frame:
  assumes "apply_observation at ev r = (r', b)"
  shows "ro_App r' = ro_App r" "ro_Version r' = ro_Version r" "ro_Mode r' = ro_Mode r"
    "ro_TargetSourceVersion r' = ro_TargetSourceVersion r"
    "ro_MinimumHealthyInstances r' = ro_MinimumHealthyInstances r"
    "ro_CreatedAt r' = ro_CreatedAt r" "ro_EnrollmentEndsAt r' = ro_EnrollmentEndsAt r"
    "ro_Deadline r' = ro_Deadline r" "ro_HeartbeatEvaluatedAt r' = at"
    "ro_State r' = (if b then ro_State r' else ro_State r)"
    "b \<Longrightarrow> ro_State r' \<in> {AppRolloutStateComplete, AppRolloutStateFailed}"
    "b \<Longrightarrow> ro_State r' = AppRolloutStateComplete \<Longrightarrow> ro_FailureSummary r' = None"
    "\<not> b \<Longrightarrow> ro_FailureSummary r' = ro_FailureSummary r"
  using assms by (auto simp: apply_observation_def Let_def split: if_splits)

lemma apply_observation_ok:
  assumes "apply_observation at ev r = (r', b)" and "rollout_ok k r"
  shows "rollout_ok k r'"
  using assms(2) apply_observation_frame [OF assms(1)]
  by (cases b) (auto simp: rollout_ok_def split: AppRolloutMode.splits)

lemma normalizedRolloutTime_nonzero [simp]: "t \<noteq> 0 \<Longrightarrow> normalizedRolloutTime now t = truncate_ms t"
  by (simp add: normalizedRolloutTime_def)

lemma normalize_ok:
  assumes "validateAppRollout (Some r) = Inr u" and "0 < ro_CreatedAt r"
  shows "rollout_ok (ro_App (normalizeAppRollout now r)) (normalizeAppRollout now r)"
  using assms
  by (auto simp: validateAppRollout_def rollout_ok_def normalizeAppRollout_def truncate_ms_mono
      split: if_splits AppRolloutMode.splits)

lemma Create_ok:
  assumes "AppRolloutService_Create s now (Some r) d = (x, d')" and "rollouts_ok (db_rows d)"
    and "separates (db_rows d StoreAppRollouts) (TrimSpace (ro_App r))" and "0 < ro_CreatedAt r"
  shows "rollouts_ok (db_rows d')"
proof (cases x)
  case (Inl e)
  then show ?thesis using assms(1,2) Create_Inl by metis
next
  case (Inr r')
  from Create_tx [OF assms(1) [unfolded Inr]] have v: "validateAppRollout (Some r) = Inr ()"
    and r': "r' = normalizeAppRollout now r" by auto
  have "separates (db_rows d StoreAppRollouts) (ro_App r')"
    using assms(3) r' by (simp add: normalizeAppRollout_def)
  then have "create_done r' (db_rows d) (db_rows d')"
    using Create_effect [OF assms(1) [unfolded Inr]] assms(2) by (simp add: rollouts_ok_def)
  then show ?thesis
    using rollouts_ok_put [OF assms(2) normalize_ok [OF v assms(4)]] r' by (simp add: create_done_def)
qed

lemma transition_ok:
  assumes "AppRolloutService_transition s now app v st at ex d = (x, d')" and "rollouts_ok (db_rows d)"
  shows "rollouts_ok (db_rows d')"
proof (cases x)
  case (Inl e)
  then show ?thesis using assms transition_Inl by metis
next
  case (Inr r')
  from transition_Inr(1) [OF assms(1) [unfolded Inr]] obtain r where
    "rollouts (db_rows d) (TrimSpace app) = Some r"
    "db_rows d' = db_rows d \<or> enter_state now st at r = Some r' \<and> db_rows d' = put_rollout r' (db_rows d)"
    by (auto simp: transition_done_def split: if_splits)
  then show ?thesis
    using assms(2) rollouts_okD enter_state_ok rollouts_ok_put by metis
qed

lemma Evaluate_ok:
  assumes "AppRolloutService_EvaluateHeartbeatRollout s now ex ev d = (x, d')"
    and "rollouts_ok (db_rows d)"
  shows "rollouts_ok (db_rows d')"
proof (cases x)
  case (Inl e)
  then show ?thesis using assms Evaluate_Inl by metis
next
  case (Inr res)
  obtain e where "observation_done (normalizedRolloutTime now (ev_EvaluatedAt ev)) e ev (db_rows d) res (db_rows d')"
    using Evaluate_Inr [OF assms(1) [unfolded Inr]] by metis
  then obtain r where "rollouts (db_rows d) (TrimSpace (ro_App e)) = Some r"
    "db_rows d' = db_rows d \<or>
      apply_observation (normalizedRolloutTime now (ev_EvaluatedAt ev)) ev r = (fst res, snd res) \<and>
      db_rows d' = put_rollout (fst res) (db_rows d)"
    by (auto simp: observation_done_def split: if_splits)
  then show ?thesis
    using assms(2) rollouts_okD apply_observation_ok rollouts_ok_put by metis
qed

end
