(* ===== verification/App_Rollout_Laws.thy ===== *)
theory App_Rollout_Laws
  imports App_Rollouts
begin

text \<open>
  What the operations on rollouts guarantee: histories of heartbeat observations and what they
  say about the rollout they led to, success on a healthy database, and the properties that hold
  of every sequence of calls.
\<close>

subsection \<open>Histories of observations\<close>

text \<open>
  The abstract behaviour of a heartbeat rollout: a log of accepted observations, each at its
  normalised time, drives the rollout from state to state. \<open>None\<close> is a log with an entry that
  the rollout would have ignored.
\<close>

type_synonym observation = "time \<times> HeartbeatRolloutEvaluation"

fun observe :: "AppRollout \<Rightarrow> observation list \<Rightarrow> AppRollout option" where
  "observe r [] = Some r"
| "observe r ((at, ev) # log) =
     (if observation_ignored at r then None else observe (fst (apply_observation at ev r)) log)"

text \<open>One call of the service, with the observation it got accepted, if any.\<close>

definition observe_call ::
  "bool \<Rightarrow> AppRollout \<Rightarrow> time \<times> HeartbeatRolloutEvaluation \<Rightarrow> db \<Rightarrow> observation list \<times> db" where
  "observe_call s ex call d =
     (case call of (now, ev) \<Rightarrow>
        (case AppRolloutService_EvaluateHeartbeatRollout s now (Some ex) ev d of
           (Inl _, d') \<Rightarrow> ([], d')
         | (Inr _, d') \<Rightarrow>
             (let at = normalizedRolloutTime now (ev_EvaluatedAt ev)
              in case rollouts (db_rows d) (TrimSpace (ro_App ex)) of
                   None \<Rightarrow> ([], d')
                 | Some r \<Rightarrow> (if observation_ignored at r then [] else [(at, ev)], d'))))"

fun observe_calls ::
  "bool \<Rightarrow> AppRollout \<Rightarrow> (time \<times> HeartbeatRolloutEvaluation) list \<Rightarrow> db \<Rightarrow> observation list \<times> db" where
  "observe_calls s ex [] d = ([], d)"
| "observe_calls s ex (call # calls) d =
     (case observe_call s ex call d of
        (log, d') \<Rightarrow> (case observe_calls s ex calls d' of (log', d'') \<Rightarrow> (log @ log', d'')))"

lemma observe_append:
  "observe r (log @ log') = Option.bind (observe r log) (\<lambda>r. observe r log')"
  by (induction log arbitrary: r) auto

text \<open>All fields but the failure summary, which the store may hold in another form.\<close>

definition core_fields :: "AppRollout \<Rightarrow> AppRollout" where
  "core_fields r = r\<lparr>ro_FailureSummary := None\<rparr>"

lemma core_fields_simps [simp]:
  "core_fields (r\<lparr>ro_FailureSummary := s\<rparr>) = core_fields r"
  "core_fields (core_fields r) = core_fields r"
  by (simp_all add: core_fields_def)

lemma core_fields_eqD:
  assumes "core_fields r = core_fields r'"
  shows "ro_State r = ro_State r'" "ro_HealthySince r = ro_HealthySince r'"
    "ro_HeartbeatEvaluatedAt r = ro_HeartbeatEvaluatedAt r'" "ro_Deadline r = ro_Deadline r'"
    "ro_CompletedAt r = ro_CompletedAt r'" "ro_FailedAt r = ro_FailedAt r'"
  using assms by (cases r; cases r'; simp add: core_fields_def)+

lemma observation_ignored_core:
  "core_fields r = core_fields r' \<Longrightarrow> observation_ignored at r = observation_ignored at r'"
  by (auto simp: observation_ignored_def dest: core_fields_eqD)

lemma apply_observation_core:
  assumes "core_fields r = core_fields r'"
  shows "core_fields (fst (apply_observation at ev r)) = core_fields (fst (apply_observation at ev r'))"
  using assms by (cases r; cases r') (auto simp: core_fields_def apply_observation_def Let_def)

lemma observe_core:
  assumes "core_fields r = core_fields r'"
  shows "map_option core_fields (observe r log) = map_option core_fields (observe r' log)"
  using assms
proof (induction log arbitrary: r r')
  case (Cons x log r r')
  obtain at ev where x: "x = (at, ev)" by (cases x)
  show ?case
    using Cons.IH [OF apply_observation_core [OF Cons.prems]] observation_ignored_core [OF Cons.prems]
    by (simp add: x)
qed simp

text \<open>Refinement: calls on the database act on the row as their accepted observations do.\<close>

lemma observe_call_refines:
  assumes "observe_call s ex call d = (log, d')" and "rollouts_ok (db_rows d)"
    and "rollouts (db_rows d) (TrimSpace (ro_App ex)) = Some r"
  shows "\<exists>r'. rollouts (db_rows d') (TrimSpace (ro_App ex)) = Some r' \<and>
      map_option core_fields (observe r log) = Some (core_fields r')"
    and "rollouts_ok (db_rows d')"
proof -
  obtain now ev where call: "call = (now, ev)" by (cases call)
  let ?at = "normalizedRolloutTime now (ev_EvaluatedAt ev)"
  obtain x where ev: "AppRolloutService_EvaluateHeartbeatRollout s now (Some ex) ev d = (x, d')"
    using assms(1) by (auto simp: observe_call_def call Let_def split: prod.splits sum.splits option.splits)
  show "rollouts_ok (db_rows d')" by (rule Evaluate_ok [OF ev assms(2)])
  note ok = rollouts_okD [OF assms(2,3)]
  show "\<exists>r'. rollouts (db_rows d') (TrimSpace (ro_App ex)) = Some r' \<and>
      map_option core_fields (observe r log) = Some (core_fields r')"
  proof (cases x)
    case (Inl e)
    then have "log = []" using assms(1) ev by (simp add: observe_call_def call)
    then show ?thesis using Evaluate_Inl [OF ev [unfolded Inl]] assms(3) by simp
  next
    case (Inr res)
    from Evaluate_Inr [OF ev [unfolded Inr]]
    have done': "observation_done ?at ex ev (db_rows d) res (db_rows d')" by auto
    show ?thesis
    proof (cases "observation_ignored ?at r")
      case True
      then have "log = []" using assms(1,3) ev Inr by (simp add: observe_call_def call Let_def)
      then show ?thesis using done' True assms(3) by (simp add: observation_done_def)
    next
      case False
      then have log: "log = [(?at, ev)]" using assms(1,3) ev Inr by (simp add: observe_call_def call Let_def)
      obtain r' b where app: "apply_observation ?at ev r = (r', b)" by fastforce
      have rows: "db_rows d' = put_rollout r' (db_rows d)"
        using done' False assms(3) app by (simp add: observation_done_def)
      show ?thesis
        using rollouts_put [OF apply_observation_ok [OF app ok]] False
        by (simp add: rows log app)
    qed
  qed
qed

lemma observe_calls_refines:
  assumes "observe_calls s ex calls d = (log, d')" and "rollouts_ok (db_rows d)"
    and "rollouts (db_rows d) (TrimSpace (ro_App ex)) = Some r"
  shows "\<exists>r'. rollouts (db_rows d') (TrimSpace (ro_App ex)) = Some r' \<and>
    map_option core_fields (observe r log) = Some (core_fields r')"
  using assms
proof (induction calls arbitrary: d r log)
  case (Cons call calls d r log)
  obtain log1 d1 where c: "observe_call s ex call d = (log1, d1)" by (cases "observe_call s ex call d")
  obtain log2 where cs: "observe_calls s ex calls d1 = (log2, d')" and log: "log = log1 @ log2"
    using Cons.prems(1) c by (auto split: prod.splits)
  from observe_call_refines(1) [OF c Cons.prems(2,3)] obtain r1 where
    r1: "rollouts (db_rows d1) (TrimSpace (ro_App ex)) = Some r1"
    and o1: "map_option core_fields (observe r log1) = Some (core_fields r1)" by blast
  from o1 obtain r1' where r1': "observe r log1 = Some r1'" "core_fields r1' = core_fields r1" by auto
  from Cons.IH [OF cs observe_call_refines(2) [OF c Cons.prems(2,3)] r1]
  show ?case using observe_core [OF r1'(2), of log2] by (auto simp: log observe_append r1')
qed simp

text \<open>A stretch of healthy observations at the end of a log, from \<open>h\<close> on.\<close>

definition healthy_stretch :: "observation list \<Rightarrow> time \<Rightarrow> observation list \<Rightarrow> bool" where
  "healthy_stretch log h stretch \<longleftrightarrow>
     suffix stretch log \<and> stretch \<noteq> [] \<and> list_all (\<lambda>(_, ev). ev_Healthy ev) stretch \<and>
     fst (hd stretch) = h"

lemma healthy_stretch_snoc:
  "healthy_stretch log h st \<Longrightarrow> ev_Healthy ev \<Longrightarrow> healthy_stretch (log @ [(at, ev)]) h (st @ [(at, ev)])"
  by (auto simp: healthy_stretch_def suffix_def)

lemma healthy_stretch_new: "ev_Healthy ev \<Longrightarrow> healthy_stretch (log @ [(at, ev)]) at [(at, ev)]"
  by (auto simp: healthy_stretch_def suffix_def)

definition stable_until :: "observation list \<Rightarrow> time \<Rightarrow> time \<Rightarrow> bool" where
  "stable_until log deadline t \<longleftrightarrow>
     (\<exists>h stretch. healthy_stretch log h stretch \<and> fst (last stretch) = t \<and>
       h + ev_StabilityWindow (snd (last stretch)) \<le> t \<and>
       h + ev_StabilityWindow (snd (last stretch)) \<le> deadline)"

text \<open>What a log says about the rollout it led to.\<close>

definition explains :: "AppRollout \<Rightarrow> observation list \<Rightarrow> AppRollout \<Rightarrow> bool" where
  "explains r0 log r \<longleftrightarrow> ro_Deadline r = ro_Deadline r0 \<and>
     (case ro_State r of
        AppRolloutStateRestarting \<Rightarrow>
          (ro_HealthySince r \<noteq> 0 \<longrightarrow> (\<exists>stretch. healthy_stretch log (ro_HealthySince r) stretch)) \<and>
          (log \<noteq> [] \<longrightarrow> fst (last log) < ro_Deadline r0)
      | AppRolloutStateComplete \<Rightarrow> stable_until log (ro_Deadline r0) (ro_CompletedAt r)
      | AppRolloutStateFailed \<Rightarrow>
          log \<noteq> [] \<and> ro_FailedAt r = fst (last log) \<and> ro_Deadline r0 \<le> fst (last log)
      | _ \<Rightarrow> False)"

lemma explains_step:
  assumes "explains r0 log r" and "\<not> observation_ignored at r" and "apply_observation at ev r = (r', b)"
  shows "explains r0 (log @ [(at, ev)]) r'"
proof -
  have st: "ro_State r = AppRolloutStateRestarting" using assms(2) by (simp add: observation_ignored_def)
  have dl: "ro_Deadline r = ro_Deadline r0" "ro_Deadline r' = ro_Deadline r0"
    using assms(1) apply_observation_frame(8) [OF assms(3)] by (simp_all add: explains_def)
  have stretch: "\<exists>st. healthy_stretch (log @ [(at, ev)]) (ro_HealthySince r') st \<and> last st = (at, ev)"
    if h: "ev_Healthy ev" "ro_HealthySince r' \<noteq> 0"
  proof (cases "ro_HealthySince r = 0")
    case True
    then have "ro_HealthySince r' = at"
      using assms(3) h by (auto simp: apply_observation_def Let_def split: if_splits)
    then show ?thesis using healthy_stretch_new [OF h(1)] by fastforce
  next
    case False
    then have eq: "ro_HealthySince r' = ro_HealthySince r"
      using assms(3) h by (auto simp: apply_observation_def Let_def split: if_splits)
    from False assms(1) st obtain s where "healthy_stretch log (ro_HealthySince r) s"
      by (auto simp: explains_def)
    from healthy_stretch_snoc [OF this h(1)] show ?thesis using eq by fastforce
  qed
  consider (unhealthy) "\<not> ev_Healthy ev \<or> ro_HealthySince r' = 0" | (healthy) "ev_Healthy ev" "ro_HealthySince r' \<noteq> 0"
    by blast
  then show ?thesis
  proof cases
    case unhealthy
    then show ?thesis
      using assms(3) dl st
      by (auto simp: explains_def apply_observation_def Let_def split: if_splits)
  next
    case healthy
    from stretch [OF this] obtain s where
      s: "healthy_stretch (log @ [(at, ev)]) (ro_HealthySince r') s" "last s = (at, ev)" by blast
    have "stable_until (log @ [(at, ev)]) (ro_Deadline r0) at"
      if "ro_HealthySince r' + ev_StabilityWindow ev \<le> at"
        "ro_HealthySince r' + ev_StabilityWindow ev \<le> ro_Deadline r0"
      unfolding stable_until_def using s that by (intro exI [of _ "ro_HealthySince r'"] exI [of _ s]) simp
    then show ?thesis
      using assms(3) dl st s healthy
      by (auto simp: explains_def apply_observation_def Let_def split: if_splits)
  qed
qed

lemma observe_explains:
  assumes "observe r0 log = Some r" and "ro_State r0 = AppRolloutStateRestarting"
    and "ro_HealthySince r0 = 0"
  shows "explains r0 log r"
  using assms(1)
proof (induction log arbitrary: r rule: rev_induct)
  case Nil
  then show ?case using assms(2,3) by (auto simp: explains_def)
next
  case (snoc x log)
  obtain at ev where x: "x = (at, ev)" by (cases x)
  from snoc.prems obtain r1 where r1: "observe r0 log = Some r1" and ni: "\<not> observation_ignored at r1"
    and r: "r = fst (apply_observation at ev r1)"
    by (auto simp: x observe_append bind_eq_Some_conv split: if_splits)
  obtain b where "apply_observation at ev r1 = (r, b)" using r by (cases "apply_observation at ev r1") simp
  from explains_step [OF snoc.IH [OF r1] ni this] show ?case by (simp add: x)
qed

lemma explains_core:
  "core_fields r = core_fields r' \<Longrightarrow> explains r0 log r \<Longrightarrow> explains r0 log r'"
  using core_fields_eqD [of r r'] by (simp add: explains_def split: AppRolloutState.splits)

text \<open>The times of a log never decrease.\<close>

lemma observe_sorted:
  assumes "observe r log = Some r'" and "\<And>at ev. (at, ev) \<in> set log \<Longrightarrow> 0 < at"
  shows "sorted (map fst log)"
proof -
  have "sorted (map fst log) \<and> (log \<noteq> [] \<longrightarrow> ro_HeartbeatEvaluatedAt r' = fst (last log))"
    using assms
  proof (induction log arbitrary: r' rule: rev_induct)
    case (snoc x log)
    obtain at ev where x: "x = (at, ev)" by (cases x)
    from snoc.prems(1) obtain r1 where r1: "observe r log = Some r1" and ni: "\<not> observation_ignored at r1"
      and r': "r' = fst (apply_observation at ev r1)"
      by (auto simp: x observe_append bind_eq_Some_conv split: if_splits)
    have IH: "sorted (map fst log)" "log \<noteq> [] \<Longrightarrow> ro_HeartbeatEvaluatedAt r1 = fst (last log)"
      using snoc.IH [OF r1] snoc.prems(2) by auto
    have pos: "0 < fst (last log)" if "log \<noteq> []"
      using snoc.prems(2) [of "fst (last log)" "snd (last log)"] that by simp
    have le: "fst y \<le> at" if "y \<in> set log" for y
    proof -
      have ne: "log \<noteq> []" using that by auto
      have "fst (last log) \<le> at"
        using ni IH(2) [OF ne] pos [OF ne] by (auto simp: observation_ignored_def)
      moreover have "fst y \<le> fst (last log)"
      proof -
        have log: "log = butlast log @ [last log]" using ne by simp
        have "sorted (map fst (butlast log @ [last log]))" and "y \<in> set (butlast log @ [last log])"
          using IH(1) that log by simp_all
        then show ?thesis by (auto simp: sorted_append)
      qed
      ultimately show ?thesis by simp
    qed
    obtain b where "apply_observation at ev r1 = (r', b)" using r' by (cases "apply_observation at ev r1") simp
    from apply_observation_frame(9) [OF this] show ?case
      using IH(1) le by (auto simp: x sorted_append)
  qed simp
  then show ?thesis by simp
qed

subsection \<open>Calls on a healthy database succeed\<close>

lemma rollouts_no_conflict:
  "schema_ok d \<Longrightarrow> \<not> hasUniqueConflict (db_stores d StoreAppRollouts) r ignore"
  using schema_ok_indexes [OF _ schema_member(1)]
  by (intro no_unique_conflict) (simp add: AppRolloutsSchema_def index_def)

lemma healthy_put_rollout:
  assumes "db_healthy d" and "schema_ok d"
  shows "store_Put StoreAppRollouts (appRolloutRecord r) d =
    (Inr (), set_rows StoreAppRollouts (put_rollout r (db_rows d) StoreAppRollouts)
      (d\<lparr>db_tick := Suc (db_tick d)\<rparr>))"
  using healthy_store(5) [OF assms(1) rollouts_no_conflict [OF assms(2)]]
  by (simp add: put_rollout_def row_put_def)

lemma rollouts_map_of:
  "rollouts c k = Some r \<longleftrightarrow> (\<exists>rec. map_of (c StoreAppRollouts) k = Some rec \<and> r = recordToAppRollout rec)"
  by (auto simp: rollouts_def)

lemma Evaluate_healthy:
  assumes "db_healthy d" and "schema_ok d" and "s" and "0 < ev_StabilityWindow ev"
    and "rollouts (db_rows d) (TrimSpace (ro_App ex)) = Some r" and "observation_epoch r ex"
  shows "\<exists>d'. AppRolloutService_EvaluateHeartbeatRollout s now (Some ex) ev d =
    (Inr (let at = normalizedRolloutTime now (ev_EvaluatedAt ev)
          in if observation_ignored at r then (r, False) else apply_observation at ev r), d')"
proof -
  let ?at = "normalizedRolloutTime now (ev_EvaluatedAt ev)"
  let ?d = "d\<lparr>db_tick := Suc (db_tick d)\<rparr>"
  have h: "db_healthy ?d" "schema_ok ?d" using assms by simp_all
  obtain rec where rec: "map_of (db_rows d StoreAppRollouts) (TrimSpace (ro_App ex)) = Some rec"
    and r: "r = recordToAppRollout rec" using assms(5) by (auto simp: rollouts_map_of)
  obtain r' b where app: "apply_observation ?at ev r = (r', b)" by fastforce
  obtain msg d2 where "evaluate_body ?at ex ev ?d =
      (TxCommit msg (if observation_ignored ?at r then (r, False) else (r', b)), d2)" and "db_healthy d2"
    using assms(6) h app
    by (cases "observation_ignored ?at r")
      (simp_all add: evaluate_body_def healthy_store(1) healthy_put_rollout rec r Let_def)
  from with_tx_healthy [where body = "evaluate_body ?at ex ev", OF assms(1) this] show ?thesis
    using assms(3,4) app by (simp add: AppRolloutService_EvaluateHeartbeatRollout_def Let_def)
qed

lemma transition_healthy:
  assumes "db_healthy d" and "schema_ok d" and "s" and "TrimSpace app \<noteq> ''''" and "TrimSpace v \<noteq> ''''"
    and "rollouts (db_rows d) (TrimSpace app) = Some r" and "TrimSpace (ro_Version r) = TrimSpace v"
    and "\<And>e. ex = Some e \<Longrightarrow> epoch_matches r e" and "isActiveRolloutState (ro_State r)"
    and "enter_state now st at r = Some r'"
  shows "\<exists>d'. AppRolloutService_transition s now app v st at ex d =
    (Inr (if ro_State r = st then r else r'), d')"
proof -
  let ?d = "d\<lparr>db_tick := Suc (db_tick d)\<rparr>"
  have h: "db_healthy ?d" "schema_ok ?d" using assms by simp_all
  obtain rec where rec: "map_of (db_rows d StoreAppRollouts) (TrimSpace app) = Some rec"
    and r: "r = recordToAppRollout rec" using assms(6) by (auto simp: rollouts_map_of)
  obtain msg d2 where "transition_body now (TrimSpace app) (TrimSpace v) st at ex ?d =
      (TxCommit msg (if ro_State r = st then r else r'), d2)" and "db_healthy d2"
    using assms(7-10) h
    by (cases ex; cases "ro_State r = st")
      (simp_all add: transition_body_def healthy_store(1) healthy_put_rollout rec r Let_def)
  from with_tx_healthy [where
      body = "transition_body now (TrimSpace app) (TrimSpace v) st at ex", OF assms(1) this] show ?thesis
    using assms(3-5) by (simp add: AppRolloutService_transition_def)
qed

lemma create_body_healthy:
  assumes "db_healthy d" and "schema_ok d" and "wf_alist (db_rows d StoreAppRollouts)"
    and "separates (db_rows d StoreAppRollouts) (ro_App r)"
  shows "\<exists>d'. create_body op r d =
    (if has_active (db_rows d) (ro_App r)
     then TxFail ErrAppRolloutActive else TxCommit (op @ '': commit'') r, d') \<and> db_healthy d'"
proof -
  let ?d = "d\<lparr>db_tick := Suc (db_tick d)\<rparr>"
  have h: "db_healthy ?d" "schema_ok ?d" using assms by simp_all
  have get: "store_GetAll StoreAppRollouts (QKey (KString (ro_App r))) 1 d =
    (Inr (case map_of (db_rows d StoreAppRollouts) (ro_App r) of None \<Rightarrow> [] | Some r \<Rightarrow> [r]), ?d)"
    using healthy_store(2) [OF assms(1)] rows_GetAll_key [OF assms(4,3)] by simp
  show ?thesis
  proof (cases "map_of (db_rows d StoreAppRollouts) (ro_App r)")
    case None
    then have "store_Add StoreAppRollouts (appRolloutRecord r) ?d =
      (Inr (), set_rows StoreAppRollouts (AList.update (ro_App r) (appRolloutRecord r)
        (db_rows d StoreAppRollouts)) (?d\<lparr>db_tick := Suc (db_tick ?d)\<rparr>))"
      using healthy_store(6) [of ?d StoreAppRollouts "appRolloutRecord r"] h rollouts_no_conflict by simp
    with None h show ?thesis by (simp add: create_body_def get rollouts_def has_active_def del: One_nat_def)
  next
    case (Some old)
    then show ?thesis
      using h by (auto simp: create_body_def get rollouts_def has_active_def healthy_put_rollout simp del: One_nat_def)
  qed
qed

lemma Create_healthy:
  assumes "db_healthy d" and "schema_ok d" and "s" and "validateAppRollout (Some r) = Inr ()"
    and "wf_alist (db_rows d StoreAppRollouts)"
    and "separates (db_rows d StoreAppRollouts) (TrimSpace (ro_App r))"
  shows "\<exists>d'. AppRolloutService_Create s now (Some r) d =
    (if has_active (db_rows d) (TrimSpace (ro_App r))
     then Inl ErrAppRolloutActive else Inr (normalizeAppRollout now r), d') \<and> db_healthy d'"
proof -
  let ?d = "d\<lparr>db_tick := Suc (db_tick d)\<rparr>" and ?n = "normalizeAppRollout now r"
  let ?op = "''create app rollout''"
  have n: "ro_App ?n = TrimSpace (ro_App r)" by (simp add: normalizeAppRollout_def)
  obtain d2 where b: "create_body ?op ?n ?d =
      (if has_active (db_rows d) (TrimSpace (ro_App r))
       then TxFail ErrAppRolloutActive else TxCommit (?op @ '': commit'') ?n, d2)" and h2: "db_healthy d2"
    using create_body_healthy [of ?d ?n ?op] assms(1,2,5,6) n by auto
  show ?thesis
    using with_tx_healthy [where body = "create_body ?op ?n", OF assms(1) b h2] assms(1,3,4) h2
    by (simp add: AppRolloutService_Create_def)
qed

subsection \<open>Sequences of calls\<close>

datatype rollout_call =
    CallCreate time AppRollout
  | CallTransition time string string AppRolloutState time "AppRollout option"
  | CallEvaluate time "AppRollout option" HeartbeatRolloutEvaluation

fun run_call :: "bool \<Rightarrow> rollout_call \<Rightarrow> db \<Rightarrow> db" where
  "run_call s (CallCreate now r) d = snd (AppRolloutService_Create s now (Some r) d)"
| "run_call s (CallTransition now app v st at ex) d =
     snd (AppRolloutService_transition s now app v st at ex d)"
| "run_call s (CallEvaluate now ex ev) d =
     snd (AppRolloutService_EvaluateHeartbeatRollout s now ex ev d)"

definition run_calls :: "bool \<Rightarrow> rollout_call list \<Rightarrow> db \<Rightarrow> db" where
  "run_calls s calls d = fold (run_call s) calls d"

text \<open>The app a call creates a rollout for.\<close>

fun creates :: "rollout_call \<Rightarrow> string option" where
  "creates (CallCreate _ r) = Some (TrimSpace (ro_App r))"
| "creates _ = None"

lemma put_rollout_other: "k \<noteq> ro_App r \<Longrightarrow> rollouts (put_rollout r c) k = rollouts c k"
  by (simp add: rollouts_def put_rollout_def)

text \<open>What a call, successful or not, can have done to the contents.\<close>

lemma Create_rows:
  assumes "AppRolloutService_Create s now (Some r) d = (x, d')"
  shows "db_rows d' = db_rows d \<or> db_rows d' = put_rollout (normalizeAppRollout now r) (db_rows d)"
proof (cases x)
  case (Inl e)
  then show ?thesis using assms Create_Inl by metis
next
  case (Inr r')
  from Create_tx [OF assms [unfolded Inr]] obtain op begin' where
    tx: "with_tx begin' (create_body op (normalizeAppRollout now r)) d = (Inr r', d')" by blast
  from tx show ?thesis
    by (rule with_tx_post) (use create_body_rows in metis, simp add: create_body_no_return)
qed

lemma transition_rows:
  assumes "AppRolloutService_transition s now app v st at ex d = (x, d')" and "rollouts_ok (db_rows d)"
  shows "db_rows d' = db_rows d \<or>
    (\<exists>r r'. rollouts (db_rows d) (TrimSpace app) = Some r \<and> isActiveRolloutState (ro_State r) \<and>
      enter_state now st at r = Some r' \<and> ro_App r' = TrimSpace app \<and>
      db_rows d' = put_rollout r' (db_rows d))"
proof (cases x)
  case (Inl e)
  then show ?thesis using assms transition_Inl by metis
next
  case (Inr r')
  from transition_Inr(1) [OF assms(1) [unfolded Inr]] obtain r where
    r: "rollouts (db_rows d) (TrimSpace app) = Some r"
    "db_rows d' = db_rows d \<or> isActiveRolloutState (ro_State r) \<and> enter_state now st at r = Some r' \<and>
      db_rows d' = put_rollout r' (db_rows d)"
    by (auto simp: transition_done_def split: if_splits)
  moreover have "ro_App r' = TrimSpace app" if "enter_state now st at r = Some r'"
    using enter_state_frame(1) [OF that] rollouts_okD [OF assms(2) r(1)] by (simp add: rollout_ok_def)
  ultimately show ?thesis by blast
qed

lemma Evaluate_rows:
  assumes "AppRolloutService_EvaluateHeartbeatRollout s now ex ev d = (x, d')"
    and "rollouts_ok (db_rows d)"
  shows "db_rows d' = db_rows d \<or>
    (\<exists>k r r' b. rollouts (db_rows d) k = Some r \<and> ro_State r = AppRolloutStateRestarting \<and>
      apply_observation (normalizedRolloutTime now (ev_EvaluatedAt ev)) ev r = (r', b) \<and> ro_App r' = k \<and>
      db_rows d' = put_rollout r' (db_rows d))"
proof (cases x)
  case (Inl e)
  then show ?thesis using assms Evaluate_Inl by metis
next
  case (Inr res)
  let ?at = "normalizedRolloutTime now (ev_EvaluatedAt ev)"
  obtain e where "observation_done ?at e ev (db_rows d) res (db_rows d')"
    using Evaluate_Inr [OF assms(1) [unfolded Inr]] by metis
  then obtain r where r: "rollouts (db_rows d) (TrimSpace (ro_App e)) = Some r"
    "db_rows d' = db_rows d \<or> \<not> observation_ignored ?at r \<and>
      apply_observation ?at ev r = (fst res, snd res) \<and> db_rows d' = put_rollout (fst res) (db_rows d)"
    by (auto simp: observation_done_def split: if_splits)
  moreover have "ro_App (fst res) = TrimSpace (ro_App e)" if "apply_observation ?at ev r = (fst res, snd res)"
    using apply_observation_frame(1) [OF that] rollouts_okD [OF assms(2) r(1)] by (simp add: rollout_ok_def)
  ultimately show ?thesis unfolding observation_ignored_def by blast
qed

text \<open>A call that creates a rollout names an app the store can tell apart, at a real time.\<close>

fun call_ok :: "rollout_call \<Rightarrow> bool" where
  "call_ok (CallCreate now r) \<longleftrightarrow> 0 < ro_CreatedAt r \<and> ascii (TrimSpace (ro_App r))"
| "call_ok _ \<longleftrightarrow> True"

definition rollouts_inv :: "contents \<Rightarrow> bool" where
  "rollouts_inv c \<longleftrightarrow> rollouts_ok c \<and> ascii_keys c StoreAppRollouts"

lemma ascii_keys_put_rollout:
  "ascii_keys c StoreAppRollouts \<Longrightarrow> ascii (ro_App r) \<Longrightarrow> ascii_keys (put_rollout r c) StoreAppRollouts"
  by (simp add: put_rollout_def ascii_keys_row_put)

lemma rollouts_key:
  "ascii_keys c StoreAppRollouts \<Longrightarrow> rollouts c k = Some r \<Longrightarrow> ascii k"
  unfolding rollouts_map_of ascii_keys_def using map_of_SomeD by force

lemma run_call_inv:
  assumes "rollouts_inv (db_rows d)" and "call_ok call"
  shows "rollouts_inv (db_rows (run_call s call d))"
proof (cases call)
  case (CallCreate now r)
  obtain x d' where c: "AppRolloutService_Create s now (Some r) d = (x, d')" by fastforce
  have ok: "ascii (TrimSpace (ro_App r))" "0 < ro_CreatedAt r" using assms(2) CallCreate by auto
  then have "rollouts_ok (db_rows d')"
    using Create_ok [OF c] assms(1) ascii_keys_separates by (simp add: rollouts_inv_def)
  moreover have "ascii_keys (db_rows d') StoreAppRollouts"
    using Create_rows [OF c] assms(1) ok ascii_keys_put_rollout [of "db_rows d" "normalizeAppRollout now r"]
    by (auto simp: rollouts_inv_def normalizeAppRollout_def)
  ultimately show ?thesis using CallCreate c by (simp add: rollouts_inv_def)
next
  case (CallTransition now app v st at ex)
  obtain x d' where c: "AppRolloutService_transition s now app v st at ex d = (x, d')" by fastforce
  have ok: "rollouts_ok (db_rows d)" using assms(1) by (simp add: rollouts_inv_def)
  have "ascii_keys (db_rows d') StoreAppRollouts"
    using transition_rows [OF c ok] assms(1) ascii_keys_put_rollout rollouts_key
    unfolding rollouts_inv_def by metis
  then show ?thesis using CallTransition c transition_ok [OF c ok] by (simp add: rollouts_inv_def)
next
  case (CallEvaluate now ex ev)
  obtain x d' where c: "AppRolloutService_EvaluateHeartbeatRollout s now ex ev d = (x, d')" by fastforce
  have ok: "rollouts_ok (db_rows d)" using assms(1) by (simp add: rollouts_inv_def)
  have "ascii_keys (db_rows d') StoreAppRollouts"
    using Evaluate_rows [OF c ok] assms(1) ascii_keys_put_rollout rollouts_key
    unfolding rollouts_inv_def by metis
  then show ?thesis using CallEvaluate c Evaluate_ok [OF c ok] by (simp add: rollouts_inv_def)
qed

lemma run_calls_inv:
  "rollouts_inv (db_rows d) \<Longrightarrow> list_all call_ok calls \<Longrightarrow> rollouts_inv (db_rows (run_calls s calls d))"
  unfolding run_calls_def
  by (induction calls arbitrary: d) (auto intro: run_call_inv)

lemma run_call_terminal:
  assumes "rollouts_inv (db_rows d)" and "creates call \<noteq> Some k"
    and "rollouts (db_rows d) k = Some r" and "\<not> isActiveRolloutState (ro_State r)"
  shows "rollouts (db_rows (run_call s call d)) k = Some r"
proof (cases call)
  case (CallCreate now r')
  obtain x d' where c: "AppRolloutService_Create s now (Some r') d = (x, d')" by fastforce
  have "rollouts (db_rows d') k = rollouts (db_rows d) k"
    using Create_rows [OF c] put_rollout_other [of k "normalizeAppRollout now r'"] assms(2) CallCreate
    by (auto simp: normalizeAppRollout_def)
  then show ?thesis using assms(3) CallCreate c by simp
next
  case (CallTransition now app v st at ex)
  obtain x d' where c: "AppRolloutService_transition s now app v st at ex d = (x, d')" by fastforce
  have "rollouts (db_rows d') k = Some r"
    using transition_rows [OF c] assms(1,3,4) put_rollout_other [of k]
    by (cases "k = TrimSpace app") (auto simp: rollouts_inv_def)
  then show ?thesis using CallTransition c by simp
next
  case (CallEvaluate now ex ev)
  obtain x d' where c: "AppRolloutService_EvaluateHeartbeatRollout s now ex ev d = (x, d')" by fastforce
  from Evaluate_rows [OF c] assms(1) consider "db_rows d' = db_rows d"
    | k' r0 r' where "rollouts (db_rows d) k' = Some r0" "ro_State r0 = AppRolloutStateRestarting"
      "ro_App r' = k'" "db_rows d' = put_rollout r' (db_rows d)"
    unfolding rollouts_inv_def by blast
  then have "rollouts (db_rows d') k = Some r"
  proof cases
    case 2
    then have "k' \<noteq> k" using assms(3,4) by (auto simp: isActiveRolloutState_def)
    with 2 assms(3) put_rollout_other [of k r'] show ?thesis by simp
  qed (use assms(3) in simp)
  then show ?thesis using CallEvaluate c by simp
qed

lemma run_calls_terminal:
  assumes "rollouts_inv (db_rows d)" and "list_all call_ok calls"
    and "list_all (\<lambda>call. creates call \<noteq> Some k) calls"
    and "rollouts (db_rows d) k = Some r" and "\<not> isActiveRolloutState (ro_State r)"
  shows "rollouts (db_rows (run_calls s calls d)) k = Some r"
  using assms unfolding run_calls_def
proof (induction calls arbitrary: d)
  case (Cons call calls d)
  then show ?case
    using run_call_inv [of d call s] run_call_terminal [of d call k r s] by simp
qed simp

subsection \<open>A concrete rollout\<close>

definition sample_rollout :: AppRollout where
  "sample_rollout =
     \<lparr>ro_App = ''mail'', ro_Version = ''v2'', ro_State = AppRolloutStateRestarting,
      ro_Mode = AppRolloutModeHeartbeat, ro_TargetSourceVersion = ''s1'',
      ro_MinimumHealthyInstances = 2, ro_CreatedAt = 1000 * Second, ro_EnrollmentEndsAt = 1000 * Second,
      ro_Deadline = 1060 * Second, ro_HealthySince = 0, ro_HeartbeatEvaluatedAt = 0, ro_CompletedAt = 0,
      ro_FailedAt = 0, ro_FailureSummary = None\<rparr>"

definition sample_summary :: AppRolloutFailureSummary where
  "sample_summary =
     \<lparr>fs_LiveInstances = 2, fs_MinimumHealthyInstances = 2, fs_RunningDesiredVersion = 1,
      fs_NotRunning = 1, fs_Mismatched = 0, fs_Errors = 0, fs_SourceVersion = ''s1'', fs_Version = ''v2'',
      fs_EvaluatedAt = 1060 * Second\<rparr>"

definition sample_evaluation :: "bool \<Rightarrow> time \<Rightarrow> HeartbeatRolloutEvaluation" where
  "sample_evaluation healthy at =
     \<lparr>ev_Healthy = healthy, ev_StabilityWindow = 10 * Second, ev_EvaluatedAt = at,
      ev_FailureSummary = sample_summary\<rparr>"

definition rollout_db :: "AppRollout \<Rightarrow> db" where
  "rollout_db r = set_rows StoreAppRollouts [(ro_App r, appRolloutRecord r)] empty_db"

lemma rollout_db_simps [simp]: "db_healthy (rollout_db r)" "schema_ok (rollout_db r)"
  by (simp_all add: rollout_db_def)

lemma rollout_db_rollouts:
  "canonical r \<Longrightarrow> rollouts (db_rows (rollout_db r)) =
    [ro_App r \<mapsto> r\<lparr>ro_FailureSummary := stored_summary (ro_FailureSummary r)\<rparr>]"
  by (auto simp: rollouts_def rollout_db_def stored_rollout fun_eq_iff)

lemma rollout_db_inv:
  assumes "rollout_ok (ro_App r) r" and "ascii (ro_App r)"
  shows "rollouts_inv (db_rows (rollout_db r))"
proof -
  have "rollouts_ok (db_rows (rollout_db r))"
    using rollout_ok_stored [OF assms(1)]
    unfolding rollouts_ok_def rollout_db_rollouts [OF rollout_ok_canonical [OF assms(1)]]
    by (auto simp: rollout_db_def)
  then show ?thesis using assms(2) by (simp add: rollouts_inv_def ascii_keys_def rollout_db_def)
qed

lemma sample_trims [simp]:
  "TrimSpace ''mail'' = ''mail''" "TrimSpace ''v2'' = ''v2''" "TrimSpace ''s1'' = ''s1''"
  by (simp_all add: is_graph_def)

lemma sample_rollout_ok: "rollout_ok ''mail'' (sample_rollout\<lparr>ro_State := AppRolloutStateFailed\<rparr>)"
    "rollout_ok ''mail'' sample_rollout"
  by (simp_all add: rollout_ok_def sample_rollout_def Second_def)

lemma sample_rollouts:
  "rollouts (db_rows (rollout_db sample_rollout)) = [''mail'' \<mapsto> sample_rollout]"
  "rollouts (db_rows (rollout_db (sample_rollout\<lparr>ro_State := AppRolloutStateFailed\<rparr>))) =
    [''mail'' \<mapsto> sample_rollout\<lparr>ro_State := AppRolloutStateFailed\<rparr>]"
  using rollout_db_rollouts [OF rollout_ok_canonical [OF sample_rollout_ok(2)]]
    rollout_db_rollouts [OF rollout_ok_canonical [OF sample_rollout_ok(1)]]
  by (simp_all add: sample_rollout_def)

lemma sample_inv:
  "rollouts_inv (db_rows (rollout_db sample_rollout))"
  "rollouts_inv (db_rows (rollout_db (sample_rollout\<lparr>ro_State := AppRolloutStateFailed\<rparr>)))"
  using rollout_db_inv [of sample_rollout] sample_rollout_ok
    rollout_db_inv [of "sample_rollout\<lparr>ro_State := AppRolloutStateFailed\<rparr>"]
  by (simp_all add: sample_rollout_def ascii_def)

subsection \<open>Properties\<close>

text \<open>
  C1. A finished rollout is frozen: whatever sequence of transitions, heartbeat evaluations and
  creations for other apps the services run, with any provider failures in between, the row of a
  rollout that is complete or failed stays exactly as it was. Only a new rollout replaces it.
\<close>

theorem finished_rollout_frozen:
  assumes "rollouts_inv (db_rows d)" and "list_all call_ok calls"
    and "list_all (\<lambda>call. creates call \<noteq> Some app) calls"
    and "rollouts (db_rows d) app = Some r"
    and "ro_State r \<in> {AppRolloutStateComplete, AppRolloutStateFailed}"
  shows "rollouts (db_rows (run_calls s calls d)) app = Some r"
  using run_calls_terminal [OF assms(1-4)] assms(5) by (auto simp: isActiveRolloutState_def)

theorem finished_rollout_frozen_witness:
  "rollouts (db_rows (run_calls True
      [CallTransition 5 ''mail'' ''v2'' AppRolloutStateComplete 7 None,
       CallEvaluate 5 (Some sample_rollout) (sample_evaluation True (1010 * Second))]
      (rollout_db (sample_rollout\<lparr>ro_State := AppRolloutStateFailed\<rparr>)))) ''mail'' =
    Some (sample_rollout\<lparr>ro_State := AppRolloutStateFailed\<rparr>)"
  by (rule finished_rollout_frozen) (simp_all add: sample_inv sample_rollouts)

text \<open>
  C15. The invariant of the rollout rows (each keyed by its own app, in one of the four states and
  two modes, with ordered times, a heartbeat rollout never enrolling, a complete rollout without a
  failure summary) is kept by every sequence of calls, whatever fails.
\<close>

theorem rollout_invariant_kept:
  assumes "rollouts_inv (db_rows d)" and "list_all call_ok calls"
  shows "rollouts_inv (db_rows (run_calls s calls d))"
  using assms by (rule run_calls_inv)

theorem rollout_invariant_kept_witness:
  "rollouts_inv (db_rows (run_calls True
      [CallTransition 5 ''mail'' ''v2'' AppRolloutStateFailed (1020 * Second) None,
       CallCreate 5 sample_rollout] (rollout_db sample_rollout)))"
  by (rule rollout_invariant_kept)
    (simp_all add: sample_inv, simp_all add: sample_rollout_def Second_def ascii_def)


definition sample_calls :: "(time \<times> HeartbeatRolloutEvaluation) list" where
  "sample_calls =
     [(5, sample_evaluation False (1004 * Second)), (5, sample_evaluation True (1010 * Second)),
      (5, sample_evaluation False (1006 * Second)), (5, sample_evaluation True (1021 * Second))]"

lemma sample_completes:
  "map_option (\<lambda>r. (ro_State r, ro_HealthySince r, ro_CompletedAt r))
     (rollouts (db_rows (snd (observe_calls True sample_rollout sample_calls (rollout_db sample_rollout)))) ''mail'') =
   Some (AppRolloutStateComplete, 1010 * Second, 1021 * Second)"
  by code_simp



lemma sample_fails:
  "map_option (\<lambda>r. (ro_State r, ro_FailedAt r))
     (rollouts (db_rows (snd (observe_calls True sample_rollout
       [(5, sample_evaluation True (1055 * Second)), (5, sample_evaluation True (1070 * Second))]
       (rollout_db sample_rollout)))) ''mail'') =
   Some (AppRolloutStateFailed, 1070 * Second)"
  by code_simp




text \<open>
  C14. A delayed evaluation never overwrites a newer one: the call changes nothing, and an
  evaluation that does change the row moves its evaluation time forward.
\<close>

theorem delayed_evaluation_ignored:
  assumes "AppRolloutService_EvaluateHeartbeatRollout s now (Some ex) ev d = (Inr (r', b), d')"
    and "rollouts (db_rows d) (TrimSpace (ro_App ex)) = Some r" and "ro_HeartbeatEvaluatedAt r \<noteq> 0"
  shows "if normalizedRolloutTime now (ev_EvaluatedAt ev) < ro_HeartbeatEvaluatedAt r
    then r' = r \<and> \<not> b \<and> db_rows d' = db_rows d
    else db_rows d' = db_rows d \<or>
      ro_HeartbeatEvaluatedAt r' = normalizedRolloutTime now (ev_EvaluatedAt ev)"
proof -
  let ?at = "normalizedRolloutTime now (ev_EvaluatedAt ev)"
  have "observation_done ?at ex ev (db_rows d) (r', b) (db_rows d')"
    using Evaluate_Inr [OF assms(1)] by blast
  with assms(2,3) show ?thesis
    using apply_observation_frame(9) [of ?at ev r r' b]
    by (auto simp: observation_done_def observation_ignored_def split: if_splits)
qed


theorem delayed_evaluation_ignored_witness:
  "\<exists>d'. AppRolloutService_EvaluateHeartbeatRollout True 5 (Some sample_rollout)
      (sample_evaluation True (1003 * Second))
      (rollout_db (sample_rollout\<lparr>ro_HeartbeatEvaluatedAt := 1004 * Second\<rparr>)) =
    (Inr (sample_rollout\<lparr>ro_HeartbeatEvaluatedAt := 1004 * Second\<rparr>, False), d') \<and>
    db_rows d' = db_rows (rollout_db (sample_rollout\<lparr>ro_HeartbeatEvaluatedAt := 1004 * Second\<rparr>))"
proof -
  let ?r = "sample_rollout\<lparr>ro_HeartbeatEvaluatedAt := 1004 * Second\<rparr>"
  let ?call = "AppRolloutService_EvaluateHeartbeatRollout True 5 (Some sample_rollout)
      (sample_evaluation True (1003 * Second)) (rollout_db ?r)"
  have "fst ?call = Inr (?r, False)" by code_simp
  then obtain d' where c: "?call = (Inr (?r, False), d')" by (cases ?call) simp
  have "rollouts (db_rows (rollout_db ?r)) (TrimSpace (ro_App sample_rollout)) = Some ?r" by code_simp
  from delayed_evaluation_ignored [OF c this] show ?thesis
    using c by (simp add: sample_evaluation_def Second_def normalizedRolloutTime_def truncate_ms_def
        Truncate_def Millisecond_def Microsecond_def)
qed

text \<open>
  C16. Creating a rollout on a healthy database: the call is refused exactly when the app has an
  active rollout; otherwise it returns the normalised rollout, and reading the app back returns
  that rollout.
\<close>

theorem create_refused_iff_active:
  assumes "db_healthy d" and "schema_ok d" and "s" and "validateAppRollout (Some r) = Inr ()"
    and "rollouts_inv (db_rows d)" and "ascii (TrimSpace (ro_App r))" and "0 < ro_CreatedAt r"
    and "ro_FailureSummary r = None"
  shows "\<exists>d'. if has_active (db_rows d) (TrimSpace (ro_App r))
    then AppRolloutService_Create s now (Some r) d = (Inl ErrAppRolloutActive, d') \<and> db_rows d' = db_rows d
    else AppRolloutService_Create s now (Some r) d = (Inr (normalizeAppRollout now r), d') \<and>
      (\<exists>d''. AppRolloutService_Get s (ro_App r) d' = (Inr (normalizeAppRollout now r), d''))"
proof -
  let ?n = "normalizeAppRollout now r"
  have wf: "wf_alist (db_rows d StoreAppRollouts)"
    and sep: "separates (db_rows d StoreAppRollouts) (TrimSpace (ro_App r))"
    using assms(5,6) ascii_keys_separates by (auto simp: rollouts_inv_def rollouts_ok_def)
  note c = Create_healthy [OF assms(1-4) wf sep, of now]
  show ?thesis
  proof (cases "has_active (db_rows d) (TrimSpace (ro_App r))")
    case True
    then obtain d' where "AppRolloutService_Create s now (Some r) d = (Inl ErrAppRolloutActive, d')"
      using c by auto
    with True Create_Inl [OF this] show ?thesis by auto
  next
    case False
    then obtain d' where c': "AppRolloutService_Create s now (Some r) d = (Inr ?n, d')" and h: "db_healthy d'"
      using c by auto
    have n: "ro_App ?n = TrimSpace (ro_App r)" "ro_FailureSummary ?n = None"
      using assms(8) by (simp_all add: normalizeAppRollout_def)
    have "create_done ?n (db_rows d) (db_rows d')"
      using Create_effect [OF c'] sep wf n by simp
    then have "rollouts (db_rows d') (TrimSpace (ro_App r)) = Some ?n"
      using rollouts_put [OF normalize_ok [OF assms(4,7), of now], of "db_rows d"] n
      by (simp add: create_done_def)
    moreover have "TrimSpace (ro_App r) \<noteq> ''''"
      using assms(4) by (auto simp: validateAppRollout_def split: if_splits)
    ultimately have "\<exists>d''. AppRolloutService_Get s (ro_App r) d' = (Inr ?n, d'')"
      using assms(3) healthy_store(1) [OF h] by (auto simp: AppRolloutService_Get_def rollouts_map_of)
    with False c' show ?thesis by auto
  qed
qed

theorem create_refused_iff_active_witness:
  "\<exists>d'. AppRolloutService_Create True 5 (Some sample_rollout) (rollout_db sample_rollout) =
      (Inl ErrAppRolloutActive, d') \<and> db_rows d' = db_rows (rollout_db sample_rollout)"
proof -
  have v: "validateAppRollout (Some sample_rollout) = Inr ()" by code_simp
  have "ascii (TrimSpace (ro_App sample_rollout))" "0 < ro_CreatedAt sample_rollout"
    "ro_FailureSummary sample_rollout = None" "isActiveRolloutState (ro_State sample_rollout)"
    "TrimSpace (ro_App sample_rollout) = ''mail''"
    by (simp_all add: sample_rollout_def ascii_def Second_def isActiveRolloutState_def)
  with create_refused_iff_active [of "rollout_db sample_rollout" True sample_rollout 5] v
  show ?thesis by (simp add: sample_inv sample_rollouts has_active_def)
qed


text \<open>
  The stored form of a rollout is faithful: decoding the record of a rollout gives back the
  rollout, failure summary included, when its counters fit a \<^verbatim>\<open>float64\<close> exactly, its texts are
  ASCII and its year has four digits; and the record fits the columns of the store's schema.
\<close>

theorem rollout_record_round_trip:
  assumes "storable_rollout r"
  shows "recordToAppRollout (appRolloutRecord r) = r \<and> conforms AppRolloutsSchema (appRolloutRecord r)"
  using rollout_codec.decode_encode [OF assms]
  by (simp add: schema_simps AppRolloutsSchema_def appRolloutRecord_def Let_def opt_time_apply
      split: option.split)

theorem rollout_record_round_trip_witness:
  "recordToAppRollout (appRolloutRecord (sample_rollout\<lparr>ro_State := AppRolloutStateFailed,
      ro_FailureSummary := Some sample_summary\<rparr>)) =
    sample_rollout\<lparr>ro_State := AppRolloutStateFailed, ro_FailureSummary := Some sample_summary\<rparr>"
proof -
  have "storable_rollout (sample_rollout\<lparr>ro_State := AppRolloutStateFailed, ro_FailureSummary := Some sample_summary\<rparr>)"
    by code_simp
  from rollout_record_round_trip [OF this] show ?thesis by simp
qed

text \<open>
  Listing: \<^verbatim>\<open>ListActive\<close> returns exactly the active rollouts, and
  \<^verbatim>\<open>ListActiveAndRecentTerminal\<close> returns these and exactly the finished ones whose end is recorded
  and not before the given time.
\<close>

theorem rollout_listings_exact:
  assumes "wf_alist (db_rows d StoreAppRollouts)"
    and "AppRolloutService_ListActive s d = (Inr active, d1)"
    and "AppRolloutService_ListActiveAndRecentTerminal s since d = (Inr recent, d2)"
  shows "set active = {r. \<exists>k. rollouts (db_rows d) k = Some r \<and> isActiveRolloutState (ro_State r)} \<and>
    set recent = {r. \<exists>k. rollouts (db_rows d) k = Some r \<and>
      (isActiveRolloutState (ro_State r) \<or> terminalAt r \<noteq> 0 \<and> since \<le> terminalAt r)}"
proof -
  have all: "recordToAppRollout ` set (rows_GetAll (db_rows d StoreAppRollouts) QAll 0) =
      {r. \<exists>k. rollouts (db_rows d) k = Some r}"
    using assms(1) by (force simp: set_rows_GetAll rollouts_map_of map_of_eq_Some_iff)
  have "active = filter (\<lambda>r. isActiveRolloutState (ro_State r))
      (map recordToAppRollout (rows_GetAll (db_rows d StoreAppRollouts) QAll 0))"
    using assms(2) by (auto simp: AppRolloutService_ListActive_def dest!: store_GetAll_Inr
        split: if_splits prod.splits sum.splits)
  moreover have "recent = filter (\<lambda>r. isActiveRolloutState (ro_State r) \<or>
      terminalAt r \<noteq> 0 \<and> \<not> terminalAt r < since)
      (map recordToAppRollout (rows_GetAll (db_rows d StoreAppRollouts) QAll 0))"
    using assms(3) by (auto simp: AppRolloutService_ListActiveAndRecentTerminal_def
        dest!: store_GetAll_Inr split: if_splits prod.splits sum.splits)
  ultimately show ?thesis using all by (auto simp: not_less)
qed

theorem rollout_listings_exact_witness:
  "\<exists>active recent d1 d2.
     AppRolloutService_ListActive True (rollout_db sample_rollout) = (Inr active, d1) \<and>
     AppRolloutService_ListActiveAndRecentTerminal True 7 (rollout_db sample_rollout) = (Inr recent, d2) \<and>
     set active = {sample_rollout} \<and> set recent = {sample_rollout}"
proof -
  have wf: "wf_alist (db_rows (rollout_db sample_rollout) StoreAppRollouts)" by (simp add: rollout_db_def)
  obtain active d1 recent d2 where
    l: "AppRolloutService_ListActive True (rollout_db sample_rollout) = (Inr active, d1)"
    "AppRolloutService_ListActiveAndRecentTerminal True 7 (rollout_db sample_rollout) = (Inr recent, d2)"
    by (simp add: AppRolloutService_ListActive_def AppRolloutService_ListActiveAndRecentTerminal_def
        healthy_store(2))
  have "isActiveRolloutState (ro_State sample_rollout)" by code_simp
  then show ?thesis using rollout_listings_exact [OF wf l] l by (auto simp: sample_rollouts)
qed

end
