(* ===== verification/Source_Versions.thy ===== *)
theory Source_Versions
  imports App_Rollout_Laws
begin

text \<open>
  The source version of the running gestaltd and the app-deploy pause
  (\<^verbatim>\<open>internal/coredata/gestaltd_source_versions.go\<close>): one state row, created and updated in the
  same transactions that create rollouts or retarget them to a new source version.
\<close>

subsection \<open>Data\<close>

definition gestaltdSourceVersionStateID :: string where
  "gestaltdSourceVersionStateID = ''gestaltd''"

definition defaultHeartbeatRolloutMinimumHealthyInstances :: int where
  "defaultHeartbeatRolloutMinimumHealthyInstances = 1"

definition ErrGestaltdSourceVersionUnavailable :: error where
  "ErrGestaltdSourceVersionUnavailable = Sentinel ''gestaltd source version is unavailable''"
definition ErrAppDeployPaused :: error where
  "ErrAppDeployPaused = Sentinel ''app version changes are paused for a runtime deployment''"
definition ErrAppDeployPauseConflict :: error where
  "ErrAppDeployPauseConflict = Sentinel ''app deploy pause is owned by another runtime deployment''"

record GestaltdSourceVersionState =
  sv_CurrentSourceVersion :: string
  sv_MinimumHealthyInstances :: int
  sv_UpdatedAt :: time
  sv_TemporalWorkersPromotedSourceVersion :: string
  sv_TemporalWorkersPromotedAt :: time
  sv_AppDeployPauseOwner :: string
  sv_AppDeployPauseToken :: string

text \<open>The zero value \<^verbatim>\<open>&core.GestaltdSourceVersionState{}\<close>.\<close>

definition zero_state :: GestaltdSourceVersionState where
  "zero_state = \<lparr>sv_CurrentSourceVersion = '''', sv_MinimumHealthyInstances = 0, sv_UpdatedAt = 0,
     sv_TemporalWorkersPromotedSourceVersion = '''', sv_TemporalWorkersPromotedAt = 0,
     sv_AppDeployPauseOwner = '''', sv_AppDeployPauseToken = ''''\<rparr>"

definition normalizedSourceVersionTime :: "time \<Rightarrow> time \<Rightarrow> time" where
  "normalizedSourceVersionTime now t = truncate_ms (if t = 0 then now else t)"

definition gestaltdSourceVersionStateRecord :: "time \<Rightarrow> GestaltdSourceVersionState \<Rightarrow> rec" where
  "gestaltdSourceVersionStateRecord now st = [
     ''id'' \<mapsto> VString gestaltdSourceVersionStateID,
     ''current_source_version'' \<mapsto> VString (TrimSpace (sv_CurrentSourceVersion st)),
     ''minimum_healthy_instances'' \<mapsto> VInt (sv_MinimumHealthyInstances st),
     ''updated_at'' \<mapsto> VTime (normalizedSourceVersionTime now (sv_UpdatedAt st)),
     ''temporal_workers_promoted_source_version'' \<mapsto>
       VString (TrimSpace (sv_TemporalWorkersPromotedSourceVersion st)),
     ''temporal_workers_promoted_at'' \<mapsto>
       VTime (normalizedSourceVersionTime now (sv_TemporalWorkersPromotedAt st)),
     ''app_deploy_pause_owner'' \<mapsto> VString (TrimSpace (sv_AppDeployPauseOwner st)),
     ''app_deploy_pause_token'' \<mapsto> VString (TrimSpace (sv_AppDeployPauseToken st))]"

definition recordToGestaltdSourceVersionState :: "rec \<Rightarrow> GestaltdSourceVersionState" where
  "recordToGestaltdSourceVersionState rec =
     \<lparr>sv_CurrentSourceVersion = recString rec ''current_source_version'',
      sv_MinimumHealthyInstances = recordInt rec ''minimum_healthy_instances'',
      sv_UpdatedAt = recTime rec ''updated_at'',
      sv_TemporalWorkersPromotedSourceVersion =
        recString rec ''temporal_workers_promoted_source_version'',
      sv_TemporalWorkersPromotedAt = recTime rec ''temporal_workers_promoted_at'',
      sv_AppDeployPauseOwner = recString rec ''app_deploy_pause_owner'',
      sv_AppDeployPauseToken = recString rec ''app_deploy_pause_token''\<rparr>"

subsection \<open>Reading\<close>

definition GestaltdSourceVersionService_Get ::
  "bool \<Rightarrow> db \<Rightarrow> GestaltdSourceVersionState result \<times> db" where
  "GestaltdSourceVersionService_Get s d =
     (if \<not> s then (Inl (Errorf ''get gestaltd source version: service is not configured''), d)
      else
        (case store_Get StoreGestaltdSourceVersionState gestaltdSourceVersionStateID d of
           (Inl err, d) \<Rightarrow>
             (Inl (if errors_is err ErrNotFound_idb then ErrNotFound
                else Wrapf ''get gestaltd source version'' err), d)
         | (Inr rec, d) \<Rightarrow> (Inr (recordToGestaltdSourceVersionState rec), d)))"

definition GestaltdSourceVersionService_CurrentForAdmission :: "bool \<Rightarrow> db \<Rightarrow> string result \<times> db" where
  "GestaltdSourceVersionService_CurrentForAdmission s d =
     (case GestaltdSourceVersionService_Get s d of
        (Inl err, d) \<Rightarrow>
          (Inl (if errors_is err ErrNotFound then ErrGestaltdSourceVersionUnavailable else err), d)
      | (Inr state, d) \<Rightarrow>
          (let current = TrimSpace (sv_CurrentSourceVersion state)
           in if current = '''' then (Inl ErrGestaltdSourceVersionUnavailable, d)
              else (Inr current, d)))"

definition promoted_for :: "GestaltdSourceVersionState \<Rightarrow> string \<Rightarrow> bool" where
  "promoted_for state sourceVersion \<longleftrightarrow>
     TrimSpace (sv_TemporalWorkersPromotedSourceVersion state) = sourceVersion \<and>
     sv_TemporalWorkersPromotedAt state \<noteq> 0"

definition GestaltdSourceVersionService_TemporalWorkersPromotedForSourceVersion ::
  "bool \<Rightarrow> string \<Rightarrow> db \<Rightarrow> bool result \<times> db" where
  "GestaltdSourceVersionService_TemporalWorkersPromotedForSourceVersion s sourceVersion d =
     (if \<not> s then (Inl (Errorf ''temporal workers promoted: service is not configured''), d)
      else if TrimSpace sourceVersion = ''''
      then (Inl (Errorf ''temporal workers promoted: source version is required''), d)
      else
        (case GestaltdSourceVersionService_Get s d of
           (Inl err, d) \<Rightarrow>
             (if errors_is err ErrNotFound then (Inr False, d)
              else (Inl (Wrapf ''temporal workers promoted: load state'' err), d))
         | (Inr state, d) \<Rightarrow> (Inr (promoted_for state (TrimSpace sourceVersion)), d)))"

subsection \<open>Creating a rollout for the current source version\<close>

definition create_app_rollout_body :: "time \<Rightarrow> AppRollout \<Rightarrow> db \<Rightarrow> AppRollout tx_end \<times> db" where
  "create_app_rollout_body now rollout d =
     (case store_Get StoreGestaltdSourceVersionState gestaltdSourceVersionStateID d of
        (Inl err, d) \<Rightarrow>
          (TxFail (if errors_is err ErrNotFound_idb then ErrGestaltdSourceVersionUnavailable
             else Wrapf ''create source-version app rollout: load source version'' err), d)
      | (Inr stateRec, d) \<Rightarrow>
          (let state = recordToGestaltdSourceVersionState stateRec;
               current = TrimSpace (sv_CurrentSourceVersion state);
               pending0 = rollout\<lparr>ro_TargetSourceVersion := current\<rparr>;
               pending =
                 (if ro_Mode pending0 = AppRolloutModeHeartbeat
                  then pending0\<lparr>ro_MinimumHealthyInstances := sv_MinimumHealthyInstances state\<rparr>
                  else pending0)
           in if TrimSpace (sv_AppDeployPauseOwner state) \<noteq> '''' then (TxFail ErrAppDeployPaused, d)
              else if current = '''' then (TxFail ErrGestaltdSourceVersionUnavailable, d)
              else if ro_Mode pending0 = AppRolloutModeHeartbeat \<and> sv_MinimumHealthyInstances state \<le> 0
              then (TxFail (Errorf ''create source-version app rollout: minimum healthy instances is unavailable''), d)
              else
                (case validateAppRollout (Some pending) of
                   Inl err \<Rightarrow> (TxFail (Wrapf ''create source-version app rollout'' err), d)
                 | Inr _ \<Rightarrow>
                     create_body ''create source-version app rollout'' (normalizeAppRollout now pending) d)))"

definition GestaltdSourceVersionService_CreateAppRollout ::
  "bool \<Rightarrow> time \<Rightarrow> AppRollout option \<Rightarrow> db \<Rightarrow> AppRollout result \<times> db" where
  "GestaltdSourceVersionService_CreateAppRollout s now rollout d =
     (if \<not> s then (Inl (Errorf ''create source-version app rollout: service is not configured''), d)
      else
        (case rollout of
           None \<Rightarrow> (Inl (Errorf ''create source-version app rollout: record is required''), d)
         | Some r \<Rightarrow>
             with_tx ''create source-version app rollout: begin transaction''
               (create_app_rollout_body now r) d))"

subsection \<open>Activating a source version\<close>

text \<open>
  The arguments after validation: the trimmed source version, the normalised time, the mode,
  whether a minimum was given and the minimum asked for.
\<close>

record activation =
  ac_sourceVersion :: string
  ac_at :: time
  ac_retry :: bool
  ac_enrollmentWindow :: duration
  ac_rolloutTimeout :: duration
  ac_rolloutMode :: AppRolloutMode
  ac_minimumProvided :: bool
  ac_requestedMinimumHealthy :: int

definition check_activation ::
  "time \<Rightarrow> string \<Rightarrow> time \<Rightarrow> bool \<Rightarrow> duration \<Rightarrow> duration \<Rightarrow> AppRolloutMode \<Rightarrow> int list \<Rightarrow>
    activation result" where
  "check_activation now sourceVersion at retry enrollmentWindow rolloutTimeout rolloutMode0 minimums =
     (let rolloutMode = (if rolloutMode0 = OtherMode '''' then AppRolloutModeEnrollment else rolloutMode0);
          minimumProvided = (length minimums = 1);
          requested = (case minimums of [n] \<Rightarrow> n | _ \<Rightarrow> 0)
      in if TrimSpace sourceVersion = ''''
         then Inl (Errorf ''activate gestaltd source version: source version is required'')
         else if enrollmentWindow \<le> 0 \<or> rolloutTimeout \<le> enrollmentWindow
         then Inl (Errorf ''activate gestaltd source version: invalid rollout windows'')
         else if rolloutMode \<noteq> AppRolloutModeEnrollment \<and> rolloutMode \<noteq> AppRolloutModeHeartbeat
         then Inl (Errorf ''activate gestaltd source version: invalid rollout mode %q'')
         else if 1 < length minimums
         then Inl (Errorf ''activate gestaltd source version: minimum healthy instances may only be provided once'')
         else if requested < 0
         then Inl (Errorf ''activate gestaltd source version: minimum healthy instances must not be negative'')
         else if rolloutMode = AppRolloutModeHeartbeat \<and> minimumProvided \<and> requested \<le> 0
         then Inl (Errorf ''activate gestaltd source version: heartbeat minimum healthy instances must be positive'')
         else Inr \<lparr>ac_sourceVersion = TrimSpace sourceVersion, ac_at = normalizedSourceVersionTime now at,
           ac_retry = retry, ac_enrollmentWindow = enrollmentWindow, ac_rolloutTimeout = rolloutTimeout,
           ac_rolloutMode = rolloutMode, ac_minimumProvided = minimumProvided,
           ac_requestedMinimumHealthy =
             (if rolloutMode = AppRolloutModeHeartbeat \<and> \<not> minimumProvided
              then defaultHeartbeatRolloutMinimumHealthyInstances else requested)\<rparr>)"

definition sourceChanged :: "activation \<Rightarrow> GestaltdSourceVersionState \<Rightarrow> bool" where
  "sourceChanged a state \<longleftrightarrow> TrimSpace (sv_CurrentSourceVersion state) \<noteq> ac_sourceVersion a"

definition effectiveMinimumHealthy :: "activation \<Rightarrow> GestaltdSourceVersionState \<Rightarrow> int" where
  "effectiveMinimumHealthy a state =
     (if \<not> ac_minimumProvided a \<and> \<not> sourceChanged a state \<and> 0 < sv_MinimumHealthyInstances state
      then sv_MinimumHealthyInstances state else ac_requestedMinimumHealthy a)"

definition minimumChanged :: "activation \<Rightarrow> GestaltdSourceVersionState \<Rightarrow> bool" where
  "minimumChanged a state \<longleftrightarrow> sv_MinimumHealthyInstances state \<noteq> effectiveMinimumHealthy a state"

definition retarget :: "activation \<Rightarrow> GestaltdSourceVersionState \<Rightarrow> AppRollout \<Rightarrow> bool" where
  "retarget a state r \<longleftrightarrow>
     (if ac_retry a \<and> TrimSpace (ro_TargetSourceVersion r) = ac_sourceVersion a
      then isActiveRolloutState (ro_State r) \<or>
        ro_State r = AppRolloutStateFailed \<and> ro_FailedAt r \<noteq> 0 \<and> \<not> ro_FailedAt r < sv_UpdatedAt state
      else (sourceChanged a state \<or> minimumChanged a state) \<and> isActiveRolloutState (ro_State r))"

definition retargeted :: "activation \<Rightarrow> GestaltdSourceVersionState \<Rightarrow> AppRollout \<Rightarrow> AppRollout" where
  "retargeted a state r =
     (let heartbeat = (ac_rolloutMode a = AppRolloutModeHeartbeat)
      in r\<lparr>ro_TargetSourceVersion := ac_sourceVersion a,
           ro_Mode := ac_rolloutMode a,
           ro_MinimumHealthyInstances := (if heartbeat then effectiveMinimumHealthy a state else 0),
           ro_State := (if heartbeat then AppRolloutStateRestarting else AppRolloutStateEnrolling),
           ro_CreatedAt := ac_at a,
           ro_EnrollmentEndsAt := ac_at a + ac_enrollmentWindow a,
           ro_Deadline := ac_at a + ac_rolloutTimeout a,
           ro_HealthySince := 0,
           ro_HeartbeatEvaluatedAt := 0,
           ro_CompletedAt := 0,
           ro_FailedAt := 0,
           ro_FailureSummary := None\<rparr>)"

fun retarget_rollouts ::
  "activation \<Rightarrow> GestaltdSourceVersionState \<Rightarrow> rec list \<Rightarrow> db \<Rightarrow> unit result \<times> db" where
  "retarget_rollouts a state [] d = (Inr (), d)"
| "retarget_rollouts a state (rec # recs) d =
     (let rollout = recordToAppRollout rec
      in if \<not> retarget a state rollout then retarget_rollouts a state recs d
         else
           (case store_Put StoreAppRollouts (appRolloutRecord (retargeted a state rollout)) d of
              (Inl err, d) \<Rightarrow>
                (Inl (Wrapf ''activate gestaltd source version: retarget rollout %s'' err), d)
            | (Inr _, d) \<Rightarrow> retarget_rollouts a state recs d))"

definition retarget_all :: "activation \<Rightarrow> GestaltdSourceVersionState \<Rightarrow> db \<Rightarrow> unit result \<times> db" where
  "retarget_all a state d =
     (if \<not> (sourceChanged a state \<or> minimumChanged a state \<or> ac_retry a) then (Inr (), d)
      else
        (case store_GetAll StoreAppRollouts QAll 0 d of
           (Inl err, d) \<Rightarrow> (Inl (Wrapf ''activate gestaltd source version: list app rollouts'' err), d)
         | (Inr recs, d) \<Rightarrow> retarget_rollouts a state recs d))"

definition activated :: "activation \<Rightarrow> GestaltdSourceVersionState \<Rightarrow> GestaltdSourceVersionState" where
  "activated a state =
     state\<lparr>sv_CurrentSourceVersion := ac_sourceVersion a,
       sv_MinimumHealthyInstances := effectiveMinimumHealthy a state,
       sv_UpdatedAt :=
         (if sourceChanged a state \<or> minimumChanged a state \<or> ac_retry a \<or> sv_UpdatedAt state = 0
          then ac_at a else sv_UpdatedAt state)\<rparr>"

definition first_state :: "rec list \<Rightarrow> GestaltdSourceVersionState" where
  "first_state recs =
     (case recs of [] \<Rightarrow> zero_state | rec # _ \<Rightarrow> recordToGestaltdSourceVersionState rec)"

definition activate_body ::
  "time \<Rightarrow> activation \<Rightarrow> db \<Rightarrow> GestaltdSourceVersionState tx_end \<times> db" where
  "activate_body now a d =
     (case store_GetAll StoreGestaltdSourceVersionState (QKey (KString gestaltdSourceVersionStateID)) 1 d of
        (Inl err, d) \<Rightarrow> (TxFail (Wrapf ''activate gestaltd source version: load state'' err), d)
      | (Inr stateRecs, d) \<Rightarrow>
          (let state = first_state stateRecs
           in case retarget_all a state d of
                (Inl err, d) \<Rightarrow> (TxFail err, d)
              | (Inr _, d) \<Rightarrow>
                  (case store_Put StoreGestaltdSourceVersionState
                      (gestaltdSourceVersionStateRecord now (activated a state)) d of
                     (Inl err, d) \<Rightarrow>
                       (TxFail (Wrapf ''activate gestaltd source version: write state'' err), d)
                   | (Inr _, d) \<Rightarrow>
                       (TxCommit ''activate gestaltd source version: commit'' (activated a state), d))))"

definition GestaltdSourceVersionService_ActivateWithRolloutMode ::
  "bool \<Rightarrow> time \<Rightarrow> string \<Rightarrow> time \<Rightarrow> bool \<Rightarrow> duration \<Rightarrow> duration \<Rightarrow> AppRolloutMode \<Rightarrow> int list \<Rightarrow> db \<Rightarrow>
    GestaltdSourceVersionState result \<times> db" where
  "GestaltdSourceVersionService_ActivateWithRolloutMode s now sourceVersion at retry
     enrollmentWindow rolloutTimeout rolloutMode minimums d =
     (if \<not> s then (Inl (Errorf ''activate gestaltd source version: service is not configured''), d)
      else
        (case check_activation now sourceVersion at retry enrollmentWindow rolloutTimeout rolloutMode
            minimums of
           Inl err \<Rightarrow> (Inl err, d)
         | Inr a \<Rightarrow>
             with_tx ''activate gestaltd source version: begin transaction'' (activate_body now a) d))"

definition GestaltdSourceVersionService_Activate where
  "GestaltdSourceVersionService_Activate s now sourceVersion at retry enrollmentWindow rolloutTimeout
     minimums =
     GestaltdSourceVersionService_ActivateWithRolloutMode s now sourceVersion at retry
       enrollmentWindow rolloutTimeout AppRolloutModeEnrollment minimums"

subsection \<open>The app-deploy pause\<close>

definition pause_action :: "bool \<Rightarrow> string" where
  "pause_action acquire = (if acquire then ''acquire'' else ''release'')"

definition pause_body ::
  "time \<Rightarrow> string \<Rightarrow> string \<Rightarrow> bool \<Rightarrow> db \<Rightarrow> GestaltdSourceVersionState tx_end \<times> db" where
  "pause_body now owner token acquire d =
     (case store_Get StoreGestaltdSourceVersionState gestaltdSourceVersionStateID d of
        (Inl err, d) \<Rightarrow>
          (TxFail (if errors_is err ErrNotFound_idb then ErrGestaltdSourceVersionUnavailable
             else Wrapf (pause_action acquire @ '' app deploy pause: load state'') err), d)
      | (Inr rec, d) \<Rightarrow>
          (let state = recordToGestaltdSourceVersionState rec
           in if sv_AppDeployPauseOwner state \<noteq> '''' \<and>
                (sv_AppDeployPauseOwner state \<noteq> owner \<or> sv_AppDeployPauseToken state \<noteq> token)
              then (TxFail ErrAppDeployPauseConflict, d)
              else
                (let state' =
                   (if acquire
                    then state\<lparr>sv_AppDeployPauseOwner := owner, sv_AppDeployPauseToken := token\<rparr>
                    else state\<lparr>sv_AppDeployPauseOwner := '''', sv_AppDeployPauseToken := ''''\<rparr>)
                 in case store_Put StoreGestaltdSourceVersionState
                       (gestaltdSourceVersionStateRecord now state') d of
                      (Inl err, d) \<Rightarrow>
                        (TxFail (Wrapf (pause_action acquire @ '' app deploy pause: write state'') err), d)
                    | (Inr _, d) \<Rightarrow>
                        (TxCommit (pause_action acquire @ '' app deploy pause: commit'') state', d))))"

definition GestaltdSourceVersionService_changeAppDeployPause ::
  "bool \<Rightarrow> time \<Rightarrow> string \<Rightarrow> string \<Rightarrow> bool \<Rightarrow> db \<Rightarrow> GestaltdSourceVersionState result \<times> db" where
  "GestaltdSourceVersionService_changeAppDeployPause s now owner token acquire d =
     (if TrimSpace owner = '''' \<or> TrimSpace token = ''''
      then (Inl (Errorf (pause_action acquire @ '' app deploy pause: owner and token are required'')), d)
      else if \<not> s then (Inl (Errorf (pause_action acquire @ '' app deploy pause: service is not configured'')), d)
      else with_tx (pause_action acquire @ '' app deploy pause: begin transaction'')
        (pause_body now (TrimSpace owner) (TrimSpace token) acquire) d)"

definition GestaltdSourceVersionService_AcquireAppDeployPause where
  "GestaltdSourceVersionService_AcquireAppDeployPause s now owner token =
     GestaltdSourceVersionService_changeAppDeployPause s now owner token True"

definition GestaltdSourceVersionService_ReleaseAppDeployPause where
  "GestaltdSourceVersionService_ReleaseAppDeployPause s now owner token =
     GestaltdSourceVersionService_changeAppDeployPause s now owner token False"

subsection \<open>Promoting the temporal workers\<close>

definition promote_body ::
  "time \<Rightarrow> string \<Rightarrow> time \<Rightarrow> db \<Rightarrow> GestaltdSourceVersionState tx_end \<times> db" where
  "promote_body now sourceVersion at d =
     (case store_GetAll StoreGestaltdSourceVersionState (QKey (KString gestaltdSourceVersionStateID)) 1 d of
        (Inl err, d) \<Rightarrow> (TxFail (Wrapf ''mark temporal workers promoted: load state'' err), d)
      | (Inr stateRecs, d) \<Rightarrow>
          (let state = first_state stateRecs
           in if promoted_for state sourceVersion
              then (TxCommit ''mark temporal workers promoted: commit'' state, d)
              else
                (let state' = state\<lparr>sv_TemporalWorkersPromotedSourceVersion := sourceVersion,
                       sv_TemporalWorkersPromotedAt := at\<rparr>
                 in case store_Put StoreGestaltdSourceVersionState
                       (gestaltdSourceVersionStateRecord now state') d of
                      (Inl err, d) \<Rightarrow>
                        (TxFail (Wrapf ''mark temporal workers promoted: write state'' err), d)
                    | (Inr _, d) \<Rightarrow>
                        (TxCommit ''mark temporal workers promoted: commit'' state', d))))"

definition GestaltdSourceVersionService_MarkTemporalWorkersPromoted ::
  "bool \<Rightarrow> time \<Rightarrow> string \<Rightarrow> time \<Rightarrow> db \<Rightarrow> GestaltdSourceVersionState result \<times> db" where
  "GestaltdSourceVersionService_MarkTemporalWorkersPromoted s now sourceVersion at d =
     (if \<not> s then (Inl (Errorf ''mark temporal workers promoted: service is not configured''), d)
      else if TrimSpace sourceVersion = ''''
      then (Inl (Errorf ''mark temporal workers promoted: source version is required''), d)
      else with_tx ''mark temporal workers promoted: begin transaction''
        (promote_body now (TrimSpace sourceVersion) (normalizedSourceVersionTime now at)) d)"

subsection \<open>The state row\<close>

definition sv_state :: "contents \<Rightarrow> GestaltdSourceVersionState option" where
  "sv_state c = map_option recordToGestaltdSourceVersionState
     (map_of (c StoreGestaltdSourceVersionState) gestaltdSourceVersionStateID)"

definition put_state :: "time \<Rightarrow> GestaltdSourceVersionState \<Rightarrow> contents \<Rightarrow> contents" where
  "put_state now st = row_put StoreGestaltdSourceVersionState (gestaltdSourceVersionStateRecord now st)"

text \<open>What the row holds of a state: texts trimmed, times to the millisecond and never zero.\<close>

definition stored_state :: "time \<Rightarrow> GestaltdSourceVersionState \<Rightarrow> GestaltdSourceVersionState" where
  "stored_state now st =
     st\<lparr>sv_CurrentSourceVersion := TrimSpace (sv_CurrentSourceVersion st),
       sv_UpdatedAt := normalizedSourceVersionTime now (sv_UpdatedAt st),
       sv_TemporalWorkersPromotedSourceVersion := TrimSpace (sv_TemporalWorkersPromotedSourceVersion st),
       sv_TemporalWorkersPromotedAt := normalizedSourceVersionTime now (sv_TemporalWorkersPromotedAt st),
       sv_AppDeployPauseOwner := TrimSpace (sv_AppDeployPauseOwner st),
       sv_AppDeployPauseToken := TrimSpace (sv_AppDeployPauseToken st)\<rparr>"

lemma record_id_state [simp]: "record_id (gestaltdSourceVersionStateRecord now st) = gestaltdSourceVersionStateID"
  by (simp add: record_id_def gestaltdSourceVersionStateRecord_def)

lemma decode_state:
  "recordToGestaltdSourceVersionState (gestaltdSourceVersionStateRecord now st) = stored_state now st"
  by (cases st) (simp add: recordToGestaltdSourceVersionState_def gestaltdSourceVersionStateRecord_def
      stored_state_def recString_def recTime_def recordInt_def)

lemma sv_state_put [simp]: "sv_state (put_state now st c) = Some (stored_state now st)"
  by (simp add: sv_state_def put_state_def decode_state)

lemma stores_differ [simp]:
  "StoreAppRollouts \<noteq> StoreGestaltdSourceVersionState"
  "StoreGestaltdSourceVersionState \<noteq> StoreAppRollouts"
  by (simp_all add: store_names)

lemma put_state_rollouts [simp]:
  "rollouts (put_state now st c) = rollouts c" "put_state now st c StoreAppRollouts = c StoreAppRollouts"
  by (simp_all add: rollouts_def put_state_def fun_eq_iff)

lemma put_rollout_state [simp]:
  "sv_state (put_rollout r c) = sv_state c"
  by (simp add: sv_state_def put_rollout_def)

text \<open>The state the transactions start from; the zero state when there is no row.\<close>

definition loaded_state :: "contents \<Rightarrow> GestaltdSourceVersionState" where
  "loaded_state c = (case sv_state c of None \<Rightarrow> zero_state | Some st \<Rightarrow> st)"

definition state_rows_ok :: "contents \<Rightarrow> bool" where
  "state_rows_ok c \<longleftrightarrow> wf_alist (c StoreGestaltdSourceVersionState) \<and>
     ascii_keys c StoreGestaltdSourceVersionState"

lemma state_id_ascii: "ascii gestaltdSourceVersionStateID"
  by (simp add: ascii_def gestaltdSourceVersionStateID_def)

lemma first_state_loaded:
  assumes "store_GetAll StoreGestaltdSourceVersionState (QKey (KString gestaltdSourceVersionStateID)) 1 d =
      (Inr recs, d')" and "state_rows_ok (db_rows d)"
  shows "first_state recs = loaded_state (db_rows d)"
proof -
  have "recs = (case map_of (db_rows d StoreGestaltdSourceVersionState) gestaltdSourceVersionStateID of
      None \<Rightarrow> [] | Some r \<Rightarrow> [r])"
    using store_GetAll_Inr [OF assms(1)] rows_GetAll_key ascii_keys_separates [OF _ state_id_ascii] assms(2)
    by (simp add: state_rows_ok_def)
  then show ?thesis
    by (simp add: first_state_def loaded_state_def sv_state_def split: option.split)
qed

lemma state_rows_ok_put:
  assumes "state_rows_ok c"
  shows "state_rows_ok (put_state now st c)"
  using assms ascii_keys_row_put [of c StoreGestaltdSourceVersionState
      "gestaltdSourceVersionStateRecord now st"] state_id_ascii
  by (simp add: state_rows_ok_def put_state_def row_put_def wf_alist_update)

lemma state_rows_ok_put_rollout [simp]: "state_rows_ok (put_rollout r c) = state_rows_ok c"
  by (simp add: state_rows_ok_def put_rollout_def ascii_keys_def)

lemma rollouts_inv_put_state [simp]: "rollouts_inv (put_state now st c) = rollouts_inv c"
  by (simp add: rollouts_inv_def rollouts_ok_def ascii_keys_def)

subsection \<open>Effects\<close>

lemma retarget_rollouts_rows:
  "retarget_rollouts a state recs d = (Inr u, d') \<Longrightarrow>
    db_rows d' = fold (\<lambda>r. put_rollout (retargeted a state r))
      (filter (retarget a state) (map recordToAppRollout recs)) (db_rows d)"
proof (induction a state recs d rule: retarget_rollouts.induct)
  case (2 a state rec recs d)
  let ?r = "recordToAppRollout rec"
  show ?case
  proof (cases "retarget a state ?r")
    case False
    then show ?thesis using 2 by simp
  next
    case True
    obtain x d1 where p: "store_Put StoreAppRollouts (appRolloutRecord (retargeted a state ?r)) d = (x, d1)"
      by fastforce
    with True 2(3) have x: "x = Inr ()" and rest: "retarget_rollouts a state recs d1 = (Inr u, d')"
      by (auto split: sum.splits)
    have "db_rows d1 = put_rollout (retargeted a state ?r) (db_rows d)"
      using write_rows(1) [OF p] x by (simp add: put_rollout_def)
    with 2(2) [OF refl _ p [symmetric, unfolded x] refl rest] True show ?thesis by simp
  qed
qed simp

definition retarget_list :: "activation \<Rightarrow> GestaltdSourceVersionState \<Rightarrow> contents \<Rightarrow> AppRollout list" where
  "retarget_list a state c =
     (if sourceChanged a state \<or> minimumChanged a state \<or> ac_retry a
      then filter (retarget a state) (map recordToAppRollout (rows_GetAll (c StoreAppRollouts) QAll 0))
      else [])"

lemma retarget_all_rows:
  assumes "retarget_all a state d = (Inr u, d')"
  shows "db_rows d' = fold (\<lambda>r. put_rollout (retargeted a state r)) (retarget_list a state (db_rows d)) (db_rows d)"
proof (cases "sourceChanged a state \<or> minimumChanged a state \<or> ac_retry a")
  case False
  then show ?thesis using assms by (simp add: retarget_all_def retarget_list_def)
next
  case True
  obtain g d1 where g: "store_GetAll StoreAppRollouts QAll 0 d = (g, d1)" by fastforce
  with assms True obtain recs where "g = Inr recs" and "retarget_rollouts a state recs d1 = (Inr u, d')"
    by (cases g) (simp_all add: retarget_all_def split: if_splits)
  with True g show ?thesis
    using retarget_rollouts_rows read_rows(2) [OF g] store_GetAll_Inr
    by (simp add: retarget_list_def)
qed

definition activate_done ::
  "time \<Rightarrow> activation \<Rightarrow> contents \<Rightarrow> GestaltdSourceVersionState \<Rightarrow> contents \<Rightarrow> bool" where
  "activate_done now a c st' c' \<longleftrightarrow>
     st' = activated a (loaded_state c) \<and>
     c' = put_state now st' (fold (\<lambda>r. put_rollout (retargeted a (loaded_state c) r))
       (retarget_list a (loaded_state c) c) c)"

lemma activate_body_commit:
  assumes "activate_body now a d = (TxCommit m st', d')" and "state_rows_ok (db_rows d)"
  shows "activate_done now a (db_rows d) st' (db_rows d')"
proof -
  obtain g d1 where g: "store_GetAll StoreGestaltdSourceVersionState
      (QKey (KString gestaltdSourceVersionStateID)) 1 d = (g, d1)" by fastforce
  with assms(1) obtain recs where "g = Inr recs" by (cases g) (simp_all add: activate_body_def)
  note g = g [unfolded this]
  have st: "first_state recs = loaded_state (db_rows d)" by (rule first_state_loaded [OF g assms(2)])
  obtain x d2 where r: "retarget_all a (loaded_state (db_rows d)) d1 = (x, d2)" by fastforce
  from assms(1) have x: "x = Inr ()" by (cases x) (simp_all add: activate_body_def g st r del: One_nat_def)
  obtain y d3 where p: "store_Put StoreGestaltdSourceVersionState (gestaltdSourceVersionStateRecord now
      (activated a (loaded_state (db_rows d)))) d2 = (y, d3)" by fastforce
  from assms(1) have "y = Inr ()" "d3 = d'" "st' = activated a (loaded_state (db_rows d))"
    by (cases y; simp add: activate_body_def g st r x p Let_def del: One_nat_def)+
  then show ?thesis
    using write_rows(1) [OF p] retarget_all_rows [OF r [unfolded x]] read_rows(2) [OF g]
    by (simp add: activate_done_def put_state_def)
qed

lemma activate_body_no_return: "activate_body now a d \<noteq> (TxReturn r, d')"
  by (simp add: activate_body_def Let_def split: prod.split sum.split)

lemma Activate_Inr:
  assumes "GestaltdSourceVersionService_ActivateWithRolloutMode s now sv at retry ew rt mode mins d =
      (Inr st', d')" and "state_rows_ok (db_rows d)"
  obtains a where "check_activation now sv at retry ew rt mode mins = Inr a"
    and "activate_done now a (db_rows d) st' (db_rows d')"
proof -
  from assms(1) obtain a where a: "check_activation now sv at retry ew rt mode mins = Inr a"
    and tx: "with_tx ''activate gestaltd source version: begin transaction'' (activate_body now a) d = (Inr st', d')"
    by (auto simp: GestaltdSourceVersionService_ActivateWithRolloutMode_def split: if_splits sum.splits)
  from tx have "activate_done now a (db_rows d) st' (db_rows d')"
    by (rule with_tx_post) (use activate_body_commit assms(2) in metis, simp add: activate_body_no_return)
  with a that show thesis by blast
qed

lemma Activate_Inl:
  "GestaltdSourceVersionService_ActivateWithRolloutMode s now sv at retry ew rt mode mins d = (Inl e, d') \<Longrightarrow>
    db_rows d' = db_rows d"
  by (auto simp: GestaltdSourceVersionService_ActivateWithRolloutMode_def dest: with_tx_error
      split: if_splits sum.splits)

text \<open>The rollout the request is turned into.\<close>

definition pending_rollout :: "time \<Rightarrow> GestaltdSourceVersionState \<Rightarrow> AppRollout \<Rightarrow> AppRollout" where
  "pending_rollout now state r =
     (let r1 = r\<lparr>ro_TargetSourceVersion := TrimSpace (sv_CurrentSourceVersion state)\<rparr>
      in normalizeAppRollout now
           (if ro_Mode r = AppRolloutModeHeartbeat
            then r1\<lparr>ro_MinimumHealthyInstances := sv_MinimumHealthyInstances state\<rparr> else r1))"

definition create_app_done :: "time \<Rightarrow> AppRollout \<Rightarrow> contents \<Rightarrow> AppRollout \<Rightarrow> contents \<Rightarrow> bool" where
  "create_app_done now r c r' c' \<longleftrightarrow>
     (\<exists>state. sv_state c = Some state \<and> TrimSpace (sv_AppDeployPauseOwner state) = '''' \<and>
       TrimSpace (sv_CurrentSourceVersion state) \<noteq> '''' \<and>
       (ro_Mode r = AppRolloutModeHeartbeat \<longrightarrow> 0 < sv_MinimumHealthyInstances state) \<and>
       r' = pending_rollout now state r \<and> rollout_ok (ro_App r') r' \<and> create_done r' c c')"

lemma create_app_rollout_body_commit:
  assumes "create_app_rollout_body now r d = (TxCommit m r', d')" and "0 < ro_CreatedAt r"
    and "rollouts_inv (db_rows d)" and "ascii (TrimSpace (ro_App r))"
  shows "create_app_done now r (db_rows d) r' (db_rows d')"
proof -
  obtain g d1 where g: "store_Get StoreGestaltdSourceVersionState gestaltdSourceVersionStateID d = (g, d1)"
    by fastforce
  with assms(1) obtain rec where "g = Inr rec" by (cases g) (simp_all add: create_app_rollout_body_def)
  note g = g [unfolded this]
  let ?state = "recordToGestaltdSourceVersionState rec"
  let ?r1 = "r\<lparr>ro_TargetSourceVersion := TrimSpace (sv_CurrentSourceVersion ?state)\<rparr>"
  let ?p = "if ro_Mode r = AppRolloutModeHeartbeat
    then ?r1\<lparr>ro_MinimumHealthyInstances := sv_MinimumHealthyInstances ?state\<rparr> else ?r1"
  have st: "sv_state (db_rows d) = Some ?state" using store_Get_Inr [OF g] by (simp add: sv_state_def)
  have guards: "TrimSpace (sv_AppDeployPauseOwner ?state) = ''''"
    "TrimSpace (sv_CurrentSourceVersion ?state) \<noteq> ''''"
    "ro_Mode r = AppRolloutModeHeartbeat \<longrightarrow> 0 < sv_MinimumHealthyInstances ?state"
    using assms(1) by (auto simp: create_app_rollout_body_def g Let_def split: if_splits)
  obtain v where val: "validateAppRollout (Some ?p) = Inr v"
    using assms(1) guards by (cases "validateAppRollout (Some ?p)")
      (auto simp: create_app_rollout_body_def g Let_def split: if_splits)
  have body: "create_body ''create source-version app rollout'' (normalizeAppRollout now ?p) d1 =
      (TxCommit m r', d')"
    using assms(1) guards val by (auto simp: create_app_rollout_body_def g Let_def split: if_splits)
  have n: "ro_App (normalizeAppRollout now ?p) = TrimSpace (ro_App r)"
    by (simp add: normalizeAppRollout_def)
  have rows: "db_rows d1 = db_rows d" by (rule read_rows(1) [OF g])
  have "r' = normalizeAppRollout now ?p" and "create_done r' (db_rows d) (db_rows d')"
    using create_body_result [OF body] create_body_commit(2) [OF body] assms(3,4) ascii_keys_separates n rows
    by (auto simp: rollouts_inv_def rollouts_ok_def)
  moreover have "rollout_ok (ro_App (normalizeAppRollout now ?p)) (normalizeAppRollout now ?p)"
    by (rule normalize_ok [OF val]) (use assms(2) in simp)
  ultimately show ?thesis
    using st guards unfolding create_app_done_def by (simp add: pending_rollout_def Let_def)
qed

lemma create_app_rollout_body_no_return: "create_app_rollout_body now r d \<noteq> (TxReturn x, d')"
  using create_body_no_return
  by (auto simp: create_app_rollout_body_def Let_def split: prod.splits sum.splits if_splits)

lemma CreateAppRollout_Inr:
  assumes "GestaltdSourceVersionService_CreateAppRollout s now (Some r) d = (Inr r', d')"
    and "0 < ro_CreatedAt r" and "rollouts_inv (db_rows d)" and "ascii (TrimSpace (ro_App r))"
  shows "create_app_done now r (db_rows d) r' (db_rows d')"
proof -
  from assms(1) have tx: "with_tx ''create source-version app rollout: begin transaction''
      (create_app_rollout_body now r) d = (Inr r', d')"
    by (auto simp: GestaltdSourceVersionService_CreateAppRollout_def split: if_splits)
  from tx show ?thesis
    by (rule with_tx_post)
      (use create_app_rollout_body_commit assms(2-4) in metis, simp add: create_app_rollout_body_no_return)
qed

lemma CreateAppRollout_Inl:
  "GestaltdSourceVersionService_CreateAppRollout s now ro d = (Inl e, d') \<Longrightarrow> db_rows d' = db_rows d"
  by (auto simp: GestaltdSourceVersionService_CreateAppRollout_def dest: with_tx_error
      split: if_splits option.splits)

definition pause_done ::
  "time \<Rightarrow> string \<Rightarrow> string \<Rightarrow> bool \<Rightarrow> contents \<Rightarrow> GestaltdSourceVersionState \<Rightarrow> contents \<Rightarrow> bool" where
  "pause_done now owner token acquire c st' c' \<longleftrightarrow>
     (\<exists>state. sv_state c = Some state \<and>
       (sv_AppDeployPauseOwner state = '''' \<or>
        sv_AppDeployPauseOwner state = owner \<and> sv_AppDeployPauseToken state = token) \<and>
       st' = (if acquire then state\<lparr>sv_AppDeployPauseOwner := owner, sv_AppDeployPauseToken := token\<rparr>
         else state\<lparr>sv_AppDeployPauseOwner := '''', sv_AppDeployPauseToken := ''''\<rparr>) \<and>
       c' = put_state now st' c)"

lemma pause_body_commit:
  assumes "pause_body now owner token acquire d = (TxCommit m st', d')"
  shows "pause_done now owner token acquire (db_rows d) st' (db_rows d')"
proof -
  obtain g d1 where g: "store_Get StoreGestaltdSourceVersionState gestaltdSourceVersionStateID d = (g, d1)"
    by fastforce
  with assms obtain rec where "g = Inr rec" by (cases g) (simp_all add: pause_body_def)
  note g = g [unfolded this]
  let ?state = "recordToGestaltdSourceVersionState rec"
  let ?new = "if acquire then ?state\<lparr>sv_AppDeployPauseOwner := owner, sv_AppDeployPauseToken := token\<rparr>
    else ?state\<lparr>sv_AppDeployPauseOwner := '''', sv_AppDeployPauseToken := ''''\<rparr>"
  have st: "sv_state (db_rows d) = Some ?state" using store_Get_Inr [OF g] by (simp add: sv_state_def)
  have free: "sv_AppDeployPauseOwner ?state = '''' \<or>
      sv_AppDeployPauseOwner ?state = owner \<and> sv_AppDeployPauseToken ?state = token"
    using assms by (auto simp: pause_body_def g Let_def split: if_splits)
  obtain y d2 where p: "store_Put StoreGestaltdSourceVersionState
      (gestaltdSourceVersionStateRecord now ?new) d1 = (y, d2)" by fastforce
  from assms free p have "y = Inr ()" "d2 = d'" "st' = ?new"
    by (cases y; auto simp: pause_body_def g Let_def split: if_splits)+
  then show ?thesis
    using st free write_rows(1) [OF p] read_rows(1) [OF g]
    unfolding pause_done_def put_state_def by auto
qed

lemma pause_body_no_return: "pause_body now owner token acquire d \<noteq> (TxReturn x, d')"
  by (simp add: pause_body_def Let_def split: prod.split sum.split)

lemma pause_Inr:
  assumes "GestaltdSourceVersionService_changeAppDeployPause s now owner token acquire d = (Inr st', d')"
  shows "pause_done now (TrimSpace owner) (TrimSpace token) acquire (db_rows d) st' (db_rows d')"
    and "TrimSpace owner \<noteq> ''''" "TrimSpace token \<noteq> ''''"
proof -
  from assms have tx: "with_tx (pause_action acquire @ '' app deploy pause: begin transaction'')
      (pause_body now (TrimSpace owner) (TrimSpace token) acquire) d = (Inr st', d')"
    and ne: "TrimSpace owner \<noteq> ''''" "TrimSpace token \<noteq> ''''"
    by (auto simp: GestaltdSourceVersionService_changeAppDeployPause_def split: if_splits)
  from ne show "TrimSpace owner \<noteq> ''''" "TrimSpace token \<noteq> ''''" by auto
  from tx show "pause_done now (TrimSpace owner) (TrimSpace token) acquire (db_rows d) st' (db_rows d')"
    by (rule with_tx_post) (use pause_body_commit in metis, simp add: pause_body_no_return)
qed

lemma pause_Inl:
  "GestaltdSourceVersionService_changeAppDeployPause s now owner token acquire d = (Inl e, d') \<Longrightarrow>
    db_rows d' = db_rows d"
  by (auto simp: GestaltdSourceVersionService_changeAppDeployPause_def dest: with_tx_error split: if_splits)

definition promote_done ::
  "time \<Rightarrow> string \<Rightarrow> time \<Rightarrow> contents \<Rightarrow> GestaltdSourceVersionState \<Rightarrow> contents \<Rightarrow> bool" where
  "promote_done now sv at c st' c' \<longleftrightarrow>
     (if promoted_for (loaded_state c) sv then st' = loaded_state c \<and> c' = c
      else st' = (loaded_state c)\<lparr>sv_TemporalWorkersPromotedSourceVersion := sv,
          sv_TemporalWorkersPromotedAt := at\<rparr> \<and> c' = put_state now st' c)"

lemma promote_body_commit:
  assumes "promote_body now sv at d = (TxCommit m st', d')" and "state_rows_ok (db_rows d)"
  shows "promote_done now sv at (db_rows d) st' (db_rows d')"
proof -
  obtain g d1 where g: "store_GetAll StoreGestaltdSourceVersionState
      (QKey (KString gestaltdSourceVersionStateID)) 1 d = (g, d1)" by fastforce
  with assms(1) obtain recs where "g = Inr recs" by (cases g) (simp_all add: promote_body_def)
  note g = g [unfolded this]
  let ?state = "loaded_state (db_rows d)"
  let ?new = "?state\<lparr>sv_TemporalWorkersPromotedSourceVersion := sv, sv_TemporalWorkersPromotedAt := at\<rparr>"
  have st: "first_state recs = ?state" by (rule first_state_loaded [OF g assms(2)])
  show ?thesis
  proof (cases "promoted_for ?state sv")
    case True
    then show ?thesis
      using assms(1) read_rows(2) [OF g] by (simp add: promote_body_def g st promote_done_def del: One_nat_def)
  next
    case False
    obtain y d2 where p: "store_Put StoreGestaltdSourceVersionState
        (gestaltdSourceVersionStateRecord now ?new) d1 = (y, d2)" by fastforce
    from assms(1) False p have "y = Inr ()" "d2 = d'" "st' = ?new"
      by (cases y; simp add: promote_body_def g st Let_def del: One_nat_def)+
    then show ?thesis
      using False write_rows(1) [OF p] read_rows(2) [OF g] by (simp add: promote_done_def put_state_def)
  qed
qed

lemma promote_body_no_return: "promote_body now sv at d \<noteq> (TxReturn x, d')"
  by (simp add: promote_body_def Let_def split: prod.split sum.split)

lemma promote_Inr:
  assumes "GestaltdSourceVersionService_MarkTemporalWorkersPromoted s now sv at d = (Inr st', d')"
    and "state_rows_ok (db_rows d)"
  shows "promote_done now (TrimSpace sv) (normalizedSourceVersionTime now at) (db_rows d) st' (db_rows d')"
proof -
  from assms(1) have tx: "with_tx ''mark temporal workers promoted: begin transaction''
      (promote_body now (TrimSpace sv) (normalizedSourceVersionTime now at)) d = (Inr st', d')"
    by (auto simp: GestaltdSourceVersionService_MarkTemporalWorkersPromoted_def split: if_splits)
  from tx show ?thesis
    by (rule with_tx_post) (use promote_body_commit assms(2) in metis, simp add: promote_body_no_return)
qed

lemma promote_Inl:
  "GestaltdSourceVersionService_MarkTemporalWorkersPromoted s now sv at d = (Inl e, d') \<Longrightarrow>
    db_rows d' = db_rows d"
  by (auto simp: GestaltdSourceVersionService_MarkTemporalWorkersPromoted_def dest: with_tx_error
      split: if_splits)

subsection \<open>Retargeting, row by row\<close>

lemma rollouts_listed:
  assumes "rollouts_ok c"
  shows "distinct (map ro_App (map recordToAppRollout (rows_GetAll (c StoreAppRollouts) QAll 0)))"
    and "r \<in> set (map recordToAppRollout (rows_GetAll (c StoreAppRollouts) QAll 0)) \<longleftrightarrow>
      rollouts c (ro_App r) = Some r"
  using rollout_codec.listed [of c] assms unfolding rollouts_ok_def rollout_ok_def rollouts_def
  by blast+

lemma retargeted_storable:
  assumes "ac_rolloutMode a \<in> {AppRolloutModeEnrollment, AppRolloutModeHeartbeat}"
  shows "storable_rollout (retargeted a state r)"
  using assms by (auto simp: storable_rollout_def canonical_def retargeted_def Let_def)

lemma retargeted_app [simp]: "ro_App (retargeted a state r) = ro_App r"
  by (simp add: retargeted_def Let_def)

lemma retarget_needs_change:
  "retarget a state r \<Longrightarrow> sourceChanged a state \<or> minimumChanged a state \<or> ac_retry a"
  by (auto simp: retarget_def split: if_splits)

lemma activate_rollouts:
  assumes "activate_done now a c st' c'" and "rollouts_ok c"
    and mode: "ac_rolloutMode a \<in> {AppRolloutModeEnrollment, AppRolloutModeHeartbeat}"
  shows "rollouts c' k =
    map_option (\<lambda>r. if retarget a (loaded_state c) r then retargeted a (loaded_state c) r else r) (rollouts c k)"
proof -
  let ?st = "loaded_state c" and ?rs = "retarget_list a (loaded_state c) c"
  have sub: "distinct (map ro_App ?rs)"
    unfolding retarget_list_def using distinct_map_filter [OF rollouts_listed(1) [OF assms(2)]] by simp
  have mem: "r \<in> set ?rs \<longleftrightarrow> rollouts c (ro_App r) = Some r \<and> retarget a ?st r" for r
    unfolding retarget_list_def
    using rollouts_listed(2) [OF assms(2), of r] retarget_needs_change [of a ?st r]
    by (cases "sourceChanged a ?st \<or> minimumChanged a ?st \<or> ac_retry a") (simp_all del: set_map, blast)
  have "rollouts (fold (\<lambda>r. put_rollout (retargeted a ?st r)) ?rs c) k =
      (case find (\<lambda>r. ro_App r = k) ?rs of None \<Rightarrow> rollouts c k | Some r \<Rightarrow> Some (retargeted a ?st r))"
    using rollout_codec.lookup_write_all [of ?rs "retargeted a ?st" c k] sub retargeted_storable [OF mode]
    unfolding rollouts_def put_rollout_def by simp
  then have look: "rollouts c' k = (case find (\<lambda>r. ro_App r = k) ?rs of None \<Rightarrow> rollouts c k
      | Some r \<Rightarrow> Some (retargeted a ?st r))"
    using assms(1) by (simp add: activate_done_def)
  have key: "ro_App r = k" if "rollouts c k = Some r" for r
    using rollouts_okD [OF assms(2) that] by (simp add: rollout_ok_def)
  have fnd: "find (\<lambda>r. ro_App r = k) ?rs = Some r \<longleftrightarrow> rollouts c k = Some r \<and> retarget a ?st r" for r
    unfolding find_unique [OF sub] mem using key by blast
  show ?thesis
  proof (cases "find (\<lambda>r. ro_App r = k) ?rs")
    case None
    then have "\<not> retarget a ?st r" if "rollouts c k = Some r" for r using fnd that by auto
    then show ?thesis using look None by (cases "rollouts c k") simp_all
  next
    case (Some r)
    then have "rollouts c k = Some r \<and> retarget a ?st r" using fnd by simp
    then show ?thesis using look Some by simp
  qed
qed

lemma activate_state:
  "activate_done now a c st' c' \<Longrightarrow>
    st' = activated a (loaded_state c) \<and> sv_state c' = Some (stored_state now st')"
  by (simp add: activate_done_def)

lemma check_activation_facts:
  assumes "check_activation now sv at retry ew rt mode mins = Inr a"
  shows "ac_rolloutMode a \<in> {AppRolloutModeEnrollment, AppRolloutModeHeartbeat}"
    "ac_sourceVersion a = TrimSpace sv" "TrimSpace sv \<noteq> ''''" "ac_at a = normalizedSourceVersionTime now at"
    "0 < ac_enrollmentWindow a" "ac_enrollmentWindow a < ac_rolloutTimeout a" "ac_retry a = retry"
    "ac_rolloutMode a = AppRolloutModeHeartbeat \<Longrightarrow> 0 < ac_requestedMinimumHealthy a"
  using assms
  by (auto simp: check_activation_def Let_def defaultHeartbeatRolloutMinimumHealthyInstances_def
      split: if_splits list.splits)

lemma retargeted_ok:
  assumes "check_activation now sv at retry ew rt mode mins = Inr a" and "rollout_ok k r"
  shows "rollout_ok k (retargeted a state r)"
proof -
  note f = check_activation_facts [OF assms(1)]
  have "0 < effectiveMinimumHealthy a state" if "ac_rolloutMode a = AppRolloutModeHeartbeat"
    using f(8) [OF that] by (simp add: effectiveMinimumHealthy_def)
  then show ?thesis
    using assms(2) f by (auto simp: rollout_ok_def retargeted_def Let_def)
qed

lemma fold_put_rollout_inv:
  assumes "rollouts_inv c" and "\<And>r. r \<in> set rs \<Longrightarrow> rollout_ok (ro_App r) (f r) \<and> ascii (ro_App r)"
    and "state_rows_ok c"
  shows "rollouts_inv (fold (\<lambda>r. put_rollout (f r)) rs c) \<and> state_rows_ok (fold (\<lambda>r. put_rollout (f r)) rs c)"
  using assms
proof (induction rs arbitrary: c)
  case (Cons r rs c)
  have "ro_App (f r) = ro_App r" using Cons.prems(2) [of r] by (simp add: rollout_ok_def)
  then have "rollouts_inv (put_rollout (f r) c)"
    using Cons.prems(1,2) rollouts_ok_put [of c "ro_App r" "f r"] ascii_keys_put_rollout [of c "f r"]
    by (simp add: rollouts_inv_def)
  then show ?case using Cons.IH [of "put_rollout (f r) c"] Cons.prems(2,3) by simp
qed simp

text \<open>The invariant of the rows this component and the rollouts share.\<close>

definition control_inv :: "contents \<Rightarrow> bool" where
  "control_inv c \<longleftrightarrow> rollouts_inv c \<and> state_rows_ok c"

lemma Activate_inv:
  assumes "GestaltdSourceVersionService_ActivateWithRolloutMode s now sv at retry ew rt mode mins d = (x, d')"
    and "control_inv (db_rows d)"
  shows "control_inv (db_rows d')"
proof (cases x)
  case (Inl e)
  then show ?thesis using assms Activate_Inl by metis
next
  case (Inr st')
  have ok: "rollouts_ok (db_rows d)" "state_rows_ok (db_rows d)"
    using assms(2) by (simp_all add: control_inv_def rollouts_inv_def)
  from Activate_Inr [OF assms(1) [unfolded Inr] ok(2)] obtain a where
    a: "check_activation now sv at retry ew rt mode mins = Inr a"
    and act: "activate_done now a (db_rows d) st' (db_rows d')" by blast
  let ?st = "loaded_state (db_rows d)"
  have "rollout_ok (ro_App r) (retargeted a ?st r) \<and> ascii (ro_App r)"
    if "r \<in> set (retarget_list a ?st (db_rows d))" for r
  proof -
    have "rollouts (db_rows d) (ro_App r) = Some r"
      using that rollouts_listed(2) [OF ok(1), of r] by (auto simp: retarget_list_def split: if_splits)
    then show ?thesis
      using retargeted_ok [OF a] rollouts_okD [OF ok(1)] rollouts_key assms(2)
      unfolding control_inv_def rollouts_inv_def by blast
  qed
  from fold_put_rollout_inv [OF _ this ok(2)] show ?thesis
    using act assms(2) state_rows_ok_put by (simp add: activate_done_def control_inv_def)
qed

lemma CreateAppRollout_inv:
  assumes "GestaltdSourceVersionService_CreateAppRollout s now (Some r) d = (x, d')"
    and "control_inv (db_rows d)" and "0 < ro_CreatedAt r" and "ascii (TrimSpace (ro_App r))"
  shows "control_inv (db_rows d')"
proof (cases x)
  case (Inl e)
  then show ?thesis using assms CreateAppRollout_Inl by metis
next
  case (Inr r')
  have inv: "rollouts_inv (db_rows d)" using assms(2) by (simp add: control_inv_def)
  have c: "create_app_done now r (db_rows d) r' (db_rows d')"
    by (rule CreateAppRollout_Inr [OF assms(1) [unfolded Inr] assms(3) inv assms(4)])
  have "ro_App r' = TrimSpace (ro_App r)"
    using c by (auto simp: create_app_done_def pending_rollout_def normalizeAppRollout_def Let_def)
  then show ?thesis
    using c inv assms(2,4) rollouts_ok_put [of "db_rows d" "ro_App r'" r']
      ascii_keys_put_rollout [of "db_rows d" r']
    by (auto simp: create_app_done_def create_done_def control_inv_def rollouts_inv_def)
qed

lemma pause_inv:
  assumes "GestaltdSourceVersionService_changeAppDeployPause s now ow tk acq d = (x, d')"
    and "control_inv (db_rows d)"
  shows "control_inv (db_rows d')"
proof (cases x)
  case (Inl e)
  then show ?thesis using assms pause_Inl by metis
next
  case (Inr st')
  from pause_Inr(1) [OF assms(1) [unfolded Inr]] show ?thesis
    using assms(2) state_rows_ok_put by (auto simp: control_inv_def pause_done_def)
qed

lemma promote_inv:
  assumes "GestaltdSourceVersionService_MarkTemporalWorkersPromoted s now sv at d = (x, d')"
    and "control_inv (db_rows d)"
  shows "control_inv (db_rows d')"
proof (cases x)
  case (Inl e)
  then show ?thesis using assms promote_Inl by metis
next
  case (Inr st')
  have "state_rows_ok (db_rows d)" using assms(2) by (simp add: control_inv_def)
  from promote_Inr [OF assms(1) [unfolded Inr] this] show ?thesis
    using assms(2) state_rows_ok_put by (auto simp: control_inv_def promote_done_def split: if_splits)
qed

end
