(* ===== verification/Control_Plane.thy ===== *)
theory Control_Plane
  imports Source_Versions
begin

text \<open>
  Rollouts and source versions together: the steps the services take on the shared database, in
  any order and with any failures, and what every run of them keeps.
\<close>

subsection \<open>Steps\<close>

datatype control_event =
    EvTransition
  | EvEvaluate
  | EvCreate
  | EvActivate
  | EvPause string string bool
  | EvPromote

inductive control_step :: "control_event \<Rightarrow> db \<Rightarrow> db \<Rightarrow> bool" where
  step_transition: "control_step EvTransition d d'"
    if "AppRolloutService_transition s now app v st at ex d = (x, d')"
| step_evaluate: "control_step EvEvaluate d d'"
    if "AppRolloutService_EvaluateHeartbeatRollout s now ex ev d = (y, d')"
| step_create: "control_step EvCreate d d'"
    if "GestaltdSourceVersionService_CreateAppRollout s now (Some r) d = (x, d')"
      and "0 < ro_CreatedAt r" and "ascii (TrimSpace (ro_App r))"
| step_activate: "control_step EvActivate d d'"
    if "GestaltdSourceVersionService_ActivateWithRolloutMode s now sv at retry ew rt mode mins d = (z, d')"
| step_pause: "control_step (EvPause (TrimSpace owner) (TrimSpace token) acquire) d d'"
    if "GestaltdSourceVersionService_changeAppDeployPause s now owner token acquire d = (z, d')"
| step_promote: "control_step EvPromote d d'"
    if "GestaltdSourceVersionService_MarkTemporalWorkersPromoted s now sv at d = (z, d')"

inductive control_run :: "db \<Rightarrow> control_event list \<Rightarrow> db \<Rightarrow> bool" where
  run_nil: "control_run d [] d"
| run_step: "control_run d (ev # evs) d''" if "control_step ev d d'" and "control_run d' evs d''"

inductive_cases control_run_NilE [elim!]: "control_run d [] d'"
inductive_cases control_run_ConsE [elim!]: "control_run d (ev # evs) d'"

lemma control_step_inv:
  assumes "control_step ev d d'" and "control_inv (db_rows d)"
  shows "control_inv (db_rows d')"
  using assms
proof cases
  case (step_transition s now app v st at ex x)
  have ok: "rollouts_ok (db_rows d)" using assms(2) by (simp add: control_inv_def rollouts_inv_def)
  have "rollouts_inv (db_rows d')"
    using run_call_inv [of d "CallTransition now app v st at ex" s] assms(2) step_transition
    by (simp add: control_inv_def)
  moreover have "state_rows_ok (db_rows d')"
    using transition_rows [OF step_transition(2) ok] assms(2) by (auto simp: control_inv_def)
  ultimately show ?thesis by (simp add: control_inv_def)
next
  case (step_evaluate s now ex ev' y)
  have ok: "rollouts_ok (db_rows d)" using assms(2) by (simp add: control_inv_def rollouts_inv_def)
  have "rollouts_inv (db_rows d')"
    using run_call_inv [of d "CallEvaluate now ex ev'" s] assms(2) step_evaluate
    by (simp add: control_inv_def)
  moreover have "state_rows_ok (db_rows d')"
    using Evaluate_rows [OF step_evaluate(2) ok] assms(2) by (auto simp: control_inv_def)
  ultimately show ?thesis by (simp add: control_inv_def)
next
  case (step_create s now r x)
  then show ?thesis using CreateAppRollout_inv assms(2) by blast
next
  case (step_activate s now sv at retry ew rt mode mins z)
  then show ?thesis using Activate_inv assms(2) by blast
next
  case (step_pause s now owner token acquire z)
  then show ?thesis using pause_inv assms(2) by blast
next
  case (step_promote s now sv at z)
  then show ?thesis using promote_inv assms(2) by blast
qed

lemma control_run_inv:
  "control_run d evs d' \<Longrightarrow> control_inv (db_rows d) \<Longrightarrow> control_inv (db_rows d')"
  by (induction rule: control_run.induct) (auto dest: control_step_inv)

subsection \<open>The deploy pause\<close>

definition pause_held :: "string \<Rightarrow> string \<Rightarrow> contents \<Rightarrow> bool" where
  "pause_held owner token c \<longleftrightarrow> owner \<noteq> '''' \<and> TrimSpace owner = owner \<and> TrimSpace token = token \<and>
     (\<exists>st. sv_state c = Some st \<and> sv_AppDeployPauseOwner st = owner \<and> sv_AppDeployPauseToken st = token)"

text \<open>What a step can have done to the state row.\<close>

lemma rollout_step_state:
  assumes "control_step ev d d'" and "control_inv (db_rows d)"
    and "ev \<in> {EvTransition, EvEvaluate, EvCreate}"
  shows "sv_state (db_rows d') = sv_state (db_rows d)"
proof -
  have ok: "rollouts_ok (db_rows d)" "rollouts_inv (db_rows d)"
    using assms(2) by (simp_all add: control_inv_def rollouts_inv_def)
  from assms(1) show ?thesis
  proof cases
    case (step_transition s now app v st at ex x)
    from transition_rows [OF step_transition(2) ok(1)] show ?thesis by auto
  next
    case (step_evaluate s now ex ev' y)
    from Evaluate_rows [OF step_evaluate(2) ok(1)] show ?thesis by auto
  next
    case (step_create s now r x)
    show ?thesis
    proof (cases x)
      case (Inl e)
      from CreateAppRollout_Inl [OF step_create(2) [unfolded Inl]] show ?thesis by simp
    next
      case (Inr r')
      from CreateAppRollout_Inr [OF step_create(2) [unfolded Inr] step_create(3) ok(2) step_create(4)]
      show ?thesis by (auto simp: create_app_done_def create_done_def)
    qed
  qed (use assms(3) in simp_all)
qed

definition activation_ok :: "activation \<Rightarrow> bool" where
  "activation_ok a \<longleftrightarrow>
     ac_rolloutMode a \<in> {AppRolloutModeEnrollment, AppRolloutModeHeartbeat} \<and>
     ac_sourceVersion a \<noteq> '''' \<and> TrimSpace (ac_sourceVersion a) = ac_sourceVersion a"

lemma check_activation_ok:
  "check_activation now sv at retry ew rt mode mins = Inr a \<Longrightarrow> activation_ok a"
  using check_activation_facts(1-3) [of now sv at retry ew rt mode mins a] by (simp add: activation_ok_def)

lemma activate_step_state:
  assumes "control_step EvActivate d d'" and "control_inv (db_rows d)"
  shows "db_rows d' = db_rows d \<or>
    (\<exists>now a st'. activation_ok a \<and> activate_done now a (db_rows d) st' (db_rows d'))"
  using assms(1)
proof cases
  case (step_activate s now sv at retry ew rt mode mins z)
  have ok: "state_rows_ok (db_rows d)" using assms(2) by (simp add: control_inv_def)
  show ?thesis
  proof (cases z)
    case (Inl e)
    from Activate_Inl [OF step_activate(1) [unfolded Inl]] show ?thesis by simp
  next
    case (Inr st')
    obtain a where "check_activation now sv at retry ew rt mode mins = Inr a"
      and "activate_done now a (db_rows d) st' (db_rows d')"
      by (rule Activate_Inr [OF step_activate(1) [unfolded Inr] ok])
    then show ?thesis using check_activation_ok by metis
  qed
qed

lemma pause_step_state:
  assumes "control_step (EvPause owner token acquire) d d'"
  shows "db_rows d' = db_rows d \<or>
    (\<exists>now st'. pause_done now owner token acquire (db_rows d) st' (db_rows d')) \<and> owner \<noteq> ''''"
  using assms
proof cases
  case (step_pause s now ow tk z)
  show ?thesis
  proof (cases z)
    case (Inl e)
    from pause_Inl [OF step_pause(3) [unfolded Inl]] show ?thesis by simp
  next
    case (Inr st')
    from pause_Inr [OF step_pause(3) [unfolded Inr]] step_pause(1,2) show ?thesis by auto
  qed
qed

lemma promote_step_state:
  assumes "control_step EvPromote d d'" and "control_inv (db_rows d)"
  shows "db_rows d' = db_rows d \<or>
    (\<exists>now sv at st'. promote_done now sv at (db_rows d) st' (db_rows d'))"
  using assms(1)
proof cases
  case (step_promote s now sv at z)
  have ok: "state_rows_ok (db_rows d)" using assms(2) by (simp add: control_inv_def)
  show ?thesis
  proof (cases z)
    case (Inl e)
    from promote_Inl [OF step_promote(1) [unfolded Inl]] show ?thesis by simp
  next
    case (Inr st')
    from promote_Inr [OF step_promote(1) [unfolded Inr] ok] show ?thesis by blast
  qed
qed

lemma pause_held_put_state:
  "pause_held owner token c \<Longrightarrow> sv_AppDeployPauseOwner st = owner \<Longrightarrow> sv_AppDeployPauseToken st = token \<Longrightarrow>
    pause_held owner token (put_state now st c')"
  by (simp add: pause_held_def stored_state_def)

lemma pause_held_loaded:
  "pause_held owner token c \<Longrightarrow> sv_AppDeployPauseOwner (loaded_state c) = owner \<and>
    sv_AppDeployPauseToken (loaded_state c) = token \<and> sv_state c = Some (loaded_state c) \<and> owner \<noteq> ''''"
  by (auto simp: pause_held_def loaded_state_def)

lemma pause_held_step:
  assumes "control_step ev d d'" and "control_inv (db_rows d)" and "pause_held owner token (db_rows d)"
    and "ev \<noteq> EvPause owner token False"
  shows "pause_held owner token (db_rows d')"
proof -
  note loaded = pause_held_loaded [OF assms(3)]
  have put: "pause_held owner token (db_rows d')"
    if "db_rows d' = put_state now st' c'" "sv_AppDeployPauseOwner st' = owner"
      "sv_AppDeployPauseToken st' = token" for now st' c'
    unfolding that(1) by (rule pause_held_put_state [OF assms(3) that(2,3)])
  have same: "pause_held owner token (db_rows d')" if "sv_state (db_rows d') = sv_state (db_rows d)"
    using assms(3) that by (simp add: pause_held_def)
  show ?thesis
  proof (cases ev)
    case EvActivate
    from activate_step_state [OF assms(1) [unfolded this] assms(2)]
    consider "db_rows d' = db_rows d" | now a st' where "activate_done now a (db_rows d) st' (db_rows d')"
      by blast
    then show ?thesis
    proof cases
      case 2
      then show ?thesis using loaded by (intro put) (auto simp: activate_done_def activated_def)
    qed (simp add: assms(3))
  next
    case (EvPause ow tk acq)
    from pause_step_state [OF assms(1) [unfolded this]]
    consider "db_rows d' = db_rows d"
      | now st' where "pause_done now ow tk acq (db_rows d) st' (db_rows d')" by blast
    then show ?thesis
    proof cases
      case 2
      then show ?thesis using loaded assms(4) EvPause by (intro put) (auto simp: pause_done_def)
    qed (simp add: assms(3))
  next
    case EvPromote
    from promote_step_state [OF assms(1) [unfolded this] assms(2)]
    consider "db_rows d' = db_rows d"
      | now sv at st' where "promote_done now sv at (db_rows d) st' (db_rows d')" by blast
    then show ?thesis
    proof cases
      case 2
      show ?thesis
      proof (cases "promoted_for (loaded_state (db_rows d)) sv")
        case True
        then show ?thesis using 2 assms(3) by (simp add: promote_done_def)
      next
        case False
        then show ?thesis using 2 loaded by (intro put) (auto simp: promote_done_def)
      qed
    qed (simp add: assms(3))
  qed (use rollout_step_state [OF assms(1,2)] same in simp_all)
qed

lemma pause_held_run:
  "control_run d evs d' \<Longrightarrow> control_inv (db_rows d) \<Longrightarrow> pause_held owner token (db_rows d) \<Longrightarrow>
    EvPause owner token False \<notin> set evs \<Longrightarrow> pause_held owner token (db_rows d')"
  by (induction rule: control_run.induct) (auto dest: control_step_inv pause_held_step)

subsection \<open>Active rollouts follow the source version\<close>

text \<open>
  Every active rollout targets the current source version, and an active heartbeat rollout asks
  for the current minimum of healthy instances.
\<close>

definition targets :: "GestaltdSourceVersionState \<Rightarrow> AppRollout \<Rightarrow> bool" where
  "targets st r \<longleftrightarrow>
     TrimSpace (ro_TargetSourceVersion r) = TrimSpace (sv_CurrentSourceVersion st) \<and>
     (ro_Mode r = AppRolloutModeHeartbeat \<longrightarrow> ro_MinimumHealthyInstances r = sv_MinimumHealthyInstances st)"

definition aligned :: "contents \<Rightarrow> bool" where
  "aligned c \<longleftrightarrow>
     (\<forall>k r. rollouts c k = Some r \<longrightarrow> isActiveRolloutState (ro_State r) \<longrightarrow>
       (\<exists>st. sv_state c = Some st \<and> targets st r))"

lemma aligned_put_rollout:
  assumes "aligned c" and "rollout_ok k r'"
    and "isActiveRolloutState (ro_State r') \<Longrightarrow> \<exists>st. sv_state c = Some st \<and> targets st r'"
  shows "aligned (put_rollout r' c)"
  using assms unfolding aligned_def rollouts_put [OF assms(2)] by (auto simp: targets_def)

lemma aligned_keep:
  assumes "aligned c" and "rollouts c k = Some r" and "rollout_ok k r'"
    and "isActiveRolloutState (ro_State r') \<Longrightarrow> isActiveRolloutState (ro_State r)"
    and "ro_TargetSourceVersion r' = ro_TargetSourceVersion r" "ro_Mode r' = ro_Mode r"
      "ro_MinimumHealthyInstances r' = ro_MinimumHealthyInstances r"
  shows "aligned (put_rollout r' c)"
  by (rule aligned_put_rollout [OF assms(1,3)])
    (use assms in \<open>auto simp: aligned_def targets_def\<close>)

lemma aligned_put_state:
  assumes "aligned c"
    and "\<And>st. sv_state c = Some st \<Longrightarrow> sv_CurrentSourceVersion st' = sv_CurrentSourceVersion st \<and>
      sv_MinimumHealthyInstances st' = sv_MinimumHealthyInstances st"
  shows "aligned (put_state now st' c)"
  using assms by (fastforce simp: aligned_def targets_def stored_state_def)

lemma aligned_transition:
  assumes "AppRolloutService_transition s now app v st at ex d = (x, d')"
    and "aligned (db_rows d)" and ok: "rollouts_ok (db_rows d)"
  shows "aligned (db_rows d')"
proof -
  from transition_rows [OF assms(1) ok] consider "db_rows d' = db_rows d"
    | r r' where "rollouts (db_rows d) (TrimSpace app) = Some r" "isActiveRolloutState (ro_State r)"
      "enter_state now st at r = Some r'" "db_rows d' = put_rollout r' (db_rows d)" by blast
  then show ?thesis
  proof cases
    case 2
    note f = enter_state_frame [OF 2(3)]
    show ?thesis
      unfolding 2(4)
      by (rule aligned_keep [OF assms(2) 2(1) enter_state_ok [OF 2(3) rollouts_okD [OF ok 2(1)]]])
        (use 2(2) f in simp_all)
  qed (simp add: assms(2))
qed

lemma aligned_evaluate:
  assumes "AppRolloutService_EvaluateHeartbeatRollout s now ex ev d = (x, d')"
    and "aligned (db_rows d)" and ok: "rollouts_ok (db_rows d)"
  shows "aligned (db_rows d')"
proof -
  from Evaluate_rows [OF assms(1) ok] consider "db_rows d' = db_rows d"
    | k r r' b where "rollouts (db_rows d) k = Some r" "ro_State r = AppRolloutStateRestarting"
      "apply_observation (normalizedRolloutTime now (ev_EvaluatedAt ev)) ev r = (r', b)"
      "db_rows d' = put_rollout r' (db_rows d)" by blast
  then show ?thesis
  proof cases
    case 2
    note f = apply_observation_frame [OF 2(3)]
    show ?thesis
      unfolding 2(4)
      by (rule aligned_keep [OF assms(2) 2(1) apply_observation_ok [OF 2(3) rollouts_okD [OF ok 2(1)]]])
        (use 2(2) f in \<open>simp_all add: isActiveRolloutState_def\<close>)
  qed (simp add: assms(2))
qed

lemma aligned_create:
  assumes "create_app_done now r c r' c'" and "aligned c"
  shows "aligned c'"
proof -
  from assms(1) obtain st where st: "sv_state c = Some st" "r' = pending_rollout now st r"
    "rollout_ok (ro_App r') r'" "c' = put_rollout r' c"
    by (auto simp: create_app_done_def create_done_def)
  have "targets st r'"
    using st(2) by (auto simp: targets_def pending_rollout_def normalizeAppRollout_def Let_def)
  then show ?thesis unfolding st(4) using aligned_put_rollout [OF assms(2) st(3)] st(1) by blast
qed

lemma aligned_activate:
  assumes act: "activate_done now a c st' c'" and ok: "activation_ok a" "rollouts_ok c" and al: "aligned c"
  shows "aligned c'"
  unfolding aligned_def
proof (intro allI impI)
  fix k r assume r: "rollouts c' k = Some r" and active: "isActiveRolloutState (ro_State r)"
  let ?st = "loaded_state c"
  have mode: "ac_rolloutMode a \<in> {AppRolloutModeEnrollment, AppRolloutModeHeartbeat}"
    using ok(1) by (simp add: activation_ok_def)
  have st': "sv_state c' = Some (stored_state now (activated a ?st))" using activate_state [OF act] by simp
  have trim: "TrimSpace (ac_sourceVersion a) = ac_sourceVersion a" using ok(1) by (simp add: activation_ok_def)
  from r activate_rollouts [OF act ok(2) mode, of k] obtain r0 where r0: "rollouts c k = Some r0"
    and r_def: "r = (if retarget a ?st r0 then retargeted a ?st r0 else r0)" by auto
  have "targets (activated a ?st) r"
  proof (cases "retarget a ?st r0")
    case True
    then show ?thesis
      using r_def by (auto simp: targets_def activated_def retargeted_def Let_def)
  next
    case False
    then have eq: "r = r0" using r_def by simp
    then obtain st where st: "sv_state c = Some st" "targets st r" using al r0 active by (auto simp: aligned_def)
    then have "?st = st" by (simp add: loaded_state_def)
    moreover have "\<not> sourceChanged a ?st \<and> \<not> minimumChanged a ?st"
      using False active eq by (auto simp: retarget_def split: if_splits)
    ultimately show ?thesis
      using st(2) trim by (auto simp: targets_def activated_def sourceChanged_def minimumChanged_def)
  qed
  then have "targets (stored_state now (activated a ?st)) r" by (simp add: targets_def stored_state_def)
  then show "\<exists>st. sv_state c' = Some st \<and> targets st r" using st' by blast
qed

lemma aligned_step:
  assumes "control_step ev d d'" and inv: "control_inv (db_rows d)" and al: "aligned (db_rows d)"
  shows "aligned (db_rows d')"
proof -
  have ok: "rollouts_ok (db_rows d)" "rollouts_inv (db_rows d)"
    using inv by (simp_all add: control_inv_def rollouts_inv_def)
  have keep: "aligned (put_state now st' (db_rows d))"
    if "sv_CurrentSourceVersion st' = sv_CurrentSourceVersion (loaded_state (db_rows d))"
      "sv_MinimumHealthyInstances st' = sv_MinimumHealthyInstances (loaded_state (db_rows d))" for now st'
    by (rule aligned_put_state [OF al]) (use that in \<open>simp add: loaded_state_def\<close>)
  show ?thesis
  proof (cases ev)
    case EvTransition
    with assms(1) show ?thesis by (auto elim!: control_step.cases intro: aligned_transition [OF _ al ok(1)])
  next
    case EvEvaluate
    with assms(1) show ?thesis by (auto elim!: control_step.cases intro: aligned_evaluate [OF _ al ok(1)])
  next
    case EvCreate
    from assms(1) [unfolded this] show ?thesis
    proof cases
      case (step_create s now r x)
      show ?thesis
      proof (cases x)
        case (Inl e)
        from CreateAppRollout_Inl [OF step_create(1) [unfolded Inl]] al show ?thesis by simp
      next
        case (Inr r')
        from CreateAppRollout_Inr [OF step_create(1) [unfolded Inr] step_create(2) ok(2) step_create(3)]
        show ?thesis using al by (rule aligned_create)
      qed
    qed
  next
    case EvActivate
    from activate_step_state [OF assms(1) [unfolded this] inv] show ?thesis
      using al aligned_activate [OF _ _ ok(1) al] by metis
  next
    case (EvPause ow tk acq)
    from pause_step_state [OF assms(1) [unfolded this]]
    consider "db_rows d' = db_rows d"
      | now st' where "pause_done now ow tk acq (db_rows d) st' (db_rows d')" by blast
    then show ?thesis
    proof cases
      case 2
      then show ?thesis using keep by (auto simp: pause_done_def loaded_state_def)
    qed (simp add: al)
  next
    case EvPromote
    from promote_step_state [OF assms(1) [unfolded this] inv]
    consider "db_rows d' = db_rows d"
      | now sv at st' where "promote_done now sv at (db_rows d) st' (db_rows d')" by blast
    then show ?thesis
    proof cases
      case 2
      then show ?thesis using keep al by (auto simp: promote_done_def split: if_splits)
    qed (simp add: al)
  qed
qed

lemma aligned_run:
  "control_run d evs d' \<Longrightarrow> control_inv (db_rows d) \<Longrightarrow> aligned (db_rows d) \<Longrightarrow> aligned (db_rows d')"
  by (induction rule: control_run.induct) (auto dest: control_step_inv aligned_step)

lemma paused_body:
  assumes "pause_held owner token (db_rows d)"
  shows "\<exists>e d'. create_app_rollout_body now r d = (TxFail e, d') \<and>
    (db_healthy d \<longrightarrow> e = ErrAppDeployPaused \<and> db_healthy d')"
proof -
  obtain st where st: "sv_state (db_rows d) = Some st" "TrimSpace (sv_AppDeployPauseOwner st) \<noteq> ''''"
    using assms by (auto simp: pause_held_def)
  then obtain rec where rec: "map_of (db_rows d StoreGestaltdSourceVersionState) gestaltdSourceVersionStateID = Some rec"
    "recordToGestaltdSourceVersionState rec = st" by (auto simp: sv_state_def)
  obtain g d1 where g: "store_Get StoreGestaltdSourceVersionState gestaltdSourceVersionStateID d = (g, d1)"
    by fastforce
  show ?thesis
  proof (cases g)
    case (Inl e)
    then show ?thesis
      using g rec(1) healthy_store(1) [of d StoreGestaltdSourceVersionState gestaltdSourceVersionStateID]
      by (auto simp: create_app_rollout_body_def)
  next
    case (Inr x)
    then have "x = rec" using store_Get_Inr [OF g [unfolded Inr]] rec(1) by simp
    moreover have "db_healthy d \<Longrightarrow> db_healthy d1"
      using healthy_store(1) [of d StoreGestaltdSourceVersionState gestaltdSourceVersionStateID] g rec(1) by simp
    ultimately show ?thesis using g Inr rec(2) st(2) by (simp add: create_app_rollout_body_def Let_def)
  qed
qed

lemma paused_create:
  assumes "pause_held owner token (db_rows d)"
  shows "\<exists>e d'. GestaltdSourceVersionService_CreateAppRollout s now (Some r) d = (Inl e, d') \<and>
    (s \<and> db_healthy d \<longrightarrow> e = ErrAppDeployPaused)"
proof (cases "GestaltdSourceVersionService_CreateAppRollout s now (Some r) d")
  case (Pair x d')
  let ?msg = "''create source-version app rollout: begin transaction''"
  show ?thesis
  proof (cases s)
    case s: True
    then have tx: "with_tx ?msg (create_app_rollout_body now r) d = (x, d')"
      using Pair by (simp add: GestaltdSourceVersionService_CreateAppRollout_def)
    have "x \<noteq> Inr r'" for r'
    proof
      assume "x = Inr r'"
      then obtain d1 where "db_rows d1 = db_rows d" and "\<And>e d2. create_app_rollout_body now r d1 \<noteq> (TxFail e, d2)"
        using with_tx_Inr [OF tx [unfolded \<open>x = Inr r'\<close>]] by (metis Pair_inject db_rows_stores tx_end.distinct(1,3))
      then show False using paused_body [of owner token d1 now r] assms by auto
    qed
    moreover have "x = Inl ErrAppDeployPaused" if h: "db_healthy d"
    proof -
      have "\<exists>d'. create_app_rollout_body now r (d\<lparr>db_tick := Suc (db_tick d)\<rparr>) = (TxFail ErrAppDeployPaused, d') \<and>
          db_healthy d'"
        using paused_body [of owner token "d\<lparr>db_tick := Suc (db_tick d)\<rparr>" now r] assms h by auto
      then obtain d2 where "create_app_rollout_body now r (d\<lparr>db_tick := Suc (db_tick d)\<rparr>) =
          (TxFail ErrAppDeployPaused, d2)" "db_healthy d2" by blast
      from with_tx_healthy [where body = "create_app_rollout_body now r", OF h this] tx show ?thesis by simp
    qed
    ultimately show ?thesis using Pair by (cases x) auto
  qed (simp add: GestaltdSourceVersionService_CreateAppRollout_def)
qed

lemma changeAppDeployPause_healthy:
  assumes "GestaltdSourceVersionService_changeAppDeployPause s now owner token acquire d = (x, d')"
    and "db_healthy d"
  shows "db_healthy d'"
proof -
  have "db_fail d2 = db_fail d1" if "pause_body now ow tk acquire d1 = (t, d2)" for ow tk d1 t d2
    using that by (auto simp: pause_body_def Let_def dest!: store_op_fail(1,7)
        split: prod.splits sum.splits if_splits)
  then show ?thesis
    using assms with_tx_fail
    by (fastforce simp: GestaltdSourceVersionService_changeAppDeployPause_def db_healthy_def split: if_splits)
qed

lemma MarkTemporalWorkersPromoted_healthy:
  assumes "GestaltdSourceVersionService_MarkTemporalWorkersPromoted s now sv at d = (x, d')" and "db_healthy d"
  shows "db_healthy d'"
proof -
  have "db_fail d2 = db_fail d1" if "promote_body now ow tk d1 = (t, d2)" for ow tk d1 t d2
    using that by (auto simp: promote_body_def Let_def dest!: store_op_fail(2,7)
        split: prod.splits sum.splits if_splits)
  then show ?thesis
    using assms with_tx_fail
    by (fastforce simp: GestaltdSourceVersionService_MarkTemporalWorkersPromoted_def db_healthy_def
        split: if_splits)
qed

text \<open>On an answering provider a valid activation and a promotion succeed.\<close>

lemma state_no_conflict:
  "schema_ok d \<Longrightarrow> \<not> hasUniqueConflict (db_stores d StoreGestaltdSourceVersionState) r ig"
  using schema_ok_indexes [OF _ schema_member(2)]
  by (intro no_unique_conflict) (simp add: GestaltdSourceVersionStateSchema_def index_def)

lemma healthy_put_state:
  "db_healthy d \<Longrightarrow> schema_ok d \<Longrightarrow>
    \<exists>d'. store_Put StoreGestaltdSourceVersionState (gestaltdSourceVersionStateRecord now st) d = (Inr (), d') \<and>
      db_healthy d' \<and> schema_ok d'"
  using healthy_store(5) [of d StoreGestaltdSourceVersionState "gestaltdSourceVersionStateRecord now st"]
    state_no_conflict by simp

lemma retarget_rollouts_healthy:
  "db_healthy d \<Longrightarrow> schema_ok d \<Longrightarrow>
    \<exists>d'. retarget_rollouts a st recs d = (Inr (), d') \<and> db_healthy d' \<and> schema_ok d'"
proof (induction recs arbitrary: d)
  case (Cons rec recs)
  let ?r = "retargeted a st (recordToAppRollout rec)"
  show ?case
  proof (cases "retarget a st (recordToAppRollout rec)")
    case True
    then show ?thesis using Cons.IH Cons.prems by (simp add: Let_def healthy_put_rollout)
  qed (use Cons in \<open>simp add: Let_def\<close>)
qed simp

lemma Activate_healthy:
  assumes "db_healthy d" and "schema_ok d"
    and "check_activation now sv at retry ew rt mode mins = Inr a"
  shows "\<exists>st' d'. GestaltdSourceVersionService_ActivateWithRolloutMode True now sv at retry ew rt mode mins d =
    (Inr st', d')"
proof -
  let ?d = "d\<lparr>db_tick := Suc (db_tick d)\<rparr>"
  let ?e = "?d\<lparr>db_tick := Suc (db_tick ?d)\<rparr>"
  let ?st = "first_state (rows_GetAll (db_rows d StoreGestaltdSourceVersionState)
    (QKey (KString gestaltdSourceVersionStateID)) 1)"
  have all: "\<exists>d'. retarget_all a ?st ?e = (Inr (), d') \<and> db_healthy d' \<and> schema_ok d'"
    using retarget_rollouts_healthy [of "?e\<lparr>db_tick := Suc (db_tick ?e)\<rparr>" a ?st] assms(1,2)
    by (simp add: retarget_all_def healthy_store(2))
  then obtain d2 where r: "retarget_all a ?st ?e = (Inr (), d2)" "db_healthy d2" "schema_ok d2" by blast
  obtain d3 where p: "store_Put StoreGestaltdSourceVersionState
      (gestaltdSourceVersionStateRecord now (activated a ?st)) d2 = (Inr (), d3)" "db_healthy d3"
    using healthy_put_state [OF r(2,3)] by blast
  have g: "store_GetAll StoreGestaltdSourceVersionState (QKey (KString gestaltdSourceVersionStateID)) 1 ?d =
      (Inr (rows_GetAll (db_rows d StoreGestaltdSourceVersionState)
        (QKey (KString gestaltdSourceVersionStateID)) 1), ?e)"
    using healthy_store(2) [of ?d] assms(1) by simp
  have "activate_body now a ?d =
      (TxCommit ''activate gestaltd source version: commit'' (activated a ?st), d3)"
    unfolding activate_body_def g using r(1) p(1) by (simp add: Let_def del: One_nat_def)
  from with_tx_healthy [where body = "activate_body now a", OF assms(1) this p(2)] assms(3) show ?thesis
    by (simp add: GestaltdSourceVersionService_ActivateWithRolloutMode_def)
qed

lemma MarkTemporalWorkersPromoted_answers:
  assumes "db_healthy d" and "schema_ok d" and "TrimSpace sv \<noteq> ''''"
  shows "\<exists>st' d'. GestaltdSourceVersionService_MarkTemporalWorkersPromoted True now sv at d = (Inr st', d')"
proof -
  let ?d = "d\<lparr>db_tick := Suc (db_tick d)\<rparr>"
  let ?e = "?d\<lparr>db_tick := Suc (db_tick ?d)\<rparr>"
  let ?at = "normalizedSourceVersionTime now at"
  let ?recs = "rows_GetAll (db_rows d StoreGestaltdSourceVersionState)
    (QKey (KString gestaltdSourceVersionStateID)) 1"
  let ?new = "(first_state ?recs)\<lparr>sv_TemporalWorkersPromotedSourceVersion := TrimSpace sv,
    sv_TemporalWorkersPromotedAt := ?at\<rparr>"
  have g: "store_GetAll StoreGestaltdSourceVersionState (QKey (KString gestaltdSourceVersionStateID)) 1 ?d =
      (Inr ?recs, ?e)"
    using healthy_store(2) [of ?d] assms(1) by simp
  obtain d3 where p: "store_Put StoreGestaltdSourceVersionState
      (gestaltdSourceVersionStateRecord now ?new) ?e = (Inr (), d3)" "db_healthy d3"
    using healthy_put_state [of ?e now ?new] assms(1,2) by auto
  have "\<exists>st' d2. promote_body now (TrimSpace sv) ?at ?d =
      (TxCommit ''mark temporal workers promoted: commit'' st', d2) \<and> db_healthy d2"
    unfolding promote_body_def g using p assms(1) by (simp add: Let_def del: One_nat_def)
  then obtain st' d2 where b: "promote_body now (TrimSpace sv) ?at ?d =
      (TxCommit ''mark temporal workers promoted: commit'' st', d2)" "db_healthy d2" by blast
  from with_tx_healthy [where body = "promote_body now (TrimSpace sv) ?at", OF assms(1) b] assms(3)
  show ?thesis by (simp add: GestaltdSourceVersionService_MarkTemporalWorkersPromoted_def)
qed

lemma CreateAppRollout_healthy:
  fixes r st
  defines "p \<equiv> (let r1 = r\<lparr>ro_TargetSourceVersion := TrimSpace (sv_CurrentSourceVersion st)\<rparr>
    in if ro_Mode r = AppRolloutModeHeartbeat
       then r1\<lparr>ro_MinimumHealthyInstances := sv_MinimumHealthyInstances st\<rparr> else r1)"
  assumes "db_healthy d" and "schema_ok d" and inv: "rollouts_inv (db_rows d)" "ascii (TrimSpace (ro_App r))"
    and st: "sv_state (db_rows d) = Some st" "TrimSpace (sv_AppDeployPauseOwner st) = ''''"
      "TrimSpace (sv_CurrentSourceVersion st) \<noteq> ''''"
      "ro_Mode r = AppRolloutModeHeartbeat \<longrightarrow> 0 < sv_MinimumHealthyInstances st"
    and val: "validateAppRollout (Some p) = Inr ()"
    and free: "\<not> has_active (db_rows d) (TrimSpace (ro_App r))"
  shows "\<exists>d'. GestaltdSourceVersionService_CreateAppRollout True now (Some r) d =
    (Inr (pending_rollout now st r), d')"
proof -
  let ?d = "d\<lparr>db_tick := Suc (db_tick d)\<rparr>" and ?n = "pending_rollout now st r"
  let ?e = "?d\<lparr>db_tick := Suc (db_tick ?d)\<rparr>" and ?op = "''create source-version app rollout''"
  have n: "?n = normalizeAppRollout now p" by (simp add: pending_rollout_def p_def Let_def)
  have app: "ro_App ?n = TrimSpace (ro_App r)" by (simp add: n normalizeAppRollout_def p_def Let_def)
  obtain rec where rec: "map_of (db_rows d StoreGestaltdSourceVersionState) gestaltdSourceVersionStateID = Some rec"
    "recordToGestaltdSourceVersionState rec = st" using st(1) by (auto simp: sv_state_def)
  have "separates (db_rows d StoreAppRollouts) (ro_App ?n)" "wf_alist (db_rows d StoreAppRollouts)"
    using inv ascii_keys_separates app by (auto simp: rollouts_inv_def rollouts_ok_def)
  then obtain d2 where b: "create_body ?op ?n ?e = (TxCommit (?op @ '': commit'') ?n, d2)" "db_healthy d2"
    using create_body_healthy [of ?e ?n ?op] assms(2,3) free app by auto
  have "store_Get StoreGestaltdSourceVersionState gestaltdSourceVersionStateID ?d = (Inr rec, ?e)"
    using healthy_store(1) [of ?d] assms(2) rec(1) by simp
  then have "create_app_rollout_body now r ?d = (TxCommit (?op @ '': commit'') ?n, d2)"
    unfolding create_app_rollout_body_def
    using rec(2) st(2-4) val b(1) n by (auto simp: Let_def p_def)
  from with_tx_healthy [where body = "create_app_rollout_body now r", OF assms(2) this b(2)] show ?thesis
    by (simp add: GestaltdSourceVersionService_CreateAppRollout_def)
qed

subsection \<open>A concrete control plane\<close>

definition sample_state :: "string \<Rightarrow> GestaltdSourceVersionState" where
  "sample_state owner =
     zero_state\<lparr>sv_CurrentSourceVersion := ''s1'', sv_MinimumHealthyInstances := 2,
       sv_UpdatedAt := 1000 * Second, sv_AppDeployPauseOwner := owner, sv_AppDeployPauseToken := owner\<rparr>"

definition control_db :: "string \<Rightarrow> db" where
  "control_db owner = set_rows StoreGestaltdSourceVersionState
     [(gestaltdSourceVersionStateID, gestaltdSourceVersionStateRecord (1000 * Second) (sample_state owner))]
     (rollout_db sample_rollout)"

lemma control_db_simps [simp]: "db_healthy (control_db ow)" "schema_ok (control_db ow)"
  by (simp_all add: control_db_def)

lemma control_db_state:
  "sv_state (db_rows (control_db ow)) = Some (stored_state (1000 * Second) (sample_state ow))"
  "loaded_state (db_rows (control_db ow)) = stored_state (1000 * Second) (sample_state ow)"
  by (simp_all add: control_db_def sv_state_def loaded_state_def decode_state)

lemma control_db_rollouts: "rollouts (db_rows (control_db ow)) = [''mail'' \<mapsto> sample_rollout]"
  using sample_rollouts(1) by (simp add: control_db_def rollouts_def fun_eq_iff)

lemma control_db_inv: "control_inv (db_rows (control_db ow))"
  using sample_inv(1) state_id_ascii
  by (auto simp: control_inv_def control_db_def rollouts_inv_def rollouts_ok_def rollouts_def
      state_rows_ok_def ascii_keys_def)

lemma control_db_aligned: "aligned (db_rows (control_db ow))"
  by (auto simp: aligned_def control_db_rollouts control_db_state targets_def stored_state_def
      sample_state_def sample_rollout_def zero_state_def)

lemma pause_held_sample: "pause_held ''ci'' ''ci'' (db_rows (control_db ''ci''))"
  by (simp add: pause_held_def control_db_state stored_state_def sample_state_def is_graph_def)

lemma promote_call_step:
  "control_step EvPromote d (snd (GestaltdSourceVersionService_MarkTemporalWorkersPromoted s now sv at d))"
  by (rule step_promote) (rule surjective_pairing)

lemma activate_call_step:
  "control_step EvActivate d
     (snd (GestaltdSourceVersionService_ActivateWithRolloutMode s now sv at retry ew rt mode mins d))"
  by (rule step_activate) (rule surjective_pairing)

subsection \<open>Properties\<close>





text \<open>
  C18. The deploy pause is exclusive: an attempt that succeeds finds the pause free or already held
  under the same owner and token, an acquisition leaves it held by them and a release leaves it
  free, and nothing else of the state, nor any rollout, changes but the stored times' precision.
\<close>

theorem deploy_pause_exclusive:
  assumes "GestaltdSourceVersionService_changeAppDeployPause s now owner token acquire d = (Inr st', d')"
  shows "\<exists>st. sv_state (db_rows d) = Some st \<and>
    (sv_AppDeployPauseOwner st = '''' \<or>
     sv_AppDeployPauseOwner st = TrimSpace owner \<and> sv_AppDeployPauseToken st = TrimSpace token) \<and>
    sv_AppDeployPauseOwner st' = (if acquire then TrimSpace owner else '''') \<and>
    sv_AppDeployPauseToken st' = (if acquire then TrimSpace token else '''') \<and>
    st'\<lparr>sv_AppDeployPauseOwner := '''', sv_AppDeployPauseToken := ''''\<rparr> =
      st\<lparr>sv_AppDeployPauseOwner := '''', sv_AppDeployPauseToken := ''''\<rparr> \<and>
    sv_state (db_rows d') = Some (stored_state now st') \<and> rollouts (db_rows d') = rollouts (db_rows d)"
  using pause_Inr(1) [OF assms] by (auto simp: pause_done_def)

theorem deploy_pause_exclusive_witness:
  "\<exists>st' d'. GestaltdSourceVersionService_changeAppDeployPause True 5 ''ci'' ''ci'' True (control_db '''') =
      (Inr st', d') \<and> sv_AppDeployPauseOwner st' = ''ci''"
proof -
  have "isl (fst (GestaltdSourceVersionService_changeAppDeployPause True 5 ''ci'' ''ci'' True
      (control_db ''''))) = False" by code_simp
  then obtain st' d' where c: "GestaltdSourceVersionService_changeAppDeployPause True 5 ''ci'' ''ci'' True
      (control_db '''') = (Inr st', d')" by (metis isl_def prod.collapse sum.exhaust)
  from deploy_pause_exclusive [OF c] c show ?thesis by (auto simp: is_graph_def)
qed

text \<open>
  Activating a source version retargets exactly the rollouts it has to: with the new state
  stored, the active rollouts are restarted for the new version when the version or the minimum
  of healthy instances changes, and on a retry also those that failed since the state was last
  updated; every other rollout row is untouched, and no rollout appears or disappears.
\<close>

theorem activation_retargets_exactly:
  assumes "GestaltdSourceVersionService_ActivateWithRolloutMode s now sv at retry ew rt mode mins d =
      (Inr st', d')" and "control_inv (db_rows d)"
  shows "\<exists>a. check_activation now sv at retry ew rt mode mins = Inr a \<and>
    st' = activated a (loaded_state (db_rows d)) \<and> sv_state (db_rows d') = Some (stored_state now st') \<and>
    sv_CurrentSourceVersion st' = TrimSpace sv \<and>
    (\<forall>k. rollouts (db_rows d') k =
      map_option (\<lambda>r. if retarget a (loaded_state (db_rows d)) r
        then retargeted a (loaded_state (db_rows d)) r else r) (rollouts (db_rows d) k))"
proof -
  have ok: "state_rows_ok (db_rows d)" "rollouts_ok (db_rows d)"
    using assms(2) by (simp_all add: control_inv_def rollouts_inv_def)
  obtain a where a: "check_activation now sv at retry ew rt mode mins = Inr a"
    and act: "activate_done now a (db_rows d) st' (db_rows d')"
    by (rule Activate_Inr [OF assms(1) ok(1)])
  note f = check_activation_facts(1,2) [OF a]
  have "sv_CurrentSourceVersion st' = TrimSpace sv"
    using activate_state [OF act] f(2) by (simp add: activated_def)
  then show ?thesis
    using a activate_state [OF act] activate_rollouts [OF act ok(2) f(1)] by blast
qed

theorem activation_retargets_exactly_witness:
  "\<exists>st' d'. GestaltdSourceVersionService_ActivateWithRolloutMode True 5 ''s2'' (1005 * Second) False
      Second (60 * Second) AppRolloutModeHeartbeat [3] (control_db '''') = (Inr st', d') \<and>
     sv_CurrentSourceVersion st' = ''s2'' \<and> rollouts (db_rows d') ''mail'' \<noteq> None"
proof -
  obtain a where "check_activation 5 ''s2'' (1005 * Second) False Second (60 * Second)
      AppRolloutModeHeartbeat [3] = Inr a"
    by (simp add: check_activation_def Let_def Second_def is_graph_def)
  from Activate_healthy [OF control_db_simps this] obtain st' d' where
    c: "GestaltdSourceVersionService_ActivateWithRolloutMode True 5 ''s2''
      (1005 * Second) False Second (60 * Second) AppRolloutModeHeartbeat [3] (control_db '''') = (Inr st', d')"
    by blast
  from activation_retargets_exactly [OF c control_db_inv] c show ?thesis
    by (auto simp: is_graph_def control_db_rollouts)
qed

text \<open>
  A created rollout is for the current source version: a creation succeeds only when a source
  version is set and no pause is held, and no rollout of that app is active; the row it adds
  targets the current version and, in heartbeat mode, asks for the current positive minimum.
\<close>

theorem created_rollout_targets_current:
  assumes "GestaltdSourceVersionService_CreateAppRollout s now (Some r) d = (Inr r', d')"
    and "0 < ro_CreatedAt r" and "rollouts_inv (db_rows d)" and "ascii (TrimSpace (ro_App r))"
  shows "\<exists>st. sv_state (db_rows d) = Some st \<and> TrimSpace (sv_AppDeployPauseOwner st) = '''' \<and>
    TrimSpace (sv_CurrentSourceVersion st) \<noteq> '''' \<and> \<not> has_active (db_rows d) (ro_App r') \<and>
    targets st r' \<and> (ro_Mode r' = AppRolloutModeHeartbeat \<longrightarrow> 0 < ro_MinimumHealthyInstances r') \<and>
    rollouts (db_rows d') = (rollouts (db_rows d))(ro_App r' \<mapsto>
      r'\<lparr>ro_FailureSummary := stored_summary (ro_FailureSummary r')\<rparr>) \<and>
    sv_state (db_rows d') = sv_state (db_rows d)"
proof -
  from CreateAppRollout_Inr [OF assms] obtain st where st: "sv_state (db_rows d) = Some st"
    "TrimSpace (sv_AppDeployPauseOwner st) = ''''" "TrimSpace (sv_CurrentSourceVersion st) \<noteq> ''''"
    "ro_Mode r = AppRolloutModeHeartbeat \<longrightarrow> 0 < sv_MinimumHealthyInstances st"
    "r' = pending_rollout now st r" "rollout_ok (ro_App r') r'" "create_done r' (db_rows d) (db_rows d')"
    unfolding create_app_done_def by blast
  have "targets st r'" "ro_Mode r' = AppRolloutModeHeartbeat \<longrightarrow> 0 < ro_MinimumHealthyInstances r'"
    using st(4,5) by (auto simp: targets_def pending_rollout_def normalizeAppRollout_def Let_def)
  with st(1-3,7) rollouts_put [OF st(6)] show ?thesis by (auto simp: create_done_def)
qed

theorem created_rollout_targets_current_witness:
  "\<exists>r' d'. GestaltdSourceVersionService_CreateAppRollout True 7 (Some (sample_rollout\<lparr>ro_App := ''chat''\<rparr>))
      (control_db '''') = (Inr r', d') \<and> (\<exists>st. sv_state (db_rows (control_db '''')) = Some st \<and> targets st r')"
proof -
  let ?r = "sample_rollout\<lparr>ro_App := ''chat''\<rparr>"
  have st: "sv_state (db_rows (control_db '''')) = Some (stored_state (1000 * Second) (sample_state ''''))"
    by (simp add: control_db_state)
  have inv: "rollouts_inv (db_rows (control_db ''''))" "ascii (TrimSpace (ro_App ?r))"
    using control_db_inv by (simp_all add: control_inv_def sample_rollout_def is_graph_def ascii_def)
  have "\<exists>d'. GestaltdSourceVersionService_CreateAppRollout True 7 (Some ?r) (control_db '''') =
      (Inr (pending_rollout 7 (stored_state (1000 * Second) (sample_state '''')) ?r), d')"
    by (rule CreateAppRollout_healthy [OF control_db_simps inv st])
      (simp_all add: has_active_def control_db_rollouts stored_state_def sample_state_def zero_state_def
        sample_rollout_def validateAppRollout_def is_graph_def Second_def)
  then obtain r' d' where c: "GestaltdSourceVersionService_CreateAppRollout True 7 (Some ?r) (control_db '''') =
      (Inr r', d')" by blast
  have "0 < ro_CreatedAt ?r" by (simp add: sample_rollout_def Second_def)
  from created_rollout_targets_current [OF c this inv] c show ?thesis by blast
qed

lemma normalized_positive:
  assumes "Millisecond \<le> now" and "t = 0 \<or> Millisecond \<le> t"
  shows "Millisecond \<le> normalizedSourceVersionTime now t"
  using assms unfolding normalizedSourceVersionTime_def truncate_ms_eq Millisecond_def
  by (auto simp: minus_mod_eq_mult_div)

lemma promote_done_promoted:
  assumes "promote_done now sv (normalizedSourceVersionTime now at) c st' c'" and "TrimSpace sv = sv"
    and "Millisecond \<le> now" and "at = 0 \<or> Millisecond \<le> at"
  obtains st where "sv_state c' = Some st" and "promoted_for st sv"
proof (cases "promoted_for (loaded_state c) sv")
  case True
  then have "sv_state c \<noteq> None" by (auto simp: loaded_state_def promoted_for_def zero_state_def split: option.splits)
  then show thesis using that True assms(1) by (auto simp: promote_done_def loaded_state_def)
next
  case False
  have "Millisecond \<le> normalizedSourceVersionTime now (normalizedSourceVersionTime now at)"
    using assms(3,4) normalized_positive [of now at] by (intro normalized_positive) simp_all
  then have "normalizedSourceVersionTime now (normalizedSourceVersionTime now at) \<noteq> 0"
    by (auto simp: Millisecond_def)
  then show thesis
    using that [of "stored_state now st'"] False assms(1,2)
    by (simp add: promote_done_def promoted_for_def stored_state_def)
qed

text \<open>
  Promotion is remembered: once the workers are marked promoted for a source version, at a
  time from the first millisecond on, a query for that version on an answering provider says so,
  and marking the version again, at whatever time, changes no row.
\<close>

theorem promotion_remembered:
  assumes "GestaltdSourceVersionService_MarkTemporalWorkersPromoted s now sv at d = (Inr st', d')"
    and "state_rows_ok (db_rows d)" and "Millisecond \<le> now" and "at = 0 \<or> Millisecond \<le> at"
    and "db_healthy d'"
  shows "fst (GestaltdSourceVersionService_TemporalWorkersPromotedForSourceVersion s sv d') = Inr True \<and>
    db_rows (snd (GestaltdSourceVersionService_MarkTemporalWorkersPromoted s now' sv at' d')) = db_rows d'"
proof
  have done1: "promote_done now (TrimSpace sv) (normalizedSourceVersionTime now at) (db_rows d) st' (db_rows d')"
    by (rule promote_Inr [OF assms(1,2)])
  obtain st where st: "sv_state (db_rows d') = Some st" "promoted_for st (TrimSpace sv)"
    by (rule promote_done_promoted [OF done1 TrimSpace_idem assms(3,4)])
  have s: "s" "TrimSpace sv \<noteq> ''''"
    using assms(1) by (auto simp: GestaltdSourceVersionService_MarkTemporalWorkersPromoted_def split: if_splits)
  show "fst (GestaltdSourceVersionService_TemporalWorkersPromotedForSourceVersion s sv d') = Inr True"
    using st s healthy_store(1) [OF assms(5), of StoreGestaltdSourceVersionState gestaltdSourceVersionStateID]
    by (auto simp: GestaltdSourceVersionService_TemporalWorkersPromotedForSourceVersion_def
        GestaltdSourceVersionService_Get_def sv_state_def)
  obtain x d3 where x: "GestaltdSourceVersionService_MarkTemporalWorkersPromoted s now' sv at' d' = (x, d3)"
    by fastforce
  have ok: "state_rows_ok (db_rows d')"
    using done1 assms(2) state_rows_ok_put by (auto simp: promote_done_def split: if_splits)
  have "db_rows d3 = db_rows d'"
  proof (cases x)
    case (Inl e)
    then show ?thesis using promote_Inl x by blast
  next
    case (Inr st'')
    from promote_Inr [OF x [unfolded Inr] ok] show ?thesis
      using st by (simp add: promote_done_def loaded_state_def)
  qed
  then show "db_rows (snd (GestaltdSourceVersionService_MarkTemporalWorkersPromoted s now' sv at' d')) = db_rows d'"
    using x by simp
qed

theorem promotion_remembered_witness:
  "\<exists>st' d'. GestaltdSourceVersionService_MarkTemporalWorkersPromoted True Second '' s1 '' 0
      (control_db '''') = (Inr st', d') \<and>
     fst (GestaltdSourceVersionService_TemporalWorkersPromotedForSourceVersion True '' s1 '' d') = Inr True"
proof -
  let ?m = "GestaltdSourceVersionService_MarkTemporalWorkersPromoted True Second '' s1 '' 0 (control_db '''')"
  have "TrimSpace '' s1 '' \<noteq> ''''" by code_simp
  from MarkTemporalWorkersPromoted_answers [OF control_db_simps this] obtain st' d' where c: "?m = (Inr st', d')"
    by blast
  have ok: "state_rows_ok (db_rows (control_db ''''))" using control_db_inv by (simp add: control_inv_def)
  have "db_healthy d'" by (rule MarkTemporalWorkersPromoted_healthy [OF c control_db_simps(1)])
  with promotion_remembered [OF c ok] show ?thesis using c by (simp add: Second_def Millisecond_def)
qed

end
