(* ===== verification/Install_Locks.thy ===== *)
theory Install_Locks
  imports Coredata_Schema
begin

text \<open>
  The fleet-wide install lock of \<^verbatim>\<open>internal/coredata/app_version_install_locks.go\<close>: one row per app
  with a holder and an expiry, taken with separate store operations and no transaction. The lemmas
  show what a call does when no other call runs between its operations, that a held lock survives
  every sequence of such calls, that an expired one does not block an install, and that two calls
  whose operations interleave can both be told they hold the lock.
\<close>

subsection \<open>Locks and their rows\<close>

definition DefaultAppVersionInstallLockTTL :: duration where
  "DefaultAppVersionInstallLockTTL = 15 * Minute"

definition ErrAppVersionInstallLockHeld :: error where
  "ErrAppVersionInstallLockHeld = Sentinel ''app version install lock is held''"

record AppVersionInstallLock =
  lk_App :: string
  lk_Version :: string
  lk_Holder :: string
  lk_AcquiredAt :: time
  lk_ExpiresAt :: time

definition appVersionInstallLockKey :: "string \<Rightarrow> string" where
  "appVersionInstallLockKey app = TrimSpace app"

definition recordToAppVersionInstallLock :: "rec \<Rightarrow> AppVersionInstallLock" where
  "recordToAppVersionInstallLock rec =
     \<lparr>lk_App = recString rec ''app'', lk_Version = recString rec ''version'',
      lk_Holder = recString rec ''holder'', lk_AcquiredAt = recTime rec ''acquired_at'',
      lk_ExpiresAt = recTime rec ''expires_at''\<rparr>"

definition lock_record :: "string \<Rightarrow> AppVersionInstallLock \<Rightarrow> rec" where
  "lock_record key l = [
     ''id'' \<mapsto> VString key,
     ''app'' \<mapsto> VString (lk_App l),
     ''version'' \<mapsto> VString (lk_Version l),
     ''holder'' \<mapsto> VString (lk_Holder l),
     ''acquired_at'' \<mapsto> VTime (lk_AcquiredAt l),
     ''expires_at'' \<mapsto> VTime (lk_ExpiresAt l)]"

definition tryAddLock :: "string \<Rightarrow> AppVersionInstallLock \<Rightarrow> db \<Rightarrow> unit result \<times> db" where
  "tryAddLock key l d =
     (case store_Add StoreAppVersionInstallLocks (lock_record key l) d of
        (Inl err, d) \<Rightarrow>
          (Inl (if errors_is err ErrAlreadyExists_idb then ErrAlreadyExists_idb
             else Wrapf ''acquire app version install lock'' err), d)
      | (Inr _, d) \<Rightarrow> (Inr (), d))"

definition putLock :: "string \<Rightarrow> AppVersionInstallLock \<Rightarrow> db \<Rightarrow> unit result \<times> db" where
  "putLock key l d =
     (case store_Put StoreAppVersionInstallLocks (lock_record key l) d of
        (Inl err, d) \<Rightarrow> (Inl (Wrapf ''refresh app version install lock'' err), d)
      | (Inr _, d) \<Rightarrow> (Inr (), d))"

subsection \<open>Acquiring\<close>

text \<open>The loop over the listed rows.\<close>

fun clear_locks :: "string \<Rightarrow> string \<Rightarrow> string \<Rightarrow> time \<Rightarrow> rec list \<Rightarrow> db \<Rightarrow> bool result \<times> db" where
  "clear_locks key app holder now [] d = (Inr False, d)"
| "clear_locks key app holder now (rec # recs) d =
     (let current = recordToAppVersionInstallLock rec;
          recordID = recString rec ''id''
      in if TrimSpace (lk_App current) \<noteq> app then clear_locks key app holder now recs d
         else if now < lk_ExpiresAt current then
           (if recordID = key \<and> lk_Holder current = holder then (Inr True, d)
            else (Inl ErrAppVersionInstallLockHeld, d))
         else
           (case store_Delete StoreAppVersionInstallLocks recordID d of
              (Inl err, d) \<Rightarrow>
                (if errors_is err ErrNotFound_idb then clear_locks key app holder now recs d
                 else (Inl (Wrapf ''acquire app version install lock: delete stale'' err), d))
            | (Inr _, d) \<Rightarrow> clear_locks key app holder now recs d))"

definition clearStaleAndCheckAppLocks ::
  "string \<Rightarrow> string \<Rightarrow> string \<Rightarrow> time \<Rightarrow> db \<Rightarrow> bool result \<times> db" where
  "clearStaleAndCheckAppLocks key app holder now d =
     (case store_GetAll StoreAppVersionInstallLocks QAll 0 d of
        (Inl err, d) \<Rightarrow> (Inl (Wrapf ''acquire app version install lock: list existing'' err), d)
      | (Inr recs, d) \<Rightarrow> clear_locks key app holder now recs d)"

text \<open>What follows once no listed row stands in the way.\<close>

definition take_stale :: "string \<Rightarrow> AppVersionInstallLock \<Rightarrow> db \<Rightarrow> unit result \<times> db" where
  "take_stale key l d =
     (case tryAddLock key l d of
        (Inr _, d) \<Rightarrow> (Inr (), d)
      | (Inl addErr, d) \<Rightarrow>
          (Inl (if errors_is addErr ErrAlreadyExists_idb then ErrAppVersionInstallLockHeld else addErr), d))"

definition take_existing ::
  "string \<Rightarrow> AppVersionInstallLock \<Rightarrow> time \<Rightarrow> rec \<Rightarrow> db \<Rightarrow> unit result \<times> db" where
  "take_existing key l now existing d =
     (let current = recordToAppVersionInstallLock existing
      in if lk_Holder current = lk_Holder l then
           (if now < lk_ExpiresAt current then (Inr (), d) else putLock key l d)
         else if now < lk_ExpiresAt current then (Inl ErrAppVersionInstallLockHeld, d)
         else
           (case store_Delete StoreAppVersionInstallLocks key d of
              (Inl err, d) \<Rightarrow>
                (if errors_is err ErrNotFound_idb then take_stale key l d
                 else (Inl (Wrapf ''acquire app version install lock: delete stale'' err), d))
            | (Inr _, d) \<Rightarrow> take_stale key l d))"

definition take_lock :: "string \<Rightarrow> AppVersionInstallLock \<Rightarrow> time \<Rightarrow> db \<Rightarrow> unit result \<times> db" where
  "take_lock key l now d =
     (case tryAddLock key l d of
        (Inr _, d) \<Rightarrow> (Inr (), d)
      | (Inl err, d) \<Rightarrow>
          (if \<not> errors_is err ErrAlreadyExists_idb then (Inl err, d)
           else
             (case store_Get StoreAppVersionInstallLocks key d of
                (Inl getErr, d) \<Rightarrow>
                  (if errors_is getErr ErrNotFound_idb then tryAddLock key l d
                   else (Inl (Wrapf ''acquire app version install lock: load existing'' getErr), d))
              | (Inr existing, d) \<Rightarrow> take_existing key l now existing d)))"

definition new_lock :: "time \<Rightarrow> string \<Rightarrow> string \<Rightarrow> string \<Rightarrow> duration \<Rightarrow> AppVersionInstallLock" where
  "new_lock now app version holder ttl =
     \<lparr>lk_App = app, lk_Version = version, lk_Holder = holder, lk_AcquiredAt = now,
      lk_ExpiresAt = now + (if ttl \<le> 0 then DefaultAppVersionInstallLockTTL else ttl)\<rparr>"

definition AppVersionInstallLockService_Acquire ::
  "bool \<Rightarrow> time \<Rightarrow> string \<Rightarrow> string \<Rightarrow> string \<Rightarrow> duration \<Rightarrow> db \<Rightarrow> unit result \<times> db" where
  "AppVersionInstallLockService_Acquire s now0 app0 version0 holder0 ttl d =
     (let app = TrimSpace app0; version = TrimSpace version0; holder = TrimSpace holder0;
          now = truncate_ms now0; key = appVersionInstallLockKey app
      in if \<not> s then (Inl (Errorf ''acquire app version install lock: service is not configured''), d)
         else if app = '''' \<or> version = ''''
         then (Inl (Errorf ''acquire app version install lock: app and version are required''), d)
         else if holder = ''''
         then (Inl (Errorf ''acquire app version install lock: holder is required''), d)
         else
           (case clearStaleAndCheckAppLocks key app holder now d of
              (Inl err, d) \<Rightarrow> (Inl err, d)
            | (Inr owned, d) \<Rightarrow>
                if owned then (Inr (), d)
                else take_lock key (new_lock now app version holder ttl) now d))"

subsection \<open>Releasing\<close>

definition AppVersionInstallLockService_Release ::
  "bool \<Rightarrow> string \<Rightarrow> string \<Rightarrow> string \<Rightarrow> db \<Rightarrow> unit result \<times> db" where
  "AppVersionInstallLockService_Release s app0 version0 holder0 d =
     (let app = TrimSpace app0; version = TrimSpace version0; holder = TrimSpace holder0;
          key = appVersionInstallLockKey app
      in if \<not> s \<or> app = '''' \<or> version = '''' \<or> holder = '''' then (Inr (), d)
         else
           (case store_Get StoreAppVersionInstallLocks key d of
              (Inl err, d) \<Rightarrow>
                (if errors_is err ErrNotFound_idb then (Inr (), d)
                 else (Inl (Wrapf ''release app version install lock'' err), d))
            | (Inr existing, d) \<Rightarrow>
                (if TrimSpace (lk_Holder (recordToAppVersionInstallLock existing)) \<noteq> holder
                 then (Inr (), d)
                 else
                   (case store_Delete StoreAppVersionInstallLocks key d of
                      (Inl err, d) \<Rightarrow>
                        (if errors_is err ErrNotFound_idb then (Inr (), d)
                         else (Inl (Wrapf ''release app version install lock'' err), d))
                    | (Inr _, d) \<Rightarrow> (Inr (), d)))))"

subsection \<open>The rows as locks\<close>

interpretation lock_codec: row_codec StoreAppVersionInstallLocks "\<lambda>l. TrimSpace (lk_App l)"
    "\<lambda>l. lock_record (TrimSpace (lk_App l)) l" recordToAppVersionInstallLock "\<lambda>_. True"
  by unfold_locales
    (simp_all add: lock_record_def recordToAppVersionInstallLock_def recString_def recTime_def)

definition install_lock :: "contents \<Rightarrow> string \<Rightarrow> AppVersionInstallLock option" where
  "install_lock c k = map_option recordToAppVersionInstallLock (map_of (c StoreAppVersionInstallLocks) k)"

text \<open>Each row is found under its own identifier.\<close>

definition lock_rows_ok :: "contents \<Rightarrow> bool" where
  "lock_rows_ok c \<longleftrightarrow> wf_alist (c StoreAppVersionInstallLocks) \<and>
     (\<forall>k r. map_of (c StoreAppVersionInstallLocks) k = Some r \<longrightarrow> recString r ''id'' = k)"

definition lock_live :: "time \<Rightarrow> string \<Rightarrow> AppVersionInstallLock \<Rightarrow> bool" where
  "lock_live now app l \<longleftrightarrow> TrimSpace (lk_App l) = app \<and> now < lk_ExpiresAt l"

definition put_lock :: "AppVersionInstallLock \<Rightarrow> contents \<Rightarrow> contents" where
  "put_lock l = row_put StoreAppVersionInstallLocks (lock_record (TrimSpace (lk_App l)) l)"

lemma lock_record_fields [simp]:
  "record_id (lock_record k l) = k" "recString (lock_record k l) ''id'' = k"
  "recordToAppVersionInstallLock (lock_record k l) = l"
  by (simp_all add: lock_record_def recordToAppVersionInstallLock_def record_id_def recString_def recTime_def)

lemma install_lock_put:
  "install_lock (put_lock l c) k = (if k = TrimSpace (lk_App l) then Some l else install_lock c k)"
  unfolding install_lock_def put_lock_def by (rule lock_codec.lookup_write) simp

lemma install_lock_delete:
  "install_lock (row_delete StoreAppVersionInstallLocks i c) k = (if k = i then None else install_lock c k)"
  unfolding install_lock_def by (rule lock_codec.lookup_remove)

lemma lock_rows_ok_put: "lock_rows_ok c \<Longrightarrow> lock_rows_ok (put_lock l c)"
  by (auto simp: lock_rows_ok_def put_lock_def row_put_def wf_alist_update)

lemma lock_rows_ok_delete: "lock_rows_ok c \<Longrightarrow> lock_rows_ok (row_delete StoreAppVersionInstallLocks i c)"
  by (auto simp: lock_rows_ok_def row_delete_def wf_alist_delete)

text \<open>A row of the listing, and the lock it stands for.\<close>

lemma listed_lock:
  assumes "lock_rows_ok c"
  shows "r \<in> set (rows_GetAll (c StoreAppVersionInstallLocks) QAll 0) \<longleftrightarrow>
    map_of (c StoreAppVersionInstallLocks) (recString r ''id'') = Some r"
  using assms unfolding lock_rows_ok_def set_rows_GetAll
  by (auto simp: map_of_eq_Some_iff)

subsection \<open>What a call does\<close>

text \<open>The rows after the loop: some expired rows of the app are gone.\<close>

definition expired_removed :: "string \<Rightarrow> time \<Rightarrow> contents \<Rightarrow> contents \<Rightarrow> bool" where
  "expired_removed app now c c' \<longleftrightarrow>
     (\<exists>ids. c' = fold (row_delete StoreAppVersionInstallLocks) ids c \<and>
       (\<forall>i \<in> set ids. \<exists>l. install_lock c i = Some l \<and> TrimSpace (lk_App l) = app \<and> lk_ExpiresAt l \<le> now))"

lemma install_lock_deletes:
  "install_lock (fold (row_delete StoreAppVersionInstallLocks) ids c) k =
    (if k \<in> set ids then None else install_lock c k)"
  unfolding install_lock_def by (rule lock_codec.lookup_remove_all)

lemma expired_removed_keeps:
  assumes "expired_removed app now c c'" and "install_lock c k = Some l"
    and "TrimSpace (lk_App l) = app \<Longrightarrow> now < lk_ExpiresAt l"
  shows "install_lock c' k = Some l"
  using assms unfolding expired_removed_def by (fastforce simp: install_lock_deletes)

lemma expired_removed_subset:
  "expired_removed app now c c' \<Longrightarrow> install_lock c' k = Some l \<Longrightarrow> install_lock c k = Some l"
  unfolding expired_removed_def by (auto simp: install_lock_deletes split: if_splits)

lemma expired_removed_ok: "expired_removed app now c c' \<Longrightarrow> lock_rows_ok c \<Longrightarrow> lock_rows_ok c'"
proof -
  have "lock_rows_ok (fold (row_delete StoreAppVersionInstallLocks) ids c)" if "lock_rows_ok c" for ids c
    using that by (induction ids arbitrary: c) (simp_all add: lock_rows_ok_delete)
  then show "expired_removed app now c c' \<Longrightarrow> lock_rows_ok c \<Longrightarrow> lock_rows_ok c'"
    by (auto simp: expired_removed_def)
qed

lemma expired_removed_refl [simp]: "expired_removed app now c c"
  unfolding expired_removed_def by (rule exI [of _ "[]"]) simp

lemma clear_locks_effect:
  assumes "clear_locks key app holder now recs d = (x, d')"
    and "\<And>r. r \<in> set recs \<Longrightarrow> TrimSpace (lk_App (recordToAppVersionInstallLock r)) = app \<Longrightarrow>
      install_lock c (recString r ''id'') = Some (recordToAppVersionInstallLock r)"
    and "expired_removed app now c (db_rows d)"
  shows "expired_removed app now c (db_rows d') \<and>
    (x = Inr False \<longrightarrow> (\<forall>r \<in> set recs. \<not> lock_live now app (recordToAppVersionInstallLock r))) \<and>
    (x = Inr True \<longrightarrow> (\<exists>l. install_lock c key = Some l \<and> lock_live now app l \<and> lk_Holder l = holder))"
  using assms
proof (induction recs arbitrary: d)
  case Nil
  then show ?case by auto
next
  case (Cons rec recs)
  let ?l = "recordToAppVersionInstallLock rec" and ?i = "recString rec ''id''"
  show ?case
  proof (cases "TrimSpace (lk_App ?l) = app \<and> lk_ExpiresAt ?l \<le> now")
    case True
    then have l: "install_lock c ?i = Some ?l" using Cons.prems(2) [of rec] by simp
    obtain y d1 where y: "store_Delete StoreAppVersionInstallLocks ?i d = (y, d1)" by fastforce
    have rem: "expired_removed app now c (db_rows d1)"
    proof (cases y)
      case (Inl e)
      then show ?thesis using write_rows(3) [OF y] Cons.prems(3) by simp
    next
      case (Inr u)
      from Cons.prems(3) obtain ids where ids: "db_rows d = fold (row_delete StoreAppVersionInstallLocks) ids c"
        "\<forall>i \<in> set ids. \<exists>l. install_lock c i = Some l \<and> TrimSpace (lk_App l) = app \<and> lk_ExpiresAt l \<le> now"
        unfolding expired_removed_def by blast
      then show ?thesis
        unfolding expired_removed_def using write_rows(3) [OF y] Inr l True
        by (intro exI [of _ "ids @ [?i]"]) auto
    qed
    show ?thesis
    proof (cases "\<exists>e. y = Inl e \<and> \<not> errors_is e ErrNotFound_idb")
      case stop: True
      then show ?thesis using Cons.prems(1) y True rem by (auto simp: Let_def)
    next
      case False
      then have "clear_locks key app holder now recs d1 = (x, d')"
        using Cons.prems(1) y True by (cases y) (auto simp: Let_def)
      from Cons.IH [OF this _ rem] Cons.prems(2) show ?thesis using True by (simp add: lock_live_def)
    qed
  next
    case False
    show ?thesis
    proof (cases "TrimSpace (lk_App ?l) = app")
      case True
      then show ?thesis
        using False Cons.prems(1,3) Cons.prems(2) [of rec] by (auto simp: Let_def lock_live_def split: if_splits)
    next
      case other: False
      then have "clear_locks key app holder now recs d = (x, d')" using Cons.prems(1) by (simp add: Let_def)
      from Cons.IH [OF this _ Cons.prems(3)] Cons.prems(2) show ?thesis using other by (simp add: lock_live_def)
    qed
  qed
qed

lemma clearStale_effect:
  assumes "clearStaleAndCheckAppLocks key app holder now d = (x, d')" and ok: "lock_rows_ok (db_rows d)"
  shows "expired_removed app now (db_rows d) (db_rows d')"
    and "x = Inr False \<Longrightarrow> install_lock (db_rows d) k = Some l \<Longrightarrow> \<not> lock_live now app l"
    and "x = Inr True \<Longrightarrow> \<exists>l. install_lock (db_rows d) key = Some l \<and> lock_live now app l \<and> lk_Holder l = holder"
proof -
  obtain g d1 where g: "store_GetAll StoreAppVersionInstallLocks QAll 0 d = (g, d1)" by fastforce
  have rows: "db_rows d1 = db_rows d" by (rule read_rows(2) [OF g])
  have "expired_removed app now (db_rows d) (db_rows d') \<and>
    (x = Inr False \<longrightarrow> (\<forall>k l. install_lock (db_rows d) k = Some l \<longrightarrow> \<not> lock_live now app l)) \<and>
    (x = Inr True \<longrightarrow> (\<exists>l. install_lock (db_rows d) key = Some l \<and> lock_live now app l \<and> lk_Holder l = holder))"
  proof (cases g)
    case (Inl e)
    then show ?thesis using assms(1) g rows by (auto simp: clearStaleAndCheckAppLocks_def)
  next
    case (Inr recs)
    have recs: "recs = rows_GetAll (db_rows d StoreAppVersionInstallLocks) QAll 0"
      using store_GetAll_Inr [OF g [unfolded Inr]] .
    have c: "clear_locks key app holder now recs d1 = (x, d')"
      using assms(1) g Inr by (simp add: clearStaleAndCheckAppLocks_def)
    have listed: "install_lock (db_rows d) (recString r ''id'') = Some (recordToAppVersionInstallLock r)"
      if "r \<in> set recs" for r
      using that listed_lock [OF ok, of r] by (simp add: recs install_lock_def)
    have "\<exists>r \<in> set recs. recordToAppVersionInstallLock r = l" if "install_lock (db_rows d) k = Some l" for k l
    proof -
      from that obtain r where r: "map_of (db_rows d StoreAppVersionInstallLocks) k = Some r"
        "recordToAppVersionInstallLock r = l" by (auto simp: install_lock_def)
      then have "recString r ''id'' = k" using ok by (simp add: lock_rows_ok_def)
      then have "r \<in> set recs" using r(1) listed_lock [OF ok, of r] by (simp add: recs)
      then show ?thesis using r(2) by blast
    qed
    with clear_locks_effect [OF c, of "db_rows d"] listed rows show ?thesis by auto
  qed
  then show "expired_removed app now (db_rows d) (db_rows d')"
    and "x = Inr False \<Longrightarrow> install_lock (db_rows d) k = Some l \<Longrightarrow> \<not> lock_live now app l"
    and "x = Inr True \<Longrightarrow> \<exists>l. install_lock (db_rows d) key = Some l \<and> lock_live now app l \<and> lk_Holder l = holder"
    by blast+
qed

lemma tryAddLock_rows:
  assumes "tryAddLock (TrimSpace (lk_App l)) l d = (x, d')"
  shows "db_rows d' = (case x of Inl _ \<Rightarrow> db_rows d | Inr _ \<Rightarrow> put_lock l (db_rows d))"
proof -
  obtain y d1 where y: "store_Add StoreAppVersionInstallLocks (lock_record (TrimSpace (lk_App l)) l) d = (y, d1)"
    by fastforce
  then show ?thesis
    using assms write_rows(2) [OF y] by (cases y) (auto simp: tryAddLock_def put_lock_def)
qed

lemma putLock_rows:
  assumes "putLock (TrimSpace (lk_App l)) l d = (x, d')"
  shows "db_rows d' = (case x of Inl _ \<Rightarrow> db_rows d | Inr _ \<Rightarrow> put_lock l (db_rows d))"
proof -
  obtain y d1 where y: "store_Put StoreAppVersionInstallLocks (lock_record (TrimSpace (lk_App l)) l) d = (y, d1)"
    by fastforce
  then show ?thesis
    using assms write_rows(1) [OF y] by (cases y) (auto simp: putLock_def put_lock_def)
qed

lemma take_stale_rows:
  assumes "take_stale (TrimSpace (lk_App l)) l d = (x, d')"
  shows "db_rows d' = (case x of Inl _ \<Rightarrow> db_rows d | Inr _ \<Rightarrow> put_lock l (db_rows d))"
proof -
  obtain y d1 where y: "tryAddLock (TrimSpace (lk_App l)) l d = (y, d1)" by fastforce
  then show ?thesis using assms tryAddLock_rows [OF y] by (cases y) (auto simp: take_stale_def)
qed

text \<open>
  Taking the lock touches only the row under the app's own key, never a row of another holder
  that has not expired, and when it succeeds that row holds the new lock or one of the holder's
  that has not expired.
\<close>

definition lock_taken :: "AppVersionInstallLock \<Rightarrow> time \<Rightarrow> contents \<Rightarrow> bool \<Rightarrow> contents \<Rightarrow> bool" where
  "lock_taken l now c success c' \<longleftrightarrow>
     c' \<in> {c, put_lock l c, row_delete StoreAppVersionInstallLocks (TrimSpace (lk_App l)) c,
       put_lock l (row_delete StoreAppVersionInstallLocks (TrimSpace (lk_App l)) c)} \<and>
     (success \<longrightarrow> install_lock c' (TrimSpace (lk_App l)) = Some l \<or>
       c' = c \<and> (\<exists>l'. install_lock c (TrimSpace (lk_App l)) = Some l' \<and> lk_Holder l' = lk_Holder l \<and>
         now < lk_ExpiresAt l'))"

lemma lock_taken_add:
  "db_rows d' = (case x of Inl _ \<Rightarrow> c | Inr u \<Rightarrow> put_lock l c) \<Longrightarrow> lock_taken l now c (x = Inr ()) (db_rows d')"
  by (cases x) (auto simp: lock_taken_def install_lock_put)

lemma take_existing_effect:
  assumes "take_existing (TrimSpace (lk_App l)) l now existing d = (x, d')"
    and cur: "install_lock (db_rows d) (TrimSpace (lk_App l)) = Some (recordToAppVersionInstallLock existing)"
  shows "lock_taken l now (db_rows d) (x = Inr ()) (db_rows d')"
proof -
  let ?key = "TrimSpace (lk_App l)" and ?S = StoreAppVersionInstallLocks
  let ?cur = "recordToAppVersionInstallLock existing"
  obtain z d3 where z: "store_Delete ?S ?key d = (z, d3)" by fastforce
  have d3: "db_rows d3 = db_rows d \<or> db_rows d3 = row_delete ?S ?key (db_rows d)"
    using write_rows(3) [OF z] by (cases z) simp_all
  consider (kept) "now < lk_ExpiresAt ?cur"
    | (refresh) "lk_Holder ?cur = lk_Holder l" "\<not> now < lk_ExpiresAt ?cur"
    | (stale) "lk_Holder ?cur \<noteq> lk_Holder l" "\<not> now < lk_ExpiresAt ?cur" by blast
  then show ?thesis
  proof cases
    case kept
    then show ?thesis
      using assms by (auto simp: take_existing_def lock_taken_def Let_def split: if_splits)
  next
    case refresh
    then have "putLock ?key l d = (x, d')" using assms by (simp add: take_existing_def Let_def)
    then show ?thesis by (intro lock_taken_add putLock_rows)
  next
    case stale
    have "take_stale ?key l d3 = (x, d') \<or> db_rows d' = db_rows d3 \<and> x \<noteq> Inr ()"
      using assms z stale by (cases z) (auto simp: take_existing_def Let_def split: if_splits)
    then show ?thesis
    proof
      assume t: "take_stale ?key l d3 = (x, d')"
      show ?thesis
        using take_stale_rows [OF t] d3 by (cases x) (auto simp: lock_taken_def install_lock_put)
    qed (use d3 in \<open>auto simp: lock_taken_def\<close>)
  qed
qed

lemma take_lock_effect:
  assumes "take_lock (TrimSpace (lk_App l)) l now d = (x, d')"
  shows "lock_taken l now (db_rows d) (x = Inr ()) (db_rows d')"
proof -
  let ?key = "TrimSpace (lk_App l)" and ?S = StoreAppVersionInstallLocks
  obtain y d1 where y: "tryAddLock ?key l d = (y, d1)" by fastforce
  obtain g d2 where g: "store_Get ?S ?key d1 = (g, d2)" by fastforce
  show ?thesis
  proof (cases "\<exists>e. y = Inl e \<and> errors_is e ErrAlreadyExists_idb")
    case False
    then have "x = y" "d' = d1" using assms y by (cases y; auto simp: take_lock_def)+
    then show ?thesis using lock_taken_add [OF tryAddLock_rows [OF y]] by simp
  next
    case True
    then have d2: "db_rows d2 = db_rows d" using tryAddLock_rows [OF y] read_rows(1) [OF g] by auto
    show ?thesis
    proof (cases g)
      case (Inl e)
      show ?thesis
      proof (cases "errors_is e ErrNotFound_idb")
        case nf: True
        then have t: "tryAddLock ?key l d2 = (x, d')" using assms y True g Inl by (auto simp: take_lock_def)
        show ?thesis using lock_taken_add [OF tryAddLock_rows [OF t], of now] d2 by simp
      qed (use assms y True g Inl d2 in \<open>auto simp: take_lock_def lock_taken_def\<close>)
    next
      case (Inr existing)
      have "install_lock (db_rows d) ?key = Some (recordToAppVersionInstallLock existing)"
        using store_Get_Inr [OF g [unfolded Inr]] tryAddLock_rows [OF y] True by (auto simp: install_lock_def)
      moreover have "take_existing ?key l now existing d2 = (x, d')"
        using assms y True g Inr by (auto simp: take_lock_def)
      ultimately show ?thesis using take_existing_effect [of l now existing d2] d2 by simp
    qed
  qed
qed

lemma lock_taken_other:
  "lock_taken l now c b c' \<Longrightarrow> k \<noteq> TrimSpace (lk_App l) \<Longrightarrow> install_lock c' k = install_lock c k"
  by (auto simp: lock_taken_def install_lock_put install_lock_delete)

lemma lock_taken_ok: "lock_taken l now c b c' \<Longrightarrow> lock_rows_ok c \<Longrightarrow> lock_rows_ok c'"
  by (auto simp: lock_taken_def lock_rows_ok_put lock_rows_ok_delete)

text \<open>
  The phases of a call that gets past the argument checks: the loop stops it (with an error, or
  because the holder has the lock), or the lock is taken after the loop.
\<close>

lemma Acquire_cases:
  assumes "AppVersionInstallLockService_Acquire s now app version holder ttl d = (x, d')"
    and "lock_rows_ok (db_rows d)"
  obtains (refused) "db_rows d' = db_rows d" "x \<noteq> Inr ()"
  | (stopped) "expired_removed (TrimSpace app) (truncate_ms now) (db_rows d) (db_rows d')" "x \<noteq> Inr ()"
  | (owned) l where "expired_removed (TrimSpace app) (truncate_ms now) (db_rows d) (db_rows d')" "x = Inr ()"
      "install_lock (db_rows d) (TrimSpace app) = Some l" "lock_live (truncate_ms now) (TrimSpace app) l"
      "lk_Holder l = TrimSpace holder"
  | (taken) c where "expired_removed (TrimSpace app) (truncate_ms now) (db_rows d) c"
      "\<And>k l. install_lock (db_rows d) k = Some l \<Longrightarrow> \<not> lock_live (truncate_ms now) (TrimSpace app) l"
      "lock_taken (new_lock (truncate_ms now) (TrimSpace app) (TrimSpace version) (TrimSpace holder) ttl)
         (truncate_ms now) c (x = Inr ()) (db_rows d')"
proof -
  let ?app = "TrimSpace app" and ?now = "truncate_ms now" and ?h = "TrimSpace holder"
  let ?l = "new_lock ?now ?app (TrimSpace version) ?h ttl"
  have key: "appVersionInstallLockKey ?app = ?app" "TrimSpace (lk_App ?l) = ?app"
    by (simp_all add: appVersionInstallLockKey_def new_lock_def)
  obtain y d1 where y: "clearStaleAndCheckAppLocks ?app ?app ?h ?now d = (y, d1)" by fastforce
  note eff = clearStale_effect [OF y assms(2)]
  show thesis
  proof (cases "s \<and> ?app \<noteq> '''' \<and> TrimSpace version \<noteq> '''' \<and> ?h \<noteq> ''''")
    case False
    then show thesis
      using assms(1) by (intro refused) (auto simp: AppVersionInstallLockService_Acquire_def Let_def split: if_splits)
  next
    case True
    then have eq: "(case y of Inl err \<Rightarrow> (Inl err, d1) | Inr owned \<Rightarrow>
        if owned then (Inr (), d1) else take_lock ?app ?l ?now d1) = (x, d')"
      using assms(1) y by (cases y) (auto simp: AppVersionInstallLockService_Acquire_def Let_def key split: if_splits)
    show thesis
    proof (cases y)
      case (Inl e)
      then show thesis using eq eff(1) stopped by auto
    next
      case (Inr owned)
      show thesis
      proof (cases owned)
        case True
        then show thesis using eq eff(1,3) Inr owned by auto
      next
        case False
        then have "take_lock (TrimSpace (lk_App ?l)) ?l ?now d1 = (x, d')" using eq Inr by (simp add: key)
        from taken [OF eff(1) _ take_lock_effect [OF this]] eff(2) Inr False show thesis by simp
      qed
    qed
  qed
qed

lemma Acquire_rows_ok:
  assumes "AppVersionInstallLockService_Acquire s now app version holder ttl d = (x, d')"
    and "lock_rows_ok (db_rows d)"
  shows "lock_rows_ok (db_rows d')"
  using assms(1,2) by (cases rule: Acquire_cases) (use assms(2) in \<open>auto dest: expired_removed_ok lock_taken_ok\<close>)

lemma Acquire_keeps_live:
  assumes "AppVersionInstallLockService_Acquire s now app version holder ttl d = (x, d')"
    and "lock_rows_ok (db_rows d)" and "install_lock (db_rows d) a = Some l" and "TrimSpace (lk_App l) = a"
    and "truncate_ms now < lk_ExpiresAt l"
  shows "install_lock (db_rows d') a = Some l"
  using assms(1,2)
proof (cases rule: Acquire_cases)
  case (taken c)
  have ne: "a \<noteq> TrimSpace app" using taken(2) [OF assms(3)] assms(4,5) by (auto simp: lock_live_def)
  have "install_lock c a = Some l" by (rule expired_removed_keeps [OF taken(1) assms(3)]) (rule assms(5))
  then show ?thesis using lock_taken_other [OF taken(3), of a] ne by (simp add: new_lock_def)
qed (use assms(3,5) in \<open>auto intro: expired_removed_keeps\<close>)

lemma Acquire_refused_live:
  assumes "AppVersionInstallLockService_Acquire s now app version holder ttl d = (x, d')"
    and "lock_rows_ok (db_rows d)" and "install_lock (db_rows d) (TrimSpace app) = Some l"
    and "lock_live (truncate_ms now) (TrimSpace app) l" and "lk_Holder l \<noteq> TrimSpace holder"
  shows "x \<noteq> Inr ()"
  using assms(1,2) by (cases rule: Acquire_cases) (use assms(3-5) in auto)

lemma Release_rows:
  assumes "AppVersionInstallLockService_Release s app version holder d = (x, d')"
  shows "db_rows d' = db_rows d \<or>
    db_rows d' = row_delete StoreAppVersionInstallLocks (TrimSpace app) (db_rows d) \<and>
    (\<exists>l. install_lock (db_rows d) (TrimSpace app) = Some l \<and> TrimSpace (lk_Holder l) = TrimSpace holder)"
proof -
  let ?S = StoreAppVersionInstallLocks and ?k = "TrimSpace app"
  obtain g d1 where g: "store_Get ?S ?k d = (g, d1)" by fastforce
  obtain z d2 where z: "store_Delete ?S ?k d1 = (z, d2)" by fastforce
  note rows = read_rows(1) [OF g] write_rows(3) [OF z]
  show ?thesis
  proof (cases g)
    case (Inl e)
    then show ?thesis
      using assms g rows by (auto simp: AppVersionInstallLockService_Release_def appVersionInstallLockKey_def
          Let_def split: if_splits)
  next
    case (Inr r)
    have l: "install_lock (db_rows d) ?k = Some (recordToAppVersionInstallLock r)"
      using store_Get_Inr [OF g [unfolded Inr]] by (simp add: install_lock_def)
    show ?thesis
      using assms g z rows Inr l
      by (cases z) (auto simp: AppVersionInstallLockService_Release_def appVersionInstallLockKey_def
          Let_def split: if_splits)
  qed
qed

lemma Release_rows_ok:
  "AppVersionInstallLockService_Release s app version holder d = (x, d') \<Longrightarrow> lock_rows_ok (db_rows d) \<Longrightarrow>
    lock_rows_ok (db_rows d')"
  by (drule Release_rows) (auto simp: lock_rows_ok_delete)

lemma Release_keeps:
  assumes "AppVersionInstallLockService_Release s app version holder d = (x, d')"
    and "install_lock (db_rows d) a = Some l"
    and "TrimSpace app \<noteq> a \<or> TrimSpace holder \<noteq> TrimSpace (lk_Holder l)"
  shows "install_lock (db_rows d') a = Some l"
  using Release_rows [OF assms(1)] assms(2,3) by (auto simp: install_lock_delete)

subsection \<open>Sequences of calls\<close>

datatype lock_call =
    CallAcquire time string string string duration
  | CallRelease string string string

fun run_lock_call :: "lock_call \<Rightarrow> db \<Rightarrow> db" where
  "run_lock_call (CallAcquire now app v h ttl) d = snd (AppVersionInstallLockService_Acquire True now app v h ttl d)"
| "run_lock_call (CallRelease app v h) d = snd (AppVersionInstallLockService_Release True app v h d)"

text \<open>A call made before the expiry of a lock, and not its release by its holder.\<close>

fun harmless :: "string \<Rightarrow> AppVersionInstallLock \<Rightarrow> lock_call \<Rightarrow> bool" where
  "harmless a l (CallAcquire now _ _ _ _) \<longleftrightarrow> truncate_ms now < lk_ExpiresAt l"
| "harmless a l (CallRelease app _ h) \<longleftrightarrow> TrimSpace app \<noteq> a \<or> TrimSpace h \<noteq> TrimSpace (lk_Holder l)"

lemma run_lock_call_keeps:
  assumes "lock_rows_ok (db_rows d)" and "install_lock (db_rows d) a = Some l" and "TrimSpace (lk_App l) = a"
    and "harmless a l call"
  shows "lock_rows_ok (db_rows (run_lock_call call d)) \<and> install_lock (db_rows (run_lock_call call d)) a = Some l"
proof (cases call)
  case (CallAcquire now app v h ttl)
  obtain x d' where c: "AppVersionInstallLockService_Acquire True now app v h ttl d = (x, d')" by fastforce
  show ?thesis
    using CallAcquire c assms(4) Acquire_rows_ok [OF c assms(1)] Acquire_keeps_live [OF c assms(1-3)] by simp
next
  case (CallRelease app v h)
  obtain x d' where c: "AppVersionInstallLockService_Release True app v h d = (x, d')" by fastforce
  show ?thesis
    using CallRelease c assms(4) Release_rows_ok [OF c assms(1)] Release_keeps [OF c assms(2)] by simp
qed

lemma run_lock_calls_keep:
  "lock_rows_ok (db_rows d) \<Longrightarrow> install_lock (db_rows d) a = Some l \<Longrightarrow> TrimSpace (lk_App l) = a \<Longrightarrow>
    list_all (harmless a l) calls \<Longrightarrow>
    lock_rows_ok (db_rows (fold run_lock_call calls d)) \<and>
    install_lock (db_rows (fold run_lock_call calls d)) a = Some l"
  by (induction calls arbitrary: d) (simp_all add: run_lock_call_keeps)

subsection \<open>Answering providers\<close>

lemma clear_locks_healthy:
  "clear_locks key app holder now recs d = (Inl e, d') \<Longrightarrow> db_healthy d \<Longrightarrow> e = ErrAppVersionInstallLockHeld"
proof (induction recs arbitrary: d)
  case (Cons r recs)
  let ?d = "snd (store_Delete StoreAppVersionInstallLocks (recString r ''id'') d)"
  have "db_healthy ?d" using healthy_store(4) [OF Cons.prems(2)] Cons.prems(2) by simp
  then show ?case
    using Cons.IH [of d] Cons.IH [of ?d] Cons.prems
    by (auto simp: Let_def healthy_store(4) split: if_splits)
qed simp

lemma clearStale_healthy:
  assumes "db_healthy d" and "clearStaleAndCheckAppLocks key app holder now d = (Inl e, d')"
  shows "e = ErrAppVersionInstallLockHeld"
  using assms by (auto simp: clearStaleAndCheckAppLocks_def healthy_store(2) dest: clear_locks_healthy)

lemma Acquire_held_healthy:
  assumes "db_healthy d" and "lock_rows_ok (db_rows d)" and "install_lock (db_rows d) (TrimSpace app) = Some l"
    and "lock_live (truncate_ms now) (TrimSpace app) l" and "lk_Holder l \<noteq> TrimSpace holder"
    and "TrimSpace app \<noteq> ''''" and "TrimSpace version \<noteq> ''''" and "TrimSpace holder \<noteq> ''''"
  shows "fst (AppVersionInstallLockService_Acquire True now app version holder ttl d) =
    Inl ErrAppVersionInstallLockHeld"
proof -
  let ?a = "TrimSpace app"
  obtain y d1 where y: "clearStaleAndCheckAppLocks ?a ?a (TrimSpace holder) (truncate_ms now) d = (y, d1)"
    by fastforce
  note eff = clearStale_effect [OF y assms(2)]
  have "y = Inl ErrAppVersionInstallLockHeld"
  proof (cases y)
    case (Inl e)
    then show ?thesis using clearStale_healthy [OF assms(1) y [unfolded Inl]] by simp
  next
    case (Inr b)
    then show ?thesis using eff(2) [of ?a l] eff(3) assms(3-5) by (cases b) auto
  qed
  then show ?thesis
    using y assms(6-8) by (simp add: AppVersionInstallLockService_Acquire_def Let_def appVersionInstallLockKey_def)
qed

text \<open>Without a live row the loop removes every row of the app, and the lock can be added.\<close>

lemma clear_locks_all:
  assumes "db_healthy d" and "\<And>r. r \<in> set recs \<Longrightarrow> \<not> lock_live now app (recordToAppVersionInstallLock r)"
  shows "\<exists>d'. clear_locks key app holder now recs d = (Inr False, d') \<and> db_healthy d' \<and>
    (schema_ok d \<longrightarrow> schema_ok d') \<and>
    db_rows d' = fold (row_delete StoreAppVersionInstallLocks)
      (map (\<lambda>r. recString r ''id'')
        (filter (\<lambda>r. TrimSpace (lk_App (recordToAppVersionInstallLock r)) = app) recs)) (db_rows d)"
  using assms
proof (induction recs arbitrary: d)
  case (Cons r recs)
  let ?d = "if TrimSpace (lk_App (recordToAppVersionInstallLock r)) = app
    then snd (store_Delete StoreAppVersionInstallLocks (recString r ''id'') d) else d"
  have "db_healthy ?d" "schema_ok d \<longrightarrow> schema_ok ?d"
    using Cons.prems(1) healthy_store(4) [OF Cons.prems(1)] by simp_all
  moreover have "db_rows ?d = (if TrimSpace (lk_App (recordToAppVersionInstallLock r)) = app
      then row_delete StoreAppVersionInstallLocks (recString r ''id'') (db_rows d) else db_rows d)"
    using healthy_store(4) [OF Cons.prems(1)] by (simp add: row_delete_def fun_eq_iff)
  moreover have "clear_locks key app holder now (r # recs) d = clear_locks key app holder now recs ?d"
    using Cons.prems(2) [of r] healthy_store(4) [OF Cons.prems(1)] by (simp add: Let_def lock_live_def)
  ultimately show ?case using Cons.IH [of ?d] Cons.prems(2) by auto
qed simp

lemma tryAddLock_healthy:
  assumes "db_healthy d" and "schema_ok d" and "\<And>k l'. install_lock (db_rows d) k = Some l' \<Longrightarrow>
      TrimSpace (lk_App l') \<noteq> TrimSpace (lk_App l)"
    and "install_lock (db_rows d) (TrimSpace (lk_App l)) = None" and "wf_alist (db_rows d StoreAppVersionInstallLocks)"
  shows "fst (tryAddLock (TrimSpace (lk_App l)) l d) = Inr ()"
proof -
  let ?S = StoreAppVersionInstallLocks and ?r = "lock_record (TrimSpace (lk_App l)) l"
  have "old ''app'' \<noteq> ?r ''app''" if "(k, old) \<in> set (db_rows d ?S)" for k old
  proof
    assume "old ''app'' = ?r ''app''"
    then have "lk_App (recordToAppVersionInstallLock old) = lk_App l"
      by (simp add: recordToAppVersionInstallLock_def lock_record_def recString_def)
    moreover have "install_lock (db_rows d) k = Some (recordToAppVersionInstallLock old)"
      using that assms(5) by (simp add: install_lock_def map_of_eq_Some_iff)
    ultimately show False using assms(3) by force
  qed
  then have "\<not> hasUniqueConflict (db_stores d ?S) ?r None"
    using schema_ok_indexes [OF assms(2) schema_member(3)]
    by (auto simp: hasUniqueConflict_def AppVersionInstallLocksSchema_def index_def list_ex_iff db_rows_def)
  moreover have "map_of (db_rows d ?S) (record_id ?r) = None" using assms(4) by (simp add: install_lock_def)
  ultimately show ?thesis
    using healthy_store(6) [OF assms(1), of ?S ?r] by (simp add: tryAddLock_def)
qed

lemma Acquire_free_healthy:
  assumes "db_healthy d" and "schema_ok d" and ok: "lock_rows_ok (db_rows d)"
    and free: "\<And>k l. install_lock (db_rows d) k = Some l \<Longrightarrow> \<not> lock_live (truncate_ms now) (TrimSpace app) l"
    and own: "\<And>l. install_lock (db_rows d) (TrimSpace app) = Some l \<Longrightarrow> TrimSpace (lk_App l) = TrimSpace app"
    and args: "TrimSpace app \<noteq> ''''" "TrimSpace version \<noteq> ''''" "TrimSpace holder \<noteq> ''''"
  shows "fst (AppVersionInstallLockService_Acquire True now app version holder ttl d) = Inr ()"
proof -
  let ?a = "TrimSpace app" and ?S = StoreAppVersionInstallLocks
  let ?d = "d\<lparr>db_tick := Suc (db_tick d)\<rparr>" and ?recs = "rows_GetAll (db_rows d ?S) QAll 0"
  let ?ids = "map (\<lambda>r. recString r ''id'')
    (filter (\<lambda>r. TrimSpace (lk_App (recordToAppVersionInstallLock r)) = ?a) ?recs)"
  let ?l = "new_lock (truncate_ms now) ?a (TrimSpace version) (TrimSpace holder) ttl"
  have dead: "\<not> lock_live (truncate_ms now) ?a (recordToAppVersionInstallLock r)" if "r \<in> set ?recs" for r
    using that listed_lock [OF ok, of r] free by (auto simp: install_lock_def)
  obtain d1 where d1: "clear_locks ?a ?a (TrimSpace holder) (truncate_ms now) ?recs ?d = (Inr False, d1)"
    "db_healthy d1" "schema_ok d1" "db_rows d1 = fold (row_delete ?S) ?ids (db_rows d)"
    using clear_locks_all [of ?d ?recs "truncate_ms now" ?a ?a "TrimSpace holder"] dead assms(1,2) by auto
  have gone: "install_lock (db_rows d1) k \<noteq> Some l" if "TrimSpace (lk_App l) = ?a" for k l
  proof
    assume "install_lock (db_rows d1) k = Some l"
    then have k: "install_lock (db_rows d) k = Some l" "k \<notin> set ?ids"
      unfolding d1(4) install_lock_deletes by (auto split: if_splits)
    then obtain r where r: "map_of (db_rows d ?S) k = Some r" "l = recordToAppVersionInstallLock r"
      by (auto simp: install_lock_def)
    then have "recString r ''id'' = k" "r \<in> set ?recs"
      using ok listed_lock [OF ok, of r] by (simp_all add: lock_rows_ok_def)
    then show False using k(2) r(2) that by auto
  qed
  have "wf_alist (db_rows d1 ?S)"
    using clearStale_effect(1) [of ?a ?a "TrimSpace holder" "truncate_ms now" d "Inr False" d1, OF _ ok]
      expired_removed_ok [OF _ ok] d1(1) healthy_store(2) [OF assms(1), of ?S QAll 0]
    by (auto simp: clearStaleAndCheckAppLocks_def lock_rows_ok_def)
  moreover have "install_lock (db_rows d1) ?a = None"
  proof (cases "install_lock (db_rows d1) ?a")
    case (Some l)
    then have "install_lock (db_rows d) ?a = Some l"
      unfolding d1(4) install_lock_deletes by (simp split: if_splits)
    then show ?thesis using own gone Some by blast
  qed
  moreover have key: "TrimSpace (lk_App ?l) = ?a" by (simp add: new_lock_def)
  ultimately have "fst (tryAddLock ?a ?l d1) = Inr ()"
    using tryAddLock_healthy [OF d1(2,3), of ?l, unfolded key] gone by blast
  then have "fst (take_lock ?a ?l (truncate_ms now) d1) = Inr ()"
    by (cases "tryAddLock ?a ?l d1") (simp add: take_lock_def)
  then show ?thesis
    using d1(1) args healthy_store(2) [OF assms(1), of ?S QAll 0]
    by (simp add: AppVersionInstallLockService_Acquire_def clearStaleAndCheckAppLocks_def
        appVersionInstallLockKey_def Let_def)
qed

subsection \<open>Properties\<close>

text \<open>
  C8. An install lock excludes the other holders: from a database where a holder's lock stands,
  and through any sequence of acquisitions before its expiry and of releases other than its own,
  whatever store operations fail, the row stays as it was and every acquisition for the app by
  another holder is refused, on an answering provider with the error that says so.
\<close>

theorem install_lock_excludes_others:
  assumes "lock_rows_ok (db_rows d)" and "install_lock (db_rows d) (TrimSpace app) = Some l"
    and "TrimSpace (lk_App l) = TrimSpace app" and "list_all (harmless (TrimSpace app) l) calls"
    and "d' = fold run_lock_call calls d"
    and "truncate_ms now < lk_ExpiresAt l" and "lk_Holder l \<noteq> TrimSpace holder"
  shows "install_lock (db_rows d') (TrimSpace app) = Some l \<and>
    fst (AppVersionInstallLockService_Acquire s now app version holder ttl d') \<noteq> Inr () \<and>
    (s \<and> db_healthy d' \<and> TrimSpace app \<noteq> '''' \<and> TrimSpace version \<noteq> '''' \<and> TrimSpace holder \<noteq> '''' \<longrightarrow>
      fst (AppVersionInstallLockService_Acquire s now app version holder ttl d') =
        Inl ErrAppVersionInstallLockHeld)"
proof -
  have keep: "lock_rows_ok (db_rows d')" "install_lock (db_rows d') (TrimSpace app) = Some l"
    using run_lock_calls_keep [OF assms(1-4)] assms(5) by simp_all
  have live: "lock_live (truncate_ms now) (TrimSpace app) l" using assms(3,6) by (simp add: lock_live_def)
  have "fst (AppVersionInstallLockService_Acquire s now app version holder ttl d') \<noteq> Inr ()"
    using Acquire_refused_live [OF _ keep live assms(7)]
    by (cases "AppVersionInstallLockService_Acquire s now app version holder ttl d'") fastforce
  then show ?thesis using keep(2) Acquire_held_healthy [OF _ keep live assms(7)] by auto
qed

definition sample_lock :: AppVersionInstallLock where
  "sample_lock = new_lock (1000 * Second) ''mail'' ''v2'' ''a'' Minute"

definition lock_db :: "AppVersionInstallLock \<Rightarrow> db" where
  "lock_db l = set_rows StoreAppVersionInstallLocks [(lk_App l, lock_record (lk_App l) l)] empty_db"

lemma lock_db_simps [simp]:
  "db_healthy (lock_db l)" "schema_ok (lock_db l)" "lock_rows_ok (db_rows (lock_db l))"
  "install_lock (db_rows (lock_db l)) k = (if k = lk_App l then Some l else None)"
  by (auto simp: lock_db_def lock_rows_ok_def install_lock_def)

lemma sample_lock_simps [simp]:
  "lk_App sample_lock = ''mail''" "lk_Holder sample_lock = ''a''" "lk_ExpiresAt sample_lock = 1060 * Second"
  by (simp_all add: sample_lock_def new_lock_def Minute_def Second_def)

theorem install_lock_excludes_others_witness:
  "fst (AppVersionInstallLockService_Acquire True (1030 * Second) ''mail'' ''v3'' ''b'' 0
     (fold run_lock_call [CallRelease ''mail'' ''v2'' ''b'', CallAcquire (1020 * Second) ''mail'' ''v3'' ''b'' 0]
       (lock_db sample_lock))) \<noteq> Inr ()"
  using install_lock_excludes_others [of "lock_db sample_lock" "''mail''" sample_lock
      "[CallRelease ''mail'' ''v2'' ''b'', CallAcquire (1020 * Second) ''mail'' ''v3'' ''b'' 0]" _
      "1030 * Second" "''b''" True "''v3''" 0]
  by (simp add: is_graph_def truncate_ms_eq Second_def)

text \<open>
  A granted install lock is the holder's: after a successful acquisition the app's row is
  an unexpired lock of this holder, and unless it held that very lock before, no row of the app
  other than this one is unexpired.
\<close>

theorem install_lock_granted:
  assumes "AppVersionInstallLockService_Acquire s now app version holder ttl d = (Inr (), d')"
    and "lock_rows_ok (db_rows d)"
  shows "\<exists>l. install_lock (db_rows d') (TrimSpace app) = Some l \<and> lk_Holder l = TrimSpace holder \<and>
    truncate_ms now < lk_ExpiresAt l \<and>
    (install_lock (db_rows d) (TrimSpace app) = Some l \<or>
     (\<forall>k l'. install_lock (db_rows d') k = Some l' \<and> lock_live (truncate_ms now) (TrimSpace app) l' \<longrightarrow>
       k = TrimSpace app))"
  using assms
proof (cases rule: Acquire_cases)
  case (owned l)
  then show ?thesis using expired_removed_keeps [OF owned(1,3)] by (auto simp: lock_live_def)
next
  case (taken c)
  let ?l = "new_lock (truncate_ms now) (TrimSpace app) (TrimSpace version) (TrimSpace holder) ttl"
  have l: "TrimSpace (lk_App ?l) = TrimSpace app" "truncate_ms now < lk_ExpiresAt ?l"
    "lk_Holder ?l = TrimSpace holder"
    by (simp_all add: new_lock_def DefaultAppVersionInstallLockTTL_def Minute_def)
  have others: "k = TrimSpace app"
    if "install_lock (db_rows d') k = Some l'" "lock_live (truncate_ms now) (TrimSpace app) l'" for k l'
  proof (rule ccontr)
    assume "k \<noteq> TrimSpace app"
    then have "install_lock c k = Some l'" using that(1) lock_taken_other [OF taken(3), of k] l(1) by simp
    from expired_removed_subset [OF taken(1) this] taken(2) that(2) show False by blast
  qed
  from taken(3) consider "install_lock (db_rows d') (TrimSpace app) = Some ?l"
    | l' where "db_rows d' = c" "install_lock c (TrimSpace app) = Some l'" "lk_Holder l' = TrimSpace holder"
      "truncate_ms now < lk_ExpiresAt l'"
    using l(1,3) by (auto simp: lock_taken_def)
  then show ?thesis
  proof cases
    case 1
    with l(2,3) others show ?thesis by blast
  next
    case (2 l')
    with others show ?thesis by blast
  qed
qed simp_all

text \<open>
  An expired install lock does not block: on an answering provider, when no row of the app
  is unexpired, whoever left rows behind, an acquisition succeeds.
\<close>

theorem expired_install_lock_does_not_block:
  assumes "db_healthy d" and "schema_ok d" and "lock_rows_ok (db_rows d)"
    and "\<forall>k l. install_lock (db_rows d) k = Some l \<longrightarrow> \<not> lock_live (truncate_ms now) (TrimSpace app) l"
    and "\<forall>l. install_lock (db_rows d) (TrimSpace app) = Some l \<longrightarrow> TrimSpace (lk_App l) = TrimSpace app"
    and "TrimSpace app \<noteq> ''''" and "TrimSpace version \<noteq> ''''" and "TrimSpace holder \<noteq> ''''"
  shows "fst (AppVersionInstallLockService_Acquire True now app version holder ttl d) = Inr ()"
  using assms by (intro Acquire_free_healthy) auto

theorem expired_install_lock_does_not_block_witness:
  "fst (AppVersionInstallLockService_Acquire True (1060 * Second) ''mail'' ''v3'' ''b'' 0 (lock_db sample_lock)) =
    Inr ()"
  by (rule expired_install_lock_does_not_block)
    (simp_all add: is_graph_def lock_live_def truncate_ms_eq Second_def)

theorem install_lock_granted_witness:
  "\<exists>d'. AppVersionInstallLockService_Acquire True (1060 * Second) ''mail'' ''v3'' ''b'' 0 (lock_db sample_lock) =
      (Inr (), d') \<and> (\<exists>l. install_lock (db_rows d') ''mail'' = Some l \<and> lk_Holder l = ''b'')"
proof -
  have "fst (AppVersionInstallLockService_Acquire True (1060 * Second) ''mail'' ''v3'' ''b'' 0
      (lock_db sample_lock)) = Inr ()"
    by (rule Acquire_free_healthy) (auto simp: is_graph_def lock_live_def truncate_ms_eq Second_def split: if_splits)
  then obtain d' where c: "AppVersionInstallLockService_Acquire True (1060 * Second) ''mail'' ''v3'' ''b'' 0
      (lock_db sample_lock) = (Inr (), d')" by (metis prod.collapse)
  from install_lock_granted [OF c] c show ?thesis by (auto simp: is_graph_def)
qed

text \<open>The rest of a call after its listing.\<close>

definition resume_acquire ::
  "time \<Rightarrow> string \<Rightarrow> string \<Rightarrow> string \<Rightarrow> duration \<Rightarrow> rec list \<Rightarrow> db \<Rightarrow> unit result \<times> db" where
  "resume_acquire now app version holder ttl recs d =
     (case clear_locks (appVersionInstallLockKey app) app holder now recs d of
        (Inl err, d) \<Rightarrow> (Inl err, d)
      | (Inr owned, d) \<Rightarrow>
          if owned then (Inr (), d)
          else take_lock (appVersionInstallLockKey app) (new_lock now app version holder ttl) now d)"

text \<open>
  C19. Two interleaved calls can both be granted the lock: both list the expired row, the first finishes, and the second goes on
  with its listing. It deletes the first one's lock and takes it, and both were told they hold it.
\<close>

theorem install_lock_race:
  "\<exists>recs d1 d2 d3.
     store_GetAll StoreAppVersionInstallLocks QAll 0 (lock_db sample_lock) = (Inr recs, d1) \<and>
     AppVersionInstallLockService_Acquire True (1061 * Second) ''mail'' ''v3'' ''b'' Minute d1 = (Inr (), d2) \<and>
     resume_acquire (1061 * Second) ''mail'' ''v3'' ''c'' Minute recs d2 = (Inr (), d3)"
proof -
  let ?G = "store_GetAll StoreAppVersionInstallLocks QAll 0 (lock_db sample_lock)"
  let ?A = "AppVersionInstallLockService_Acquire True (1061 * Second) ''mail'' ''v3'' ''b'' Minute (snd ?G)"
  let ?B = "resume_acquire (1061 * Second) ''mail'' ''v3'' ''c'' Minute (projr (fst ?G)) (snd ?A)"
  have g: "fst ?G = Inr (projr (fst ?G))" by (simp add: healthy_store(2))
  have A: "fst ?A = Inr ()" by code_simp
  have B: "fst ?B = Inr ()" by code_simp
  have pair: "x = (a, snd x)" if "fst x = a" for x :: "'x \<times> 'y" and a
    using that by (simp add: prod_eq_iff)
  show ?thesis
    by (rule exI [of _ "projr (fst ?G)"], rule exI [of _ "snd ?G"], rule exI [of _ "snd ?A"],
        rule exI [of _ "snd ?B"], intro conjI)
      (rule pair, rule g, rule prod_eqI, simp_all only: A B fst_conv snd_conv prod_eq_iff)
qed

end
