(* ===== verification/Go_Values.thy ===== *)
theory Go_Values
  imports Json_Values
begin

text \<open>
  The rest of what the services do with dynamic values: \<^verbatim>\<open>fmt.Sprint\<close>, a trip through
  \<^verbatim>\<open>encoding/json\<close> into a generic value, and the readers of \<^verbatim>\<open>internal/coredata/convert.go\<close> that
  rest on them. How a row whose column holds JSON text is parsed is a parameter \<open>unmarshal\<close> of the
  readers (the text of an object to its members, \<open>None\<close> for an error), since such text may hold
  numbers that are no integers; the services themselves write objects.
\<close>

subsection \<open>Numbers and bytes as text\<close>

function pos_decimal :: "int \<Rightarrow> string" where
  "pos_decimal n = (if n < 10 then [digit n] else pos_decimal (n div 10) @ [digit (n mod 10)])"
  by pat_completeness auto
termination
  by (relation "measure nat") auto

declare pos_decimal.simps [simp del]

definition decimal :: "int \<Rightarrow> string" where
  "decimal n = (if n < 0 then ''-'' @ pos_decimal (- n) else pos_decimal n)"

text \<open>
  A \<^verbatim>\<open>float64\<close> prints with the fewest digits that read back as itself; from \<open>10 ^ 21\<close> on with
  an exponent.
\<close>

definition round_sig :: "nat \<Rightarrow> int \<Rightarrow> int" where
  "round_sig k m =
     (let e = length (pos_decimal m) - k; q = m div 10 ^ e; r = 2 * (m mod 10 ^ e)
      in (if 10 ^ e < r \<or> r = 10 ^ e \<and> odd q then q + 1 else q) * 10 ^ e)"

definition shortest :: "int \<Rightarrow> int" where
  "shortest m =
     (case find (\<lambda>k. float64_of_int (round_sig k m) = m) [1..<18] of Some k \<Rightarrow> round_sig k m | None \<Rightarrow> m)"

definition pos_float_text :: "int \<Rightarrow> string" where
  "pos_float_text m =
     (let ds = pos_decimal (shortest m); frac = drop_trailing_zeros (tl ds)
      in if length ds \<le> 21 then ds
         else [hd ds] @ (if frac = '''' then '''' else ''.'' @ frac) @ ''e+'' @ decimal (int (length ds) - 1))"

definition float_text :: "int \<Rightarrow> string" where
  "float_text n = (if n < 0 then ''-'' @ pos_float_text (- n) else pos_float_text n)"

fun join :: "string \<Rightarrow> string list \<Rightarrow> string" where
  "join sep [] = ''''"
| "join sep [s] = s"
| "join sep (s # t # ss) = s @ sep @ join sep (t # ss)"

definition by_key :: "string \<times> 'a \<Rightarrow> string \<times> 'a \<Rightarrow> bool" where
  "by_key a b \<longleftrightarrow> fst a < fst b"

lemma size_by_key [termination_simp]:
  "(k, v) \<in> set (sort_by by_key m) \<Longrightarrow> size v < Suc (size_list (size_prod (\<lambda>_. 0) size) m)"
proof -
  assume "(k, v) \<in> set (sort_by by_key m)"
  then have "(k, v) \<in> set m" by simp
  then show ?thesis by (induction m) auto
qed

fun Sprint :: "val \<Rightarrow> string" where
  "Sprint VNil = ''<nil>''"
| "Sprint (VString s) = s"
| "Sprint (VBytes b) = ''['' @ join '' '' (map (\<lambda>c. decimal (of_char c)) b) @ '']''"
| "Sprint (VBool b) = (if b then ''true'' else ''false'')"
| "Sprint (VInt n) = decimal n"
| "Sprint (VFloat n) = float_text n"
| "Sprint (VTime t) =
     format_date_time t (CHR '' '') @ format_nanos (t mod 1000000000) @ '' +0000 UTC''"
| "Sprint (VMap m) = ''map['' @ join '' '' (map (\<lambda>(k, v). k @ '':'' @ Sprint v) (sort_by by_key m)) @ '']''"
| "Sprint (VList vs) = ''['' @ join '' '' (map Sprint vs) @ '']''"

subsection \<open>Through JSON into a generic value\<close>

definition base64_alphabet :: string where
  "base64_alphabet = ''ABCDEFGHIJKLMNOPQRSTUVWXYZabcdefghijklmnopqrstuvwxyz0123456789+/''"

definition sextet :: "int \<Rightarrow> nat \<Rightarrow> char" where
  "sextet n i = base64_alphabet ! nat (n div 64 ^ i mod 64)"

fun base64 :: "string \<Rightarrow> string" where
  "base64 [] = ''''"
| "base64 [a] = (let n = of_char a * 65536 in [sextet n 3, sextet n 2] @ ''=='')"
| "base64 [a, b] = (let n = of_char a * 65536 + of_char b * 256 in [sextet n 3, sextet n 2, sextet n 1] @ ''='')"
| "base64 (a # b # c # s) =
     (let n = of_char a * 65536 + of_char b * 256 + of_char c
      in [sextet n 3, sextet n 2, sextet n 1, sextet n 0] @ base64 s)"

fun sequence :: "('a \<times> 'b option) list \<Rightarrow> ('a \<times> 'b) list option" where
  "sequence [] = Some []"
| "sequence ((k, None) # xs) = None"
| "sequence ((k, Some v) # xs) = map_option ((#) (k, v)) (sequence xs)"

text \<open>
  Members are written in key order and read into a map, where a later member replaces an earlier
  one of the same name. An instant outside the years 0 to 9999 does not marshal.
\<close>

fun json_any :: "val \<Rightarrow> val option" where
  "json_any VNil = Some VNil"
| "json_any (VString s) = Some (VString (json_text s))"
| "json_any (VBytes b) = Some (VString (base64 b))"
| "json_any (VBool b) = Some (VBool b)"
| "json_any (VInt n) = Some (VFloat (float64_of_int n))"
| "json_any (VFloat n) = Some (VFloat n)"
| "json_any (VTime t) = (if four_digit_year t then Some (VString (format_RFC3339Nano t)) else None)"
| "json_any (VMap m) =
     map_option (\<lambda>ms. VMap (foldl (\<lambda>acc (k, v). AList.update (json_text k) v acc) [] ms))
       (sequence (map (\<lambda>(k, v). (k, json_any v)) (sort_by by_key m)))"
| "json_any (VList vs) =
     map_option (\<lambda>ms. VList (map snd ms)) (sequence (map (\<lambda>v. ((), json_any v)) vs))"

subsection \<open>Readers and writers of columns\<close>

text \<open>
  \<^verbatim>\<open>recAnyMap\<close> unmarshals what \<^verbatim>\<open>recJSON\<close> returns: text as it stands, anything else marshalled.
  An empty text and a value that is no object both give a nil map.
\<close>

definition recAnyMap ::
  "(string \<Rightarrow> (string \<times> val) list option) \<Rightarrow> rec \<Rightarrow> string \<Rightarrow> (string \<times> val) list option" where
  "recAnyMap unmarshal r k =
     (case r k of
        None \<Rightarrow> None
      | Some VNil \<Rightarrow> None
      | Some (VString s) \<Rightarrow> if s = '''' then None else unmarshal s
      | Some (VBytes s) \<Rightarrow> if s = '''' then None else unmarshal s
      | Some v \<Rightarrow> (case json_any v of Some (VMap m) \<Rightarrow> Some m | _ \<Rightarrow> None))"

fun jsonValue :: "val \<Rightarrow> val" where
  "jsonValue (VMap m) = (if m = [] then VNil else VMap (map (\<lambda>(k, v). (k, jsonValue v)) m))"
| "jsonValue v = v"

definition recTimePtr :: "rec \<Rightarrow> string \<Rightarrow> time option" where
  "recTimePtr r k = (let t = recTime r k in if t = 0 then None else Some t)"

definition recAnySlice :: "rec \<Rightarrow> string \<Rightarrow> val list" where
  "recAnySlice r k = (case r k of Some (VList vs) \<Rightarrow> vs | _ \<Rightarrow> [])"

definition recStrings :: "rec \<Rightarrow> string \<Rightarrow> string list" where
  "recStrings r k = concat (map (\<lambda>v. case v of VString s \<Rightarrow> [s] | _ \<Rightarrow> []) (recAnySlice r k))"

subsection \<open>Objects through JSON\<close>

lemma sort_by_sorted:
  assumes "sorted_wrt by_key m"
  shows "sort_by by_key m = m"
  using assms
proof (induction m)
  case (Cons x m)
  then show ?case by (cases m) (auto simp: by_key_def)
qed simp

lemma map_of_sort_by [simp]:
  assumes "wf_alist m"
  shows "map_of (sort_by lt m) = map_of m"
  using assms by (intro map_of_inject_set [THEN iffD2]) simp_all

lemma sequence_map_Some:
  assumes "\<And>k v. (k, v) \<in> set m \<Longrightarrow> f v = Some (g v)"
  shows "sequence (map (\<lambda>(k, v). (k, f v)) m) = Some (map (\<lambda>(k, v). (k, g v)) m)"
  using assms
proof (induction m)
  case (Cons x m)
  obtain k v where x: "x = (k, v)" by (cases x)
  then have "f v = Some (g v)" using Cons.prems [of k v] by simp
  moreover have "sequence (map (\<lambda>(k, v). (k, f v)) m) = Some (map (\<lambda>(k, v). (k, g v)) m)"
    by (rule Cons.IH) (use Cons.prems in auto)
  ultimately show ?case using x by simp
qed simp

lemma foldl_update_distinct:
  assumes "distinct (map fst acc @ map fst ms)" and "\<forall>k \<in> fst ` set ms. ascii k"
  shows "foldl (\<lambda>acc (k, v). AList.update (json_text k) v acc) acc ms = acc @ ms"
  using assms
proof (induction ms arbitrary: acc)
  case (Cons x ms)
  obtain k v where x: "x = (k, v)" by (cases x)
  have "AList.update k v acc = acc @ [(k, v)]"
    using Cons.prems(1) x by (intro update_fresh) (auto simp: map_of_eq_None_iff)
  then show ?case using Cons.IH [of "acc @ [(k, v)]"] Cons.prems x by simp
qed simp

lemma json_any_object:
  assumes "wf_alist m" and "\<forall>k \<in> fst ` set m. ascii k" and "\<And>k v. (k, v) \<in> set m \<Longrightarrow> json_any v = Some (g v)"
  shows "json_any (VMap m) = Some (VMap (map (\<lambda>(k, v). (k, g v)) (sort_by by_key m)))"
proof -
  let ?ms = "map (\<lambda>(k, v). (k, g v)) (sort_by by_key m)"
  have fst: "map fst ?ms = map fst (sort_by by_key m)" by (simp add: split_def comp_def)
  have "sequence (map (\<lambda>(k, v). (k, json_any v)) (sort_by by_key m)) = Some ?ms"
    by (rule sequence_map_Some) (use assms(3) in auto)
  moreover have "foldl (\<lambda>acc (k, v). AList.update (json_text k) v acc) [] ?ms = [] @ ?ms"
    by (rule foldl_update_distinct) (use assms(1,2) fst in \<open>auto simp del: map_map\<close>)
  ultimately show ?thesis by simp
qed

lemma ascii_digits: "list_all isDigit s \<Longrightarrow> ascii s"
  by (auto simp: ascii_def isDigit_def list_all_iff)

lemma ascii_append [simp]: "ascii (s @ t) \<longleftrightarrow> ascii s \<and> ascii t"
  by (simp add: ascii_def)

lemma ascii_RFC3339Nano: "ascii (format_RFC3339Nano t)"
proof -
  have pad: "ascii (pad_digits w n)" for w n
    using isDigit_pad_digits by (blast intro: ascii_digits)
  have "set (drop_trailing_zeros s) \<subseteq> set s" for s
    by (auto simp: drop_trailing_zeros_def dest: set_dropWhileD)
  then have "ascii (format_nanos n)" for n
    using pad [of 9 n] by (fastforce simp: format_nanos_def Let_def ascii_def list_all_iff)
  then show ?thesis
    using pad by (simp add: format_RFC3339Nano_def format_date_time_def Let_def split_def ascii_def)
qed

end
