(* ===== verification/Change_Requests.thy ===== *)
theory Change_Requests
  imports Go_Values Coredata_Schema
begin

text \<open>
  The log of version changes, \<^verbatim>\<open>internal/coredata/app_version_change_requests.go\<close>, and what is
  projected from it, \<^verbatim>\<open>app_version_change_requests_projection.go\<close>: the known versions of an app,
  its latest installation and the desired revision of every app. The lists the services build hold
  no nil pointers, so their elements are records. The identifier \<^verbatim>\<open>uuid.NewString\<close> makes is the
  parameter \<open>new_id\<close>, and \<open>unmarshal\<close> reads JSON text as in \<open>recAnyMap\<close>.
\<close>

subsection \<open>Requests and installations\<close>

record AppVersionChangeRequest =
  cr_ID :: string
  cr_App :: string
  cr_FromVersion :: string
  cr_ToVersion :: string
  cr_Actor :: string
  cr_Timestamp :: time
  cr_FromVersionDeployableUntil :: "time option"
  cr_Metadata :: "(string \<times> val) list option"

record AppInstallation =
  in_AppName :: string
  in_Version :: string
  in_SourceRepository :: string
  in_SourceRef :: string
  in_Registry :: string
  in_ProviderReleaseURL :: string
  in_ArtifactChecksums :: "(string \<times> string) list"
  in_InstalledBy :: string
  in_InstalledAt :: time
  in_UpdatedAt :: time

record AppDesiredRevision =
  dr_App :: string
  dr_Version :: string
  dr_ChangeRequestID :: string

record AppVersionChangeRequestPage =
  pg_Requests :: "AppVersionChangeRequest list"
  pg_NextCursor :: string

definition DefaultAppVersionChangeRequestPageLimit :: int where
  "DefaultAppVersionChangeRequestPageLimit = 50"

definition MaxAppVersionChangeRequestPageLimit :: int where
  "MaxAppVersionChangeRequestPageLimit = 100"

definition indexedDBMaxTime :: time where
  "indexedDBMaxTime = Date 2262 1 1 0 0 0 0"

definition recordToAppVersionChangeRequest ::
  "(string \<Rightarrow> (string \<times> val) list option) \<Rightarrow> rec \<Rightarrow> AppVersionChangeRequest" where
  "recordToAppVersionChangeRequest unmarshal rec =
     \<lparr>cr_ID = recString rec ''id'', cr_App = recString rec ''app'',
      cr_FromVersion = recString rec ''from_version'', cr_ToVersion = recString rec ''to_version'',
      cr_Actor = recString rec ''actor'', cr_Timestamp = recTime rec ''timestamp'',
      cr_FromVersionDeployableUntil =
        (let value = recTime rec ''from_version_deployable_until'' in if value \<noteq> 0 then Some value else None),
      cr_Metadata = recAnyMap unmarshal rec ''metadata_json''\<rparr>"

subsection \<open>Appending and listing\<close>

text \<open>The record of a request whose texts have been checked.\<close>

definition change_request_record :: "string \<Rightarrow> time \<Rightarrow> AppVersionChangeRequest \<Rightarrow> rec" where
  "change_request_record new_id now request =
     (let id = (if TrimSpace (cr_ID request) = '''' then new_id else TrimSpace (cr_ID request));
          timestamp = (if cr_Timestamp request = 0 then truncate_ms now else truncate_ms (cr_Timestamp request));
          rec = [
            ''id'' \<mapsto> VString id,
            ''app'' \<mapsto> VString (TrimSpace (cr_App request)),
            ''from_version'' \<mapsto> VString (TrimSpace (cr_FromVersion request)),
            ''to_version'' \<mapsto> VString (TrimSpace (cr_ToVersion request)),
            ''actor'' \<mapsto> VString (TrimSpace (cr_Actor request)),
            ''timestamp'' \<mapsto> VTime timestamp,
            ''metadata_json'' \<mapsto>
              (case cr_Metadata request of None \<Rightarrow> VNil | Some m \<Rightarrow> jsonValue (VMap m))]
      in case cr_FromVersionDeployableUntil request of
           None \<Rightarrow> rec
         | Some t \<Rightarrow> if t = 0 then rec
             else rec(''from_version_deployable_until'' \<mapsto> VTime (truncate_ms t)))"

definition AppVersionChangeRequestService_AppendRequest ::
  "(string \<Rightarrow> (string \<times> val) list option) \<Rightarrow> string \<Rightarrow> time \<Rightarrow> AppVersionChangeRequest option \<Rightarrow> db \<Rightarrow>
    AppVersionChangeRequest result \<times> db" where
  "AppVersionChangeRequestService_AppendRequest unmarshal new_id now request d =
     (case request of
        None \<Rightarrow> (Inl (Errorf ''append app version change request: request is required''), d)
      | Some r \<Rightarrow>
          if TrimSpace (cr_App r) = ''''
          then (Inl (Errorf ''append app version change request: app is required''), d)
          else if TrimSpace (cr_FromVersion r) = ''''
          then (Inl (Errorf ''append app version change request: from_version is required''), d)
          else if TrimSpace (cr_ToVersion r) = ''''
          then (Inl (Errorf ''append app version change request: to_version is required''), d)
          else
            (let rec = change_request_record new_id now r
             in case store_Add StoreAppVersionChangeRequests rec d of
                  (Inl err, d) \<Rightarrow> (Inl (Wrapf ''append app version change request'' err), d)
                | (Inr _, d) \<Rightarrow> (Inr (recordToAppVersionChangeRequest unmarshal rec), d)))"

definition AppVersionChangeRequestService_ListRequestsByApp ::
  "(string \<Rightarrow> (string \<times> val) list option) \<Rightarrow> string \<Rightarrow> db \<Rightarrow> AppVersionChangeRequest list result \<times> db" where
  "AppVersionChangeRequestService_ListRequestsByApp unmarshal appName0 d =
     (let appName = TrimSpace appName0;
          query = Bound (KArray [KString appName]) (KArray [KString appName, KDate indexedDBMaxTime])
            False False
      in if appName = '''' then (Inl (Errorf ''list app version change requests: app is required''), d)
         else
           (case index_GetAll StoreAppVersionChangeRequests [''app'', ''timestamp''] query d of
              (Inl err, d) \<Rightarrow> (Inl (Wrapf ''list app version change requests'' err), d)
            | (Inr recs, d) \<Rightarrow> (Inr (map (recordToAppVersionChangeRequest unmarshal) recs), d)))"

definition AppVersionChangeRequestService_HasKnownVersion :: "string \<Rightarrow> string \<Rightarrow> db \<Rightarrow> bool result \<times> db" where
  "AppVersionChangeRequestService_HasKnownVersion appName0 version0 d =
     (let appName = TrimSpace appName0; version = TrimSpace version0;
          key = KArray [KString appName, KString version]
      in if appName = '''' \<or> version = ''''
         then (Inl (Errorf ''has known app version: app and version are required''), d)
         else
           (case index_GetAll StoreAppVersionChangeRequests [''app'', ''to_version''] (Bound key key False False) d of
              (Inl err, d) \<Rightarrow> (Inl (Wrapf ''has known app version'' err), d)
            | (Inr recs, d) \<Rightarrow> (Inr (0 < length recs), d)))"

subsection \<open>Pages\<close>

definition change_request_less :: "AppVersionChangeRequest \<Rightarrow> AppVersionChangeRequest \<Rightarrow> bool" where
  "change_request_less left right \<longleftrightarrow>
     (if cr_Timestamp left = cr_Timestamp right then cr_ID right < cr_ID left
      else cr_Timestamp right < cr_Timestamp left)"

definition sortChangeRequestsDesc :: "AppVersionChangeRequest list \<Rightarrow> AppVersionChangeRequest list" where
  "sortChangeRequestsDesc = sort_by change_request_less"

text \<open>\<^verbatim>\<open>strings.LastIndex\<close> of a one-byte separator, \<open>None\<close> for \<open>-1\<close>.\<close>

fun LastIndex :: "string \<Rightarrow> char \<Rightarrow> nat option" where
  "LastIndex [] c = None"
| "LastIndex (x # xs) c =
     (case LastIndex xs c of
        Some i \<Rightarrow> Some (Suc i)
      | None \<Rightarrow> if x = c then Some 0 else None)"

definition parseAppVersionChangeRequestCursor :: "string \<Rightarrow> (time \<times> string) result" where
  "parseAppVersionChangeRequestCursor cursor0 =
     (let cursor = TrimSpace cursor0
      in if cursor = '''' then Inr (0, '''')
         else
           (case LastIndex cursor (CHR '':'') of
              None \<Rightarrow> Inl (Errorf ''invalid revision history cursor'')
            | Some separator \<Rightarrow>
                if separator = 0 then Inl (Errorf ''invalid revision history cursor'')
                else
                  (case parse_RFC3339 (take separator cursor) of
                     None \<Rightarrow> Inl (Wrapf ''invalid revision history cursor'' (Errorf ''parsing time''))
                   | Some timestamp \<Rightarrow>
                       (let id = TrimSpace (drop (separator + 1) cursor)
                        in if id = '''' then Inl (Errorf ''invalid revision history cursor'')
                           else Inr (timestamp, id)))))"

definition formatAppVersionChangeRequestCursor :: "time \<Rightarrow> string \<Rightarrow> string" where
  "formatAppVersionChangeRequestCursor timestamp ident = format_RFC3339 timestamp @ '':'' @ TrimSpace ident"

definition changeRequestBeforeCursor :: "AppVersionChangeRequest \<Rightarrow> time \<Rightarrow> string \<Rightarrow> bool" where
  "changeRequestBeforeCursor request cursorTime cursorID \<longleftrightarrow>
     (if cursorTime < cr_Timestamp request then False
      else if cr_Timestamp request < cursorTime then True
      else cr_ID request < cursorID)"

definition page_limit :: "int \<Rightarrow> int" where
  "page_limit limit0 =
     (let limit = (if limit0 \<le> 0 then DefaultAppVersionChangeRequestPageLimit else limit0)
      in if MaxAppVersionChangeRequestPageLimit < limit then MaxAppVersionChangeRequestPageLimit else limit)"

definition page_filtered :: "time \<Rightarrow> string \<Rightarrow> AppVersionChangeRequest list \<Rightarrow> AppVersionChangeRequest list" where
  "page_filtered cursorTime cursorID =
     filter (\<lambda>request. \<not> (cursorTime \<noteq> 0 \<and> \<not> changeRequestBeforeCursor request cursorTime cursorID))"

definition page_of :: "AppVersionChangeRequest list \<Rightarrow> int \<Rightarrow> AppVersionChangeRequestPage" where
  "page_of filtered limit =
     (if limit < int (length filtered)
      then (let last = filtered ! nat (limit - 1)
            in \<lparr>pg_Requests = take (nat limit) filtered,
                pg_NextCursor = formatAppVersionChangeRequestCursor (cr_Timestamp last) (cr_ID last)\<rparr>)
      else \<lparr>pg_Requests = filtered, pg_NextCursor = ''''\<rparr>)"

definition AppVersionChangeRequestService_ListRequestsByAppPage ::
  "(string \<Rightarrow> (string \<times> val) list option) \<Rightarrow> string \<Rightarrow> int \<Rightarrow> string \<Rightarrow> db \<Rightarrow>
    AppVersionChangeRequestPage result \<times> db" where
  "AppVersionChangeRequestService_ListRequestsByAppPage unmarshal appName limit cursor d =
     (case AppVersionChangeRequestService_ListRequestsByApp unmarshal appName d of
        (Inl err, d) \<Rightarrow> (Inl err, d)
      | (Inr requests, d) \<Rightarrow>
          (case parseAppVersionChangeRequestCursor cursor of
             Inl err \<Rightarrow> (Inl err, d)
           | Inr (cursorTime, cursorID) \<Rightarrow>
               (Inr (page_of (page_filtered cursorTime cursorID (sortChangeRequestsDesc requests))
                  (page_limit limit)), d)))"

subsection \<open>The latest revision of a version\<close>

definition later_revision :: "string \<Rightarrow> string \<times> time \<Rightarrow> AppVersionChangeRequest \<Rightarrow> string \<times> time" where
  "later_revision desiredVersion acc request =
     (case acc of (latestID, latestTime) \<Rightarrow>
        if TrimSpace (cr_ToVersion request) \<noteq> desiredVersion then (latestID, latestTime)
        else if latestID = '''' \<or> latestTime < cr_Timestamp request \<or>
          cr_Timestamp request = latestTime \<and> latestID < cr_ID request
        then (cr_ID request, cr_Timestamp request)
        else (latestID, latestTime))"

definition latestDesiredRevisionID :: "AppVersionChangeRequest list \<Rightarrow> string \<Rightarrow> string" where
  "latestDesiredRevisionID requests desiredVersion0 =
     (let desiredVersion = TrimSpace desiredVersion0
      in if desiredVersion = '''' then ''''
         else fst (foldl (later_revision desiredVersion) ('''', 0) requests))"

definition AppVersionChangeRequestService_LatestDesiredRevisionID where
  "AppVersionChangeRequestService_LatestDesiredRevisionID unmarshal appName desiredVersion d =
     (case AppVersionChangeRequestService_ListRequestsByApp unmarshal appName d of
        (Inl err, d) \<Rightarrow> (Inl err, d)
      | (Inr requests, d) \<Rightarrow> (Inr (latestDesiredRevisionID requests desiredVersion), d))"

definition AppVersionChangeRequestService_LatestRevisionIDForVersion where
  "AppVersionChangeRequestService_LatestRevisionIDForVersion unmarshal appName version d =
     (case AppVersionChangeRequestService_ListRequestsByApp unmarshal appName d of
        (Inl err, d) \<Rightarrow> (Inl err, d)
      | (Inr requests, d) \<Rightarrow> (Inr (latestDesiredRevisionID requests version), d))"

subsection \<open>Metadata of an installation\<close>

definition appVersionChangeRequestMetaRegistry :: string where
  "appVersionChangeRequestMetaRegistry = ''registry''"
definition appVersionChangeRequestMetaSourceRepository :: string where
  "appVersionChangeRequestMetaSourceRepository = ''source_repository''"
definition appVersionChangeRequestMetaSourceRef :: string where
  "appVersionChangeRequestMetaSourceRef = ''source_ref''"
definition appVersionChangeRequestMetaProviderReleaseURL :: string where
  "appVersionChangeRequestMetaProviderReleaseURL = ''provider_release_url''"
definition appVersionChangeRequestMetaArtifactChecksums :: string where
  "appVersionChangeRequestMetaArtifactChecksums = ''artifact_checksums''"
definition appVersionChangeRequestMetaInstalledAt :: string where
  "appVersionChangeRequestMetaInstalledAt = ''installed_at''"

lemmas meta_names = appVersionChangeRequestMetaRegistry_def appVersionChangeRequestMetaSourceRepository_def
  appVersionChangeRequestMetaSourceRef_def appVersionChangeRequestMetaProviderReleaseURL_def
  appVersionChangeRequestMetaArtifactChecksums_def appVersionChangeRequestMetaInstalledAt_def

definition ChangeRequestMetadata :: "AppInstallation option \<Rightarrow> (string \<times> val) list option" where
  "ChangeRequestMetadata installation =
     (case installation of
        None \<Rightarrow> None
      | Some i \<Rightarrow> Some (
          [(appVersionChangeRequestMetaRegistry, VString (TrimSpace (in_Registry i))),
           (appVersionChangeRequestMetaSourceRepository, VString (TrimSpace (in_SourceRepository i))),
           (appVersionChangeRequestMetaSourceRef, VString (TrimSpace (in_SourceRef i))),
           (appVersionChangeRequestMetaProviderReleaseURL, VString (TrimSpace (in_ProviderReleaseURL i)))] @
          (if in_ArtifactChecksums i = [] then []
           else [(appVersionChangeRequestMetaArtifactChecksums,
             VMap (map (\<lambda>(k, v). (k, VString v)) (in_ArtifactChecksums i)))]) @
          (if in_InstalledAt i = 0 then []
           else [(appVersionChangeRequestMetaInstalledAt, VString (format_RFC3339Nano (in_InstalledAt i)))])))"

definition stringMeta :: "(string \<times> val) list \<Rightarrow> string \<Rightarrow> string" where
  "stringMeta metadata key =
     (case map_of metadata key of
        None \<Rightarrow> ''''
      | Some VNil \<Rightarrow> ''''
      | Some (VString s) \<Rightarrow> TrimSpace s
      | Some v \<Rightarrow> TrimSpace (Sprint v))"

text \<open>A \<^verbatim>\<open>map[string]string\<close> is a \<^verbatim>\<open>VMap\<close> of strings here, which \<^verbatim>\<open>fmt.Sprint\<close> leaves alone.\<close>

definition stringMapMeta :: "(string \<times> val) list \<Rightarrow> string \<Rightarrow> (string \<times> string) list" where
  "stringMapMeta metadata key =
     (case map_of metadata key of
        Some (VMap m) \<Rightarrow> map (\<lambda>(k, v). (k, Sprint v)) m
      | _ \<Rightarrow> [])"

text \<open>
  \<^verbatim>\<open>time.Parse\<close> accepts a fraction of a second after the seconds of either layout, so the two
  attempts accept the same texts.
\<close>

definition timeMeta :: "(string \<times> val) list \<Rightarrow> string \<Rightarrow> time option" where
  "timeMeta metadata key =
     (let raw = stringMeta metadata key
      in if raw = '''' then None else map_option truncate_ms (parse_RFC3339 raw))"

definition installationFromChangeRequest :: "AppVersionChangeRequest \<Rightarrow> AppInstallation" where
  "installationFromChangeRequest request =
     (let requestedAt = truncate_ms (cr_Timestamp request);
          installation =
            \<lparr>in_AppName = TrimSpace (cr_App request), in_Version = TrimSpace (cr_ToVersion request),
             in_SourceRepository = '''', in_SourceRef = '''', in_Registry = '''',
             in_ProviderReleaseURL = '''', in_ArtifactChecksums = [],
             in_InstalledBy = TrimSpace (cr_Actor request), in_InstalledAt = requestedAt,
             in_UpdatedAt = requestedAt\<rparr>;
          installation =
            (case cr_Metadata request of
               None \<Rightarrow> installation
             | Some metadata \<Rightarrow> installation
                 \<lparr>in_Registry := stringMeta metadata appVersionChangeRequestMetaRegistry,
                  in_SourceRepository := stringMeta metadata appVersionChangeRequestMetaSourceRepository,
                  in_SourceRef := stringMeta metadata appVersionChangeRequestMetaSourceRef,
                  in_ProviderReleaseURL := stringMeta metadata appVersionChangeRequestMetaProviderReleaseURL,
                  in_ArtifactChecksums := stringMapMeta metadata appVersionChangeRequestMetaArtifactChecksums,
                  in_InstalledAt :=
                    (case timeMeta metadata appVersionChangeRequestMetaInstalledAt of
                       Some installedAt \<Rightarrow> installedAt
                     | None \<Rightarrow> requestedAt)\<rparr>)
      in if in_InstalledAt installation = 0 then installation\<lparr>in_InstalledAt := requestedAt\<rparr>
         else installation)"

subsection \<open>Known versions\<close>

definition known_version_key :: "string \<Rightarrow> string \<Rightarrow> string" where
  "known_version_key appName version = appName @ [CHR 0x00] @ version"

definition add_known ::
  "(string \<times> AppInstallation) list \<Rightarrow> AppVersionChangeRequest \<Rightarrow> (string \<times> AppInstallation) list" where
  "add_known byAppVersion request =
     (let appName = TrimSpace (cr_App request); version = TrimSpace (cr_ToVersion request);
          installation = installationFromChangeRequest request;
          key = known_version_key appName version
      in if appName = '''' \<or> version = '''' then byAppVersion
         else
           (case map_of byAppVersion key of
              None \<Rightarrow> AList.update key installation byAppVersion
            | Some existing \<Rightarrow>
                if in_UpdatedAt existing < in_UpdatedAt installation
                then AList.update key installation byAppVersion else byAppVersion))"

definition installation_less :: "AppInstallation \<Rightarrow> AppInstallation \<Rightarrow> bool" where
  "installation_less a b \<longleftrightarrow>
     (if in_AppName a \<noteq> in_AppName b then in_AppName a < in_AppName b else in_Version a < in_Version b)"

definition knownVersionsFromRequests :: "AppVersionChangeRequest list \<Rightarrow> AppInstallation list" where
  "knownVersionsFromRequests requests = sort_by installation_less (map snd (foldl add_known [] requests))"

definition AppVersionChangeRequestService_ListKnownVersionsByApp where
  "AppVersionChangeRequestService_ListKnownVersionsByApp unmarshal s appName d =
     (if \<not> s then (Inl (Errorf ''list known app versions: change request service is not configured''), d)
      else
        (case AppVersionChangeRequestService_ListRequestsByApp unmarshal appName d of
           (Inl err, d) \<Rightarrow> (Inl err, d)
         | (Inr requests, d) \<Rightarrow> (Inr (knownVersionsFromRequests requests), d)))"

definition AppVersionChangeRequestService_listAllRequests where
  "AppVersionChangeRequestService_listAllRequests unmarshal d =
     (case store_GetAll StoreAppVersionChangeRequests QAll 0 d of
        (Inl err, d) \<Rightarrow> (Inl err, d)
      | (Inr recs, d) \<Rightarrow> (Inr (map (recordToAppVersionChangeRequest unmarshal) recs), d))"

definition AppVersionChangeRequestService_ListAllKnownVersions where
  "AppVersionChangeRequestService_ListAllKnownVersions unmarshal s d =
     (if \<not> s then (Inl (Errorf ''list all known app versions: change request service is not configured''), d)
      else
        (case AppVersionChangeRequestService_listAllRequests unmarshal d of
           (Inl err, d) \<Rightarrow> (Inl (Wrapf ''list all known app versions'' err), d)
         | (Inr requests, d) \<Rightarrow> (Inr (knownVersionsFromRequests requests), d)))"

subsection \<open>The desired revision of every app\<close>

definition later_installation :: "AppInstallation \<Rightarrow> AppInstallation \<Rightarrow> AppInstallation" where
  "later_installation latest installation =
     (if in_UpdatedAt latest < in_UpdatedAt installation \<or>
        in_UpdatedAt installation = in_UpdatedAt latest \<and>
        TrimSpace (in_Version latest) < TrimSpace (in_Version installation)
      then installation else latest)"

definition LatestKnownInstallation :: "AppInstallation list \<Rightarrow> AppInstallation option" where
  "LatestKnownInstallation installations =
     (case installations of [] \<Rightarrow> None | i # is \<Rightarrow> Some (foldl later_installation i is))"

definition LatestKnownVersion :: "AppInstallation list \<Rightarrow> string" where
  "LatestKnownVersion installations =
     (case LatestKnownInstallation installations of None \<Rightarrow> '''' | Some latest \<Rightarrow> TrimSpace (in_Version latest))"

text \<open>
  The two maps of lists, grouped by the trimmed app name; an empty name is skipped. The
  iteration order of the first map does not matter since the result is sorted by app.
\<close>

definition group_by :: "('a \<Rightarrow> string) \<Rightarrow> 'a list \<Rightarrow> (string \<times> 'a list) list" where
  "group_by key xs =
     foldl (\<lambda>groups x. let app = TrimSpace (key x) in
       if app = '''' then groups
       else AList.update app ((case map_of groups app of None \<Rightarrow> [] | Some ys \<Rightarrow> ys) @ [x]) groups) [] xs"

definition desired_revisions :: "AppVersionChangeRequest list \<Rightarrow> AppDesiredRevision list" where
  "desired_revisions requests =
     (let installationsByApp = group_by in_AppName (knownVersionsFromRequests requests);
          requestsByApp = group_by cr_App requests
      in sort_by (\<lambda>a b. dr_App a < dr_App b)
           (map (\<lambda>(app, installations).
              let version = LatestKnownVersion installations
              in \<lparr>dr_App = app, dr_Version = version,
                  dr_ChangeRequestID = latestDesiredRevisionID
                    (case map_of requestsByApp app of None \<Rightarrow> [] | Some rs \<Rightarrow> rs) version\<rparr>)
             installationsByApp))"

definition AppVersionChangeRequestService_ListDesiredRevisions where
  "AppVersionChangeRequestService_ListDesiredRevisions unmarshal s d =
     (if \<not> s then (Inl (Errorf ''list desired app revisions: change request service is not configured''), d)
      else
        (case AppVersionChangeRequestService_listAllRequests unmarshal d of
           (Inl err, d) \<Rightarrow> (Inl (Wrapf ''list desired app revisions'' err), d)
         | (Inr requests, d) \<Rightarrow> (Inr (desired_revisions requests), d)))"

subsection \<open>Following the pages\<close>

lemma request_less_trans:
  "change_request_less a b \<Longrightarrow> change_request_less b c \<Longrightarrow> change_request_less a c"
  by (auto simp: change_request_less_def split: if_splits)

lemma sorted_requests:
  assumes "distinct (map cr_ID rs)"
  shows "sorted_wrt change_request_less (sortChangeRequestsDesc rs)"
proof -
  let ?xs = "sortChangeRequestsDesc rs"
  have sorted: "sorted_wrt (\<lambda>a b. \<not> change_request_less b a) ?xs"
    unfolding sortChangeRequestsDesc_def
    by (rule sorted_wrt_sort_by) (auto simp: change_request_less_def split: if_splits)
  have "mset (map cr_ID ?xs) = mset (map cr_ID rs)" by (simp add: sortChangeRequestsDesc_def)
  then have "distinct (map cr_ID ?xs)" using assms mset_eq_imp_distinct_iff by blast
  then have ne: "cr_ID (?xs ! i) \<noteq> cr_ID (?xs ! j)" if "i < j" "j < length ?xs" for i j
    using that nth_eq_iff_index_eq [of "map cr_ID ?xs" i j] by simp
  have total: "change_request_less a b" if "\<not> change_request_less b a" "cr_ID a \<noteq> cr_ID b" for a b
    using that by (auto simp: change_request_less_def split: if_splits)
  show ?thesis
    using sorted ne total unfolding sorted_wrt_iff_nth_less by blast
qed

definition clean_request :: "AppVersionChangeRequest \<Rightarrow> bool" where
  "clean_request r \<longleftrightarrow> cr_ID r \<noteq> '''' \<and> TrimSpace (cr_ID r) = cr_ID r \<and> CHR '':'' \<notin> set (cr_ID r) \<and>
     Truncate (cr_Timestamp r) Second = cr_Timestamp r \<and> 0 < cr_Timestamp r \<and>
     four_digit_year (cr_Timestamp r)"

lemma LastIndex_append:
  "CHR '':'' \<notin> set s \<Longrightarrow> LastIndex (p @ CHR '':'' # s) (CHR '':'') = Some (length p)"
proof -
  assume "CHR '':'' \<notin> set s"
  then have "LastIndex s (CHR '':'') = None" by (induction s) auto
  then show ?thesis by (induction p) auto
qed

lemma format_RFC3339_shape: "\<exists>c s. format_RFC3339 t = c # s \<and> is_graph c"
proof -
  obtain y r where t: "format_RFC3339 t = pad_digits 4 y @ r"
    by (auto simp: format_RFC3339_def format_date_time_def Let_def split_def)
  have "pad_digits 4 y = digit (y div 10 div 10 div 10 mod 10) # tl (pad_digits 4 y)"
    by (simp add: numeral_eq_Suc)
  moreover have "is_graph (digit (y div 10 div 10 div 10 mod 10))"
    using of_char_digit [of "y div 10 div 10 div 10 mod 10"] by (simp add: is_graph_def)
  ultimately show ?thesis using t by (metis append_Cons)
qed

lemma cursor_round_trip:
  assumes "clean_request r"
  shows "parseAppVersionChangeRequestCursor (formatAppVersionChangeRequestCursor (cr_Timestamp r) (cr_ID r)) =
    Inr (cr_Timestamp r, cr_ID r)"
proof -
  let ?p = "format_RFC3339 (cr_Timestamp r)"
  have ident: "cr_ID r \<noteq> ''''" "TrimSpace (cr_ID r) = cr_ID r" "CHR '':'' \<notin> set (cr_ID r)"
    using assms by (simp_all add: clean_request_def)
  obtain c s where p: "?p = c # s" "is_graph c" using format_RFC3339_shape by blast
  have "TrimSpace ((?p @ '':'') @ cr_ID r) = (?p @ '':'') @ cr_ID r"
    by (rule TrimSpace_ends) (use p ident in \<open>simp_all add: is_graph_def\<close>)
  moreover have "LastIndex (?p @ CHR '':'' # cr_ID r) (CHR '':'') = Some (length ?p)"
    by (rule LastIndex_append [OF ident(3)])
  moreover have "parse_RFC3339 ?p = Some (cr_Timestamp r)"
    using parse_format_RFC3339 [of "cr_Timestamp r"] assms by (simp add: clean_request_def)
  ultimately show ?thesis
    using ident p by (simp add: parseAppVersionChangeRequestCursor_def formatAppVersionChangeRequestCursor_def Let_def)
qed

text \<open>The list behind the cursor of a page is what the page left out.\<close>

lemma page_filtered_cursor:
  assumes "cr_Timestamp x \<noteq> 0"
  shows "page_filtered (cr_Timestamp x) (cr_ID x) xs = filter (change_request_less x) xs"
  unfolding page_filtered_def
  by (rule filter_cong) (use assms in \<open>auto simp: changeRequestBeforeCursor_def change_request_less_def\<close>)

lemma page_filtered_behind:
  assumes "sorted_wrt change_request_less xs" and "ys = page_filtered t i xs" and "n < length ys"
    and "cr_Timestamp (ys ! n) \<noteq> 0"
  shows "page_filtered (cr_Timestamp (ys ! n)) (cr_ID (ys ! n)) xs = drop (Suc n) ys"
proof -
  let ?P = "\<lambda>r. \<not> (t \<noteq> 0 \<and> \<not> changeRequestBeforeCursor r t i)"
  have ys: "ys = filter ?P xs" using assms(2) by (simp add: page_filtered_def)
  have x: "?P (ys ! n)" using assms(3) nth_mem [of n ys] unfolding ys by auto
  define z where "z = ys ! n"
  have up: "?P r" if "change_request_less z r" for r
    using that x z_def by (auto simp: change_request_less_def changeRequestBeforeCursor_def split: if_splits)
  have "filter (change_request_less z) xs = filter (change_request_less z) (filter ?P xs)"
    unfolding filter_filter by (rule filter_cong) (use up in blast)+
  moreover have "sorted_wrt change_request_less ys"
    unfolding ys using assms(1) by (rule sorted_wrt_filter)
  then have "filter (change_request_less z) ys = drop (Suc n) ys"
    unfolding z_def using assms(3)
    by (rule filter_after) (auto simp: change_request_less_def split: if_splits)
  ultimately show ?thesis
    using page_filtered_cursor [OF assms(4), of xs] ys z_def by simp
qed

subsection \<open>The rows of the log\<close>

definition request_row :: "string \<Rightarrow> rec \<Rightarrow> bool" where
  "request_row k r \<longleftrightarrow> r ''id'' = Some (VString k) \<and> (\<exists>a. r ''app'' = Some (VString a)) \<and>
     (\<exists>v. r ''to_version'' = Some (VString v)) \<and> (\<exists>t. r ''timestamp'' = Some (VTime t))"

definition request_rows_ok :: "contents \<Rightarrow> bool" where
  "request_rows_ok c \<longleftrightarrow> wf_alist (c StoreAppVersionChangeRequests) \<and>
     (\<forall>(k, r) \<in> set (c StoreAppVersionChangeRequests). request_row k r)"

definition app_query :: "string \<Rightarrow> query" where
  "app_query app = Bound (KArray [KString app]) (KArray [KString app, KDate indexedDBMaxTime]) False False"

definition app_requests ::
  "(string \<Rightarrow> (string \<times> val) list option) \<Rightarrow> contents \<Rightarrow> string \<Rightarrow> AppVersionChangeRequest list" where
  "app_requests unmarshal c app =
     map (recordToAppVersionChangeRequest unmarshal)
       (rows_index_GetAll (c StoreAppVersionChangeRequests) [''app'', ''timestamp''] (app_query app))"

lemma ListRequestsByApp_Inr:
  assumes "AppVersionChangeRequestService_ListRequestsByApp unmarshal app d = (Inr rs, d')"
  shows "rs = app_requests unmarshal (db_rows d) (TrimSpace app)" and "db_rows d' = db_rows d"
proof -
  obtain g d1 where g: "index_GetAll StoreAppVersionChangeRequests [''app'', ''timestamp'']
      (app_query (TrimSpace app)) d = (g, d1)" by fastforce
  have "\<exists>recs. g = Inr recs \<and> rs = map (recordToAppVersionChangeRequest unmarshal) recs \<and> d' = d1"
    using assms g by (cases g) (auto simp: AppVersionChangeRequestService_ListRequestsByApp_def app_query_def
        Let_def split: if_splits)
  then show "rs = app_requests unmarshal (db_rows d) (TrimSpace app)" "db_rows d' = db_rows d"
    using index_GetAll_Inr g read_rows(3) [OF g] by (auto simp: app_requests_def)
qed

lemma ListRequestsByApp_healthy:
  assumes "db_healthy d" and "TrimSpace app \<noteq> ''''"
  shows "AppVersionChangeRequestService_ListRequestsByApp unmarshal app d =
    (Inr (app_requests unmarshal (db_rows d) (TrimSpace app)), d\<lparr>db_tick := Suc (db_tick d)\<rparr>)"
  using assms by (simp add: AppVersionChangeRequestService_ListRequestsByApp_def app_query_def app_requests_def
      healthy_store(3) Let_def)

lemma compareDates_le:
  assumes "unix_epoch - 2 ^ 63 \<le> t" and "t < unix_epoch + 2 ^ 63"
    and "unix_epoch - 2 ^ 63 \<le> u" and "u < unix_epoch + 2 ^ 63"
  shows "compareDates t u \<le> 0 \<longleftrightarrow> t \<le> u"
proof -
  have "UnixNano x = x - unix_epoch" if "unix_epoch - 2 ^ 63 \<le> x" "x < unix_epoch + 2 ^ 63" for x
    using that by (simp add: UnixNano_def wrap64_def)
  then show ?thesis using assms by (simp add: compareDates_def sign_def)
qed

definition storable_time :: "time \<Rightarrow> bool" where
  "storable_time t \<longleftrightarrow> unix_epoch - 2 ^ 63 \<le> t \<and> t \<le> indexedDBMaxTime"

lemma max_time_range: "unix_epoch - 2 ^ 63 \<le> indexedDBMaxTime" "indexedDBMaxTime < unix_epoch + 2 ^ 63"
  by code_simp+

lemma app_query_match:
  assumes "request_row k r" and "storable_time (recTime r ''timestamp'')"
  shows "(\<exists>ik. index_key [''app'', ''timestamp''] r = Some ik \<and> MatchQuery ik (app_query app)) \<longleftrightarrow>
    utf16 (recString r ''app'') = utf16 app"
proof -
  obtain a t where f: "r ''app'' = Some (VString a)" "r ''timestamp'' = Some (VTime t)"
    using assms(1) by (auto simp: request_row_def)
  have "compareDates t indexedDBMaxTime \<le> 0"
    using compareDates_le [of t indexedDBMaxTime] max_time_range assms(2) f
    by (simp add: storable_time_def recTime_def)
  moreover have ik: "index_key [''app'', ''timestamp''] r = Some (KArray [KString a, KDate t])"
    using f by (simp add: index_key_def recordHasIndexKey_def)
  ultimately show ?thesis
    using compare_strings_eq [of a app] f
    by (auto simp: ik app_query_def Bound_def KeyInRange_def recString_def Let_def split: if_splits)
qed

text \<open>The listing of an app holds exactly its requests.\<close>

lemma set_app_requests:
  assumes "request_rows_ok c"
    and "\<And>k r. (k, r) \<in> set (c StoreAppVersionChangeRequests) \<Longrightarrow> storable_time (recTime r ''timestamp'')"
  shows "set (app_requests unmarshal c app) =
    {recordToAppVersionChangeRequest unmarshal r | k r. (k, r) \<in> set (c StoreAppVersionChangeRequests) \<and>
      utf16 (recString r ''app'') = utf16 app}"
proof -
  have "set (rows_index_GetAll (c StoreAppVersionChangeRequests) [''app'', ''timestamp''] (app_query app)) =
      {r. \<exists>k. (k, r) \<in> set (c StoreAppVersionChangeRequests) \<and> utf16 (recString r ''app'') = utf16 app}"
    unfolding set_rows_index_GetAll
    using assms app_query_match [where app = app] by (fastforce simp: request_rows_ok_def)
  then show ?thesis by (auto simp: app_requests_def)
qed

lemma distinct_app_requests:
  assumes "request_rows_ok c"
  shows "distinct (map cr_ID (app_requests unmarshal c app))"
proof -
  let ?kp = "[''app'', ''timestamp'']" and ?rows = "c StoreAppVersionChangeRequests"
  let ?xs = "filter (\<lambda>(k, r). MatchQuery (the (index_key ?kp r)) (app_query app))
    (sort_by (index_less ?kp) (filter (\<lambda>(k, r). index_key ?kp r \<noteq> None) ?rows))"
  have "cr_ID (recordToAppVersionChangeRequest unmarshal (snd x)) = fst x" if "x \<in> set ?rows" for x
    using that assms by (auto simp: request_rows_ok_def request_row_def recordToAppVersionChangeRequest_def
        recString_def)
  then have "map cr_ID (app_requests unmarshal c app) = map fst ?xs"
    unfolding app_requests_def rows_index_GetAll_def by (auto simp: comp_def)
  moreover have "distinct (map fst ?xs)"
  proof (rule distinct_map_filter)
    have "mset (map fst (sort_by (index_less ?kp) (filter (\<lambda>(k, r). index_key ?kp r \<noteq> None) ?rows))) =
        mset (map fst (filter (\<lambda>(k, r). index_key ?kp r \<noteq> None) ?rows))" by simp
    moreover have "distinct (map fst (filter (\<lambda>(k, r). index_key ?kp r \<noteq> None) ?rows))"
      using assms by (intro distinct_map_filter) (simp add: request_rows_ok_def)
    ultimately show "distinct (map fst (sort_by (index_less ?kp)
        (filter (\<lambda>(k, r). index_key ?kp r \<noteq> None) ?rows)))"
      using mset_eq_imp_distinct_iff by blast
  qed
  ultimately show ?thesis by simp
qed

subsection \<open>Appending\<close>

lemma change_request_record_row:
  "request_row (record_id (change_request_record new_id now r)) (change_request_record new_id now r)"
  by (auto simp: request_row_def change_request_record_def record_id_def Let_def split: option.split)

lemma AppendRequest_rows:
  assumes "AppVersionChangeRequestService_AppendRequest unmarshal new_id now (Some r) d = (x, d')"
  shows "(\<exists>e. x = Inl e) \<and> db_rows d' = db_rows d \<or>
    (let rec = change_request_record new_id now r
     in x = Inr (recordToAppVersionChangeRequest unmarshal rec) \<and>
        db_rows d' = row_put StoreAppVersionChangeRequests rec (db_rows d) \<and>
        map_of (db_rows d StoreAppVersionChangeRequests) (record_id rec) = None)"
proof -
  let ?rec = "change_request_record new_id now r"
  obtain y d1 where y: "store_Add StoreAppVersionChangeRequests ?rec d = (y, d1)" by fastforce
  show ?thesis
  proof (cases y)
    case (Inl e)
    then show ?thesis
      using assms y write_rows(2) [OF y]
      by (auto simp: AppVersionChangeRequestService_AppendRequest_def Let_def split: if_splits)
  next
    case (Inr u)
    then show ?thesis
      using assms y write_rows(2) [OF y] store_Add_Inr(2) [OF y [unfolded Inr]]
      by (auto simp: AppVersionChangeRequestService_AppendRequest_def Let_def split: if_splits)
  qed
qed

lemma AppendRequest_ok:
  assumes "AppVersionChangeRequestService_AppendRequest unmarshal new_id now (Some r) d = (x, d')"
    and "request_rows_ok (db_rows d)"
  shows "request_rows_ok (db_rows d')"
  using AppendRequest_rows [OF assms(1)] assms(2) change_request_record_row [of new_id now r]
  by (auto simp: request_rows_ok_def Let_def row_put_def update_fresh map_of_eq_None_iff)

subsection \<open>A client that follows the cursors\<close>

primrec follow_pages ::
  "(string \<Rightarrow> (string \<times> val) list option) \<Rightarrow> nat \<Rightarrow> string \<Rightarrow> int \<Rightarrow> string \<Rightarrow> db \<Rightarrow>
    AppVersionChangeRequest list result" where
  "follow_pages unmarshal 0 app limit cursor d = Inr []"
| "follow_pages unmarshal (Suc n) app limit cursor d =
     (case AppVersionChangeRequestService_ListRequestsByAppPage unmarshal app limit cursor d of
        (Inl err, d) \<Rightarrow> Inl err
      | (Inr page, d) \<Rightarrow>
          if pg_NextCursor page = '''' then Inr (pg_Requests page)
          else map_sum (\<lambda>e. e) ((@) (pg_Requests page))
            (follow_pages unmarshal n app limit (pg_NextCursor page) d))"

lemma page_limit_pos: "0 < page_limit limit"
  by (simp add: page_limit_def DefaultAppVersionChangeRequestPageLimit_def
      MaxAppVersionChangeRequestPageLimit_def Let_def)

lemma follow_pages_from:
  assumes "db_healthy d" and "TrimSpace app \<noteq> ''''" and ok: "request_rows_ok (db_rows d)"
    and clean: "\<And>r. r \<in> set (app_requests unmarshal (db_rows d) (TrimSpace app)) \<Longrightarrow> clean_request r"
    and "parseAppVersionChangeRequestCursor cursor = Inr (t, i)"
    and "ys = page_filtered t i (sortChangeRequestsDesc (app_requests unmarshal (db_rows d) (TrimSpace app)))"
    and "length ys \<le> n"
  shows "follow_pages unmarshal n app limit cursor d = Inr ys"
  using assms
proof (induction n arbitrary: d cursor t i ys)
  case (Suc n)
  let ?rs = "app_requests unmarshal (db_rows d) (TrimSpace app)" and ?m = "nat (page_limit limit)"
  let ?xs = "sortChangeRequestsDesc ?rs" and ?d = "d\<lparr>db_tick := Suc (db_tick d)\<rparr>"
  have m: "0 < ?m" "int ?m = page_limit limit" using page_limit_pos [of limit] by simp_all
  have page: "AppVersionChangeRequestService_ListRequestsByAppPage unmarshal app limit cursor d =
      (Inr (page_of ys (page_limit limit)), ?d)"
    using ListRequestsByApp_healthy [OF Suc.prems(1,2)] Suc.prems(5,6)
    by (simp add: AppVersionChangeRequestService_ListRequestsByAppPage_def)
  show ?case
  proof (cases "?m < length ys")
    case False
    then have "page_of ys (page_limit limit) = \<lparr>pg_Requests = ys, pg_NextCursor = ''''\<rparr>"
      using m by (simp add: page_of_def)
    then show ?thesis using page by simp
  next
    case True
    let ?z = "ys ! (?m - 1)"
    have "?z \<in> set ys" using True by simp
    then have "?z \<in> set ?rs" using Suc.prems(6) by (auto simp: page_filtered_def sortChangeRequestsDesc_def)
    then have z: "clean_request ?z" by (rule Suc.prems(4))
    let ?c = "formatAppVersionChangeRequestCursor (cr_Timestamp ?z) (cr_ID ?z)"
    have p: "page_of ys (page_limit limit) = \<lparr>pg_Requests = take ?m ys, pg_NextCursor = ?c\<rparr>"
      using True m(1) by (simp add: page_of_def Let_def nat_diff_distrib zless_nat_conj [symmetric] nat_less_iff)
    have c: "?c \<noteq> ''''" by (simp add: formatAppVersionChangeRequestCursor_def)
    have behind: "drop ?m ys = page_filtered (cr_Timestamp ?z) (cr_ID ?z) ?xs"
      using page_filtered_behind [OF sorted_requests [OF distinct_app_requests [OF Suc.prems(3)]] Suc.prems(6),
          of "?m - 1"] True m(1) z
      by (simp add: clean_request_def)
    have len: "length (drop ?m ys) \<le> n" using Suc.prems(7) m(1) by simp
    have "follow_pages unmarshal n app limit ?c ?d = Inr (drop ?m ys)"
      by (rule Suc.IH [OF _ Suc.prems(2) _ _ cursor_round_trip [OF z] _ len])
        (use Suc.prems(1,3,4) behind in \<open>simp_all add: db_rows_tick_fun\<close>)
    then show ?thesis using page p c by simp
  qed
qed simp

subsection \<open>Properties\<close>

text \<open>
  C20. Following the pages gives the whole history: on an answering provider, when the timestamps
  are whole seconds and no identifier holds a colon, a client that starts without a cursor and
  follows each next cursor gets every request of the app exactly once, newest first, whatever the
  page size, in at most as many pages as there are requests.
\<close>

theorem change_request_pages_complete:
  assumes "db_healthy d" and "TrimSpace app \<noteq> ''''" and "request_rows_ok (db_rows d)"
    and "\<forall>r \<in> set (app_requests unmarshal (db_rows d) (TrimSpace app)). clean_request r"
    and "length (app_requests unmarshal (db_rows d) (TrimSpace app)) \<le> n"
  shows "follow_pages unmarshal n app limit '''' d =
    Inr (sortChangeRequestsDesc (app_requests unmarshal (db_rows d) (TrimSpace app)))"
  by (rule follow_pages_from [where t = 0 and i = "''''"])
    (use assms in \<open>auto simp: parseAppVersionChangeRequestCursor_def page_filtered_def sortChangeRequestsDesc_def\<close>)


definition sample_request :: "string \<Rightarrow> string \<Rightarrow> time \<Rightarrow> AppVersionChangeRequest" where
  "sample_request ident version t =
     \<lparr>cr_ID = ident, cr_App = ''mail'', cr_FromVersion = ''v0'', cr_ToVersion = version, cr_Actor = '''',
      cr_Timestamp = t, cr_FromVersionDeployableUntil = None, cr_Metadata = None\<rparr>"

definition request_db :: "AppVersionChangeRequest list \<Rightarrow> db" where
  "request_db rs = set_rows StoreAppVersionChangeRequests
     (map (\<lambda>r. (cr_ID r, change_request_record '''' 0 r)) rs) empty_db"

lemma request_db_simps [simp]: "db_healthy (request_db rs)" "schema_ok (request_db rs)"
  by (simp_all add: request_db_def)

definition sample_history :: "time \<Rightarrow> AppVersionChangeRequest list" where
  "sample_history step =
     [sample_request ''a'' ''v1'' (unix_epoch + Second + step),
      sample_request ''b'' ''v2'' (unix_epoch + Second + 2 * step)]"

lemma sample_history_rows:
  "request_rows_ok (db_rows (request_db (sample_history step)))"
  by (auto simp: request_rows_ok_def request_db_def sample_history_def sample_request_def request_row_def
      change_request_record_def Let_def is_graph_def)

lemma sample_records:
  assumes "step = Second \<or> step = Millisecond"
  shows "map (\<lambda>r. recordToAppVersionChangeRequest unmarshal (change_request_record '''' 0 r)) (sample_history step) =
    sample_history step"
proof -
  have "truncate_ms (unix_epoch + Second + step) = unix_epoch + Second + step"
    "truncate_ms (unix_epoch + Second + 2 * step) = unix_epoch + Second + 2 * step"
    using assms by (auto simp: truncate_ms_eq unix_epoch_def Second_def Millisecond_def)
  moreover have "unix_epoch + Second + step \<noteq> 0" "unix_epoch + Second + 2 * step \<noteq> 0"
    using assms by (auto simp: unix_epoch_def Second_def Millisecond_def)
  ultimately show ?thesis
    by (simp add: sample_history_def sample_request_def change_request_record_def Let_def is_graph_def
        recordToAppVersionChangeRequest_def recString_def recTime_def recAnyMap_def)
qed


lemma length_app_requests: "length (app_requests unmarshal c app) \<le> length (c StoreAppVersionChangeRequests)"
  unfolding app_requests_def rows_index_GetAll_def
  by (simp, rule order_trans [OF length_filter_le]) simp

lemma sample_requests:
  assumes "step = Second \<or> step = Millisecond"
  shows "set (app_requests unmarshal (db_rows (request_db (sample_history step))) app) \<subseteq> set (sample_history step)"
proof -
  have "set (app_requests unmarshal (db_rows (request_db rs)) app) \<subseteq>
      (\<lambda>r. recordToAppVersionChangeRequest unmarshal (change_request_record '''' 0 r)) ` set rs" for rs
    by (auto simp: app_requests_def rows_index_GetAll_def request_db_def)
  from this [of "sample_history step"] show ?thesis
    using arg_cong [OF sample_records [OF assms, of unmarshal], of set] by simp
qed

theorem change_request_pages_complete_witness:
  "follow_pages (\<lambda>_. None) 2 ''mail'' 1 '''' (request_db (sample_history Second)) =
    Inr (sortChangeRequestsDesc (app_requests (\<lambda>_. None) (db_rows (request_db (sample_history Second))) ''mail''))"
proof -
  let ?d = "request_db (sample_history Second)"
  have "clean_request r" if "r \<in> set (sample_history Second)" for r
  proof -
    have "Truncate (unix_epoch + Second + Second) Second = unix_epoch + Second + Second \<and>
        four_digit_year (unix_epoch + Second + Second)"
      "Truncate (unix_epoch + Second + 2 * Second) Second = unix_epoch + Second + 2 * Second \<and>
        four_digit_year (unix_epoch + Second + 2 * Second)" by code_simp+
    with that show ?thesis
      by (auto simp: clean_request_def sample_history_def sample_request_def is_graph_def unix_epoch_def Second_def)
  qed
  then have "\<forall>r \<in> set (app_requests (\<lambda>_. None) (db_rows ?d) ''mail''). clean_request r"
    using sample_requests [of Second "\<lambda>_. None" "''mail''"] by auto
  moreover have "length (app_requests (\<lambda>_. None) (db_rows ?d) ''mail'') \<le> 2"
    using length_app_requests [of "\<lambda>_. None" "db_rows ?d" "''mail''"]
    by (simp add: request_db_def sample_history_def)
  ultimately show ?thesis
    using change_request_pages_complete [of ?d "''mail''" "\<lambda>_. None" 2 1] sample_history_rows
    by (simp add: is_graph_def)
qed

text \<open>
  C23. A page cursor can skip a request: it keeps whole seconds while the timestamps keep
  milliseconds, and of two requests one
  millisecond apart the first page shows the newer, and the page behind its cursor is empty.
\<close>

theorem change_request_page_skips:
  "let xs = sortChangeRequestsDesc (sample_history Millisecond); page = page_of xs 1
   in xs = rev (sample_history Millisecond) \<and> pg_Requests page = [xs ! 0] \<and>
      (\<exists>t i. parseAppVersionChangeRequestCursor (pg_NextCursor page) = Inr (t, i) \<and> page_filtered t i xs = [])"
proof -
  let ?xs = "rev (sample_history Millisecond)"
  have sorted: "sortChangeRequestsDesc (sample_history Millisecond) = ?xs" by code_simp
  have "pg_Requests (page_of ?xs 1) = [?xs ! 0]" by (simp add: page_of_def Let_def sample_history_def)
  moreover have "parseAppVersionChangeRequestCursor (pg_NextCursor (page_of ?xs 1)) =
      Inr (unix_epoch + Second, ''b'')" by code_simp
  moreover have "page_filtered (unix_epoch + Second) ''b'' ?xs = []" by code_simp
  ultimately show ?thesis unfolding sorted Let_def by blast
qed

text \<open>
  C21. The log keeps what is appended: after a successful append, listing an app gives what it gave
  before together with the new request when it is for that app, the identifier of the new request
  was not in use, and nothing already listed is lost or changed.
\<close>

theorem appended_request_listed:
  assumes "AppVersionChangeRequestService_AppendRequest unmarshal new_id now (Some r) d = (Inr r', d1)"
    and "request_rows_ok (db_rows d)"
    and "\<forall>(k, rec) \<in> set (db_rows d1 StoreAppVersionChangeRequests). storable_time (recTime rec ''timestamp'')"
    and "AppVersionChangeRequestService_ListRequestsByApp unmarshal app d = (Inr before, d2)"
    and "AppVersionChangeRequestService_ListRequestsByApp unmarshal app d1 = (Inr after, d3)"
  shows "cr_ID r' \<notin> cr_ID ` set before \<and>
    set after = (if utf16 (TrimSpace (cr_App r)) = utf16 (TrimSpace app) then insert r' (set before) else set before)"
proof -
  let ?S = StoreAppVersionChangeRequests and ?rec = "change_request_record new_id now r"
  let ?f = "recordToAppVersionChangeRequest unmarshal"
  have new: "r' = ?f ?rec" "db_rows d1 ?S = db_rows d ?S @ [(record_id ?rec, ?rec)]"
    "map_of (db_rows d ?S) (record_id ?rec) = None"
    using AppendRequest_rows [OF assms(1)] by (auto simp: Let_def row_put_def update_fresh)
  have ok1: "request_rows_ok (db_rows d1)" by (rule AppendRequest_ok [OF assms(1,2)])
  have before: "set before = {?f rec | k rec. (k, rec) \<in> set (db_rows d ?S) \<and>
      utf16 (recString rec ''app'') = utf16 (TrimSpace app)}"
    unfolding ListRequestsByApp_Inr(1) [OF assms(4)]
    by (rule set_app_requests [OF assms(2)]) (use assms(3) new(2) in auto)
  have after: "set after = {?f rec | k rec. (k, rec) \<in> set (db_rows d1 ?S) \<and>
      utf16 (recString rec ''app'') = utf16 (TrimSpace app)}"
    unfolding ListRequestsByApp_Inr(1) [OF assms(5)]
    by (rule set_app_requests [OF ok1]) (use assms(3) in auto)
  have app: "recString ?rec ''app'' = TrimSpace (cr_App r)"
    by (auto simp: change_request_record_def recString_def Let_def split: option.split)
  have ident: "cr_ID (?f rec) = k" if "request_row k rec" for k rec
    using that by (simp add: request_row_def recordToAppVersionChangeRequest_def recString_def)
  have "cr_ID r' = record_id ?rec" using new(1) ident [OF change_request_record_row] by simp
  moreover have "cr_ID x \<in> fst ` set (db_rows d ?S)" if "x \<in> set before" for x
    using that assms(2) ident unfolding before request_rows_ok_def by force
  ultimately have "cr_ID r' \<notin> cr_ID ` set before" using new(3) by (auto simp: map_of_eq_None_iff)
  moreover have "set after = (if utf16 (TrimSpace (cr_App r)) = utf16 (TrimSpace app)
      then insert r' (set before) else set before)"
  proof -
    have "{?f rec | k rec. (k, rec) \<in> set (xs @ [(i, z)]) \<and> P rec} =
        (if P z then insert (?f z) {?f rec | k rec. (k, rec) \<in> set xs \<and> P rec}
         else {?f rec | k rec. (k, rec) \<in> set xs \<and> P rec})" for xs :: "(string \<times> rec) list" and i z P
      by (cases "P z") (simp_all, blast+)
    from this [where P = "\<lambda>rec. utf16 (recString rec ''app'') = utf16 (TrimSpace app)"]
    show ?thesis unfolding after before new(2) new(1) using app by simp
  qed
  ultimately show ?thesis by simp
qed

lemma AppendRequest_healthy:
  assumes "db_healthy d" and "schema_ok d" and "TrimSpace (cr_App r) \<noteq> ''''"
    and "TrimSpace (cr_FromVersion r) \<noteq> ''''" and "TrimSpace (cr_ToVersion r) \<noteq> ''''"
    and "map_of (db_rows d StoreAppVersionChangeRequests) (record_id (change_request_record new_id now r)) = None"
  shows "\<exists>d'. AppVersionChangeRequestService_AppendRequest unmarshal new_id now (Some r) d =
    (Inr (recordToAppVersionChangeRequest unmarshal (change_request_record new_id now r)), d') \<and> db_healthy d'"
proof -
  have "\<not> hasUniqueConflict (db_stores d StoreAppVersionChangeRequests) (change_request_record new_id now r) None"
    using schema_ok_indexes [OF assms(2) schema_member(4)]
    by (intro no_unique_conflict) (simp add: AppVersionChangeRequestsSchema_def index_def)
  from healthy_store(6) [OF assms(1,6) this] show ?thesis
    using assms(1,3-5) by (simp add: AppVersionChangeRequestService_AppendRequest_def Let_def)
qed

theorem appended_request_listed_witness:
  "\<exists>r' d1 after d2. AppVersionChangeRequestService_AppendRequest (\<lambda>_. None) ''x'' 5
      (Some (sample_request ''a'' ''v1'' unix_epoch)) empty_db = (Inr r', d1) \<and>
     AppVersionChangeRequestService_ListRequestsByApp (\<lambda>_. None) ''mail'' d1 = (Inr after, d2) \<and> r' \<in> set after"
proof -
  let ?r = "sample_request ''a'' ''v1'' unix_epoch"
  have trim: "TrimSpace ''mail'' = ''mail''" "TrimSpace ''a'' = ''a''" "TrimSpace ''v0'' = ''v0''"
    "TrimSpace ''v1'' = ''v1''" by (simp_all add: is_graph_def)
  obtain r' d1 where a: "AppVersionChangeRequestService_AppendRequest (\<lambda>_. None) ''x'' 5 (Some ?r) empty_db =
      (Inr r', d1)" "db_healthy d1"
    using AppendRequest_healthy [of empty_db ?r "''x''" 5 "\<lambda>_. None"]
    by (auto simp: sample_request_def trim)
  have rows: "db_rows d1 StoreAppVersionChangeRequests =
      [(record_id (change_request_record ''x'' 5 ?r), change_request_record ''x'' 5 ?r)]"
    using AppendRequest_rows [OF a(1)] by (simp add: Let_def row_put_def)
  have "recTime (change_request_record ''x'' 5 ?r) ''timestamp'' = truncate_ms unix_epoch"
    by (simp add: change_request_record_def sample_request_def recTime_def unix_epoch_def)
  moreover have "storable_time (truncate_ms unix_epoch)" by code_simp
  ultimately have times: "\<forall>(k, rec) \<in> set (db_rows d1 StoreAppVersionChangeRequests).
      storable_time (recTime rec ''timestamp'')" using rows by simp
  have l: "AppVersionChangeRequestService_ListRequestsByApp (\<lambda>_. None) ''mail'' d =
      (Inr (app_requests (\<lambda>_. None) (db_rows d) ''mail''), d\<lparr>db_tick := Suc (db_tick d)\<rparr>)" if "db_healthy d" for d
    using ListRequestsByApp_healthy [OF that, of "''mail''"] by (simp add: trim)
  have "request_rows_ok (db_rows empty_db)" by (simp add: request_rows_ok_def)
  from appended_request_listed [OF a(1) this times l [of empty_db] l [OF a(2)]] a l [OF a(2)]
  show ?thesis by (auto simp: sample_request_def trim)
qed

lemma later_revision_fold:
  assumes "\<forall>r \<in> set rs. cr_ID r \<noteq> ''''" and "foldl (later_revision v) ('''', 0) rs = (i, t)"
  shows "(\<forall>r \<in> set rs. TrimSpace (cr_ToVersion r) \<noteq> v) \<and> i = '''' \<or>
    (\<exists>r \<in> set rs. TrimSpace (cr_ToVersion r) = v \<and> cr_ID r = i \<and> cr_Timestamp r = t \<and>
      (\<forall>r' \<in> set rs. TrimSpace (cr_ToVersion r') = v \<longrightarrow>
        cr_Timestamp r' < t \<or> cr_Timestamp r' = t \<and> cr_ID r' \<le> i))"
  using assms
proof (induction rs arbitrary: i t rule: rev_induct)
  case (snoc r rs)
  obtain j u where ju: "foldl (later_revision v) ('''', 0) rs = (j, u)" by fastforce
  have IH: "(\<forall>r \<in> set rs. TrimSpace (cr_ToVersion r) \<noteq> v) \<and> j = '''' \<or>
    (\<exists>r \<in> set rs. TrimSpace (cr_ToVersion r) = v \<and> cr_ID r = j \<and> cr_Timestamp r = u \<and>
      (\<forall>r' \<in> set rs. TrimSpace (cr_ToVersion r') = v \<longrightarrow>
        cr_Timestamp r' < u \<or> cr_Timestamp r' = u \<and> cr_ID r' \<le> j))"
    using snoc.IH [OF _ ju] snoc.prems(1) by simp
  have step: "later_revision v (j, u) r = (i, t)" using snoc.prems(2) ju by simp
  consider (other) "TrimSpace (cr_ToVersion r) \<noteq> v" "i = j" "t = u"
    | (newer) "TrimSpace (cr_ToVersion r) = v" "i = cr_ID r" "t = cr_Timestamp r"
        "j = '''' \<or> u < cr_Timestamp r \<or> cr_Timestamp r = u \<and> j < cr_ID r"
    | (older) "TrimSpace (cr_ToVersion r) = v" "i = j" "t = u" "j \<noteq> ''''"
        "cr_Timestamp r < u \<or> cr_Timestamp r = u \<and> cr_ID r \<le> j"
    using step by (force simp: later_revision_def not_less split: if_splits)
  then show ?case
  proof cases
    case other
    then show ?thesis using IH by auto
  next
    case newer
    have "\<forall>r' \<in> set rs. TrimSpace (cr_ToVersion r') = v \<longrightarrow>
        cr_Timestamp r' < t \<or> cr_Timestamp r' = t \<and> cr_ID r' \<le> i"
      using IH newer(2-4) snoc.prems(1) by fastforce
    then show ?thesis using newer(1-3) by auto
  next
    case older
    then show ?thesis using IH by auto
  qed
qed simp

text \<open>
  C22. The latest revision of a version is the newest: among the requests for the version it is
  the one with the greatest time, and of those the one with the greatest identifier; there is none
  exactly when no request is for the version.
\<close>

theorem latest_revision_is_newest:
  assumes "\<forall>r \<in> set requests. cr_ID r \<noteq> ''''" and "TrimSpace version \<noteq> ''''"
  shows "if \<exists>r \<in> set requests. TrimSpace (cr_ToVersion r) = TrimSpace version
    then \<exists>r \<in> set requests. TrimSpace (cr_ToVersion r) = TrimSpace version \<and>
      latestDesiredRevisionID requests version = cr_ID r \<and>
      (\<forall>r' \<in> set requests. TrimSpace (cr_ToVersion r') = TrimSpace version \<longrightarrow>
        cr_Timestamp r' < cr_Timestamp r \<or> cr_Timestamp r' = cr_Timestamp r \<and> cr_ID r' \<le> cr_ID r)
    else latestDesiredRevisionID requests version = ''''"
proof -
  obtain i t where it: "foldl (later_revision (TrimSpace version)) ('''', 0) requests = (i, t)" by fastforce
  then have i: "latestDesiredRevisionID requests version = i"
    using assms(2) by (simp add: latestDesiredRevisionID_def)
  show ?thesis
  proof (cases "\<exists>r \<in> set requests. TrimSpace (cr_ToVersion r) = TrimSpace version")
    case True
    then obtain r where "r \<in> set requests" "TrimSpace (cr_ToVersion r) = TrimSpace version" "cr_ID r = i"
      "cr_Timestamp r = t" "\<forall>r' \<in> set requests. TrimSpace (cr_ToVersion r') = TrimSpace version \<longrightarrow>
        cr_Timestamp r' < t \<or> cr_Timestamp r' = t \<and> cr_ID r' \<le> i"
      using later_revision_fold [OF assms(1) it] by metis
    then have "\<exists>r \<in> set requests. TrimSpace (cr_ToVersion r) = TrimSpace version \<and> i = cr_ID r \<and>
      (\<forall>r' \<in> set requests. TrimSpace (cr_ToVersion r') = TrimSpace version \<longrightarrow>
        cr_Timestamp r' < cr_Timestamp r \<or> cr_Timestamp r' = cr_Timestamp r \<and> cr_ID r' \<le> cr_ID r)"
      by (intro bexI [of _ r]) simp_all
    with True show ?thesis unfolding i by simp
  next
    case False
    then show ?thesis using later_revision_fold [OF assms(1) it] i by auto
  qed
qed

theorem latest_revision_is_newest_witness:
  "latestDesiredRevisionID [sample_request ''a'' ''v1'' 5, sample_request ''b'' ''v1'' 5,
     sample_request ''c'' ''v2'' 9] '' v1 '' = ''b''"
proof -
  let ?rs = "[sample_request ''a'' ''v1'' 5, sample_request ''b'' ''v1'' 5, sample_request ''c'' ''v2'' 9]"
  have v: "TrimSpace '' v1 '' = ''v1''" by code_simp
  have "TrimSpace ''v1'' = ''v1''" "TrimSpace ''v2'' = ''v2''" by (simp_all add: is_graph_def)
  with latest_revision_is_newest [of ?rs "'' v1 ''"] show ?thesis
    by (auto simp: v sample_request_def)
qed

subsection \<open>The desired version\<close>

text \<open>The place of a request in the order that decides which version is desired.\<close>

definition request_version :: "AppVersionChangeRequest \<Rightarrow> string" where
  "request_version r = TrimSpace (cr_ToVersion r)"

definition request_rank :: "AppVersionChangeRequest \<Rightarrow> time \<times> string" where
  "request_rank r = (truncate_ms (cr_Timestamp r), request_version r)"

definition rank_le :: "time \<times> string \<Rightarrow> time \<times> string \<Rightarrow> bool" where
  "rank_le a b \<longleftrightarrow> fst a < fst b \<or> fst a = fst b \<and> snd a \<le> snd b"

definition installation_rank :: "AppInstallation \<Rightarrow> time \<times> string" where
  "installation_rank i = (in_UpdatedAt i, in_Version i)"

lemma installation_of_request:
  "in_Version (installationFromChangeRequest r) = request_version r"
  "installation_rank (installationFromChangeRequest r) = request_rank r"
  by (auto simp: installationFromChangeRequest_def request_version_def request_rank_def installation_rank_def Let_def
      split: option.splits)

definition known_ok :: "string \<Rightarrow> AppVersionChangeRequest list \<Rightarrow> (string \<times> AppInstallation) list \<Rightarrow> bool" where
  "known_ok app rs m \<longleftrightarrow> wf_alist m \<and>
     (\<forall>k i. map_of m k = Some i \<longrightarrow> (\<exists>r \<in> set rs. i = installationFromChangeRequest r \<and> request_version r \<noteq> '''' \<and>
       k = known_version_key app (request_version r))) \<and>
     (\<forall>r \<in> set rs. request_version r \<noteq> '''' \<longrightarrow>
       (\<exists>i. map_of m (known_version_key app (request_version r)) = Some i \<and> fst (request_rank r) \<le> in_UpdatedAt i))"

lemma in_UpdatedAt_request: "in_UpdatedAt (installationFromChangeRequest r) = fst (request_rank r)"
  using installation_of_request(2) [of r] by (simp add: installation_rank_def prod_eq_iff)

lemma known_ok_add:
  assumes "known_ok app rs m" and "TrimSpace (cr_App r) = app" and "app \<noteq> ''''"
  shows "known_ok app (rs @ [r]) (add_known m r)"
proof (cases "request_version r = ''''")
  case True
  then have "add_known m r = m" by (simp add: add_known_def request_version_def)
  then show ?thesis using assms(1) True by (auto simp: known_ok_def)
next
  case False
  let ?k = "known_version_key app (request_version r)" and ?i = "installationFromChangeRequest r"
  let ?keep = "\<exists>e. map_of m ?k = Some e \<and> \<not> in_UpdatedAt e < in_UpdatedAt ?i"
  have a: "add_known m r = (if ?keep then m else AList.update ?k ?i m)"
    using False assms(2,3) by (auto simp: add_known_def request_version_def Let_def split: option.splits)
  show ?thesis
  proof (cases ?keep)
    case True
    then have "add_known m r = m" using a by simp
    then show ?thesis
      using assms(1) True in_UpdatedAt_request [of r] unfolding known_ok_def by (auto simp: not_less)
  next
    case nk: False
    then have "add_known m r = AList.update ?k ?i m" unfolding a by (rule if_not_P)
    moreover have "fst (request_rank r') \<le> fst (request_rank r)"
      if "r' \<in> set rs" "request_version r' \<noteq> ''''" "known_version_key app (request_version r') = ?k" for r'
      using assms(1) that nk in_UpdatedAt_request [of r] unfolding known_ok_def by fastforce
    ultimately show ?thesis
      using assms(1) False in_UpdatedAt_request [of r] unfolding known_ok_def
      by (auto simp: wf_alist_update update_conv' split: if_splits)
  qed
qed

lemma known_ok_all:
  assumes "\<forall>r \<in> set rs. TrimSpace (cr_App r) = app" and "app \<noteq> ''''"
  shows "known_ok app rs (foldl add_known [] rs)"
  using assms(1)
proof (induction rs rule: rev_induct)
  case Nil
  show ?case by (simp add: known_ok_def)
next
  case (snoc r rs)
  then show ?case using known_ok_add [OF _ _ assms(2)] by simp
qed

lemma rank_le_trans: "rank_le a b \<Longrightarrow> rank_le b c \<Longrightarrow> rank_le a c"
  by (auto simp: rank_le_def)

lemma rank_le_total: "rank_le a b \<or> rank_le b a"
  by (auto simp: rank_le_def)

lemma later_installation_max:
  assumes "TrimSpace (in_Version a) = in_Version a" and "TrimSpace (in_Version b) = in_Version b"
  shows "later_installation a b \<in> {a, b}" and "rank_le (installation_rank a) (installation_rank (later_installation a b))"
    and "rank_le (installation_rank b) (installation_rank (later_installation a b))"
  using assms by (auto simp: later_installation_def rank_le_def installation_rank_def not_less)

lemma latest_installation_max:
  assumes "\<forall>i \<in> set (a # is). TrimSpace (in_Version i) = in_Version i"
  shows "foldl later_installation a is \<in> set (a # is) \<and>
    (\<forall>i \<in> set (a # is). rank_le (installation_rank i) (installation_rank (foldl later_installation a is)))"
  using assms
proof (induction "is" arbitrary: a)
  case Nil
  show ?case by (simp add: rank_le_def)
next
  case (Cons b "is")
  let ?c = "later_installation a b" and ?m = "foldl later_installation (later_installation a b) is"
  note max = later_installation_max [of a b]
  have "?m \<in> set (?c # is) \<and> (\<forall>i \<in> set (?c # is). rank_le (installation_rank i) (installation_rank ?m))"
    by (rule Cons.IH) (use Cons.prems max(1) in auto)
  moreover have "rank_le (installation_rank a) (installation_rank ?c)" "rank_le (installation_rank b) (installation_rank ?c)"
      "?c \<in> {a, b}"
    using max Cons.prems by simp_all
  ultimately show ?case using rank_le_trans by (auto 0 3)
qed

lemma set_known_versions:
  assumes "known_ok app rs (foldl add_known [] rs)"
  shows "i \<in> set (knownVersionsFromRequests rs) \<longleftrightarrow> (\<exists>k. map_of (foldl add_known [] rs) k = Some i)"
proof -
  have "wf_alist (foldl add_known [] rs)" using assms by (simp add: known_ok_def)
  then show ?thesis by (auto simp: knownVersionsFromRequests_def map_of_eq_Some_iff) force
qed

lemma known_reached:
  assumes "known_ok app rs (foldl add_known [] rs)" and "r \<in> set rs" and "request_version r \<noteq> ''''"
  shows "\<exists>i \<in> set (knownVersionsFromRequests rs). rank_le (request_rank r) (installation_rank i)"
proof -
  obtain i where i: "map_of (foldl add_known [] rs) (known_version_key app (request_version r)) = Some i"
      "fst (request_rank r) \<le> in_UpdatedAt i"
    using assms unfolding known_ok_def by blast
  then obtain r' where "i = installationFromChangeRequest r'"
      "known_version_key app (request_version r') = known_version_key app (request_version r)"
    using assms(1) unfolding known_ok_def by metis
  then have "in_Version i = snd (request_rank r)"
    using installation_of_request(1) by (simp add: known_version_key_def request_rank_def)
  then have "rank_le (request_rank r) (installation_rank i)"
    using i(2) by (auto simp: rank_le_def installation_rank_def)
  then show ?thesis using i(1) set_known_versions [OF assms(1)] by blast
qed

text \<open>
  C32. The desired version of an app is the version of its newest change request: the latest by
  time in milliseconds and then by version, among the requests that name a version. It is empty
  exactly when no request names one.
\<close>

theorem desired_version_is_newest_request:
  assumes "\<forall>r \<in> set rs. TrimSpace (cr_App r) = app" and "app \<noteq> ''''"
  shows "if \<forall>r \<in> set rs. request_version r = ''''
    then LatestKnownVersion (knownVersionsFromRequests rs) = ''''
    else \<exists>r \<in> set rs. LatestKnownVersion (knownVersionsFromRequests rs) = request_version r \<and> request_version r \<noteq> '''' \<and>
      (\<forall>r' \<in> set rs. request_version r' \<noteq> '''' \<longrightarrow> rank_le (request_rank r') (request_rank r))"
proof -
  note ok = known_ok_all [OF assms]
  let ?K = "knownVersionsFromRequests rs"
  have origin: "\<exists>r \<in> set rs. i = installationFromChangeRequest r \<and> request_version r \<noteq> ''''" if "i \<in> set ?K" for i
    using that ok unfolding set_known_versions [OF ok] known_ok_def by blast
  have trim: "\<forall>i \<in> set ?K. TrimSpace (in_Version i) = in_Version i"
    using origin installation_of_request(1) by (fastforce simp: request_version_def)
  note reached = known_reached [OF ok]
  show ?thesis
  proof (cases ?K)
    case Nil
    then show ?thesis using reached by (auto simp: LatestKnownVersion_def LatestKnownInstallation_def)
  next
    case (Cons a "is")
    let ?m = "foldl later_installation a is"
    have m: "?m \<in> set ?K" "\<forall>i \<in> set ?K. rank_le (installation_rank i) (installation_rank ?m)"
      using latest_installation_max [of a "is"] trim Cons by simp_all
    obtain r where r: "r \<in> set rs" "?m = installationFromChangeRequest r" "request_version r \<noteq> ''''"
      using origin [OF m(1)] by blast
    have "LatestKnownVersion ?K = request_version r"
      using r(2) Cons installation_of_request(1) [of r]
      by (simp add: LatestKnownVersion_def LatestKnownInstallation_def request_version_def)
    moreover have "rank_le (request_rank r') (request_rank r)" if "r' \<in> set rs" "request_version r' \<noteq> ''''" for r'
      using reached [OF that] m(2) r(2) installation_of_request(2) rank_le_trans by metis
    ultimately show ?thesis using r(1,3) by auto
  qed
qed

theorem desired_version_is_newest_request_witness:
  "LatestKnownVersion (knownVersionsFromRequests
     [sample_request ''a'' ''v1'' (unix_epoch + 5000000), sample_request ''b'' ''v2'' unix_epoch]) = ''v1'' \<and>
   rank_le (request_rank (sample_request ''b'' ''v2'' unix_epoch)) (request_rank (sample_request ''a'' ''v1'' (unix_epoch + 5000000)))"
proof -
  let ?a = "sample_request ''a'' ''v1'' (unix_epoch + 5000000)" and ?b = "sample_request ''b'' ''v2'' unix_epoch"
  have v: "request_version ?a = ''v1''" "request_version ?b = ''v2''" "TrimSpace ''mail'' = ''mail''" by code_simp+
  have n: "\<not> rank_le (request_rank ?a) (request_rank ?b)" by code_simp
  have "\<exists>r \<in> set [?a, ?b]. LatestKnownVersion (knownVersionsFromRequests [?a, ?b]) = request_version r \<and>
      request_version r \<noteq> '''' \<and> (\<forall>r' \<in> set [?a, ?b]. request_version r' \<noteq> '''' \<longrightarrow> rank_le (request_rank r') (request_rank r))"
    using desired_version_is_newest_request [of "[?a, ?b]" "''mail''"] v by (simp add: sample_request_def [of _ _ _])
  then show ?thesis using v n by auto
qed

end
