(* ===== verification/Heartbeats.thy ===== *)
theory Heartbeats
  imports Change_Requests
begin

text \<open>
  Instance heartbeats, \<^verbatim>\<open>internal/coredata/gestaltd_instance_heartbeats.go\<close>: one row per instance with
  what it observes of each app, the listings by source version and by age, and the removal of old
  rows. A Go map of observations is an association list. When a function returns a count next to an
  error the count is dropped, as its only caller does.
\<close>

subsection \<open>Heartbeats and their records\<close>

datatype GestaltdInstanceAppState =
    GestaltdInstanceAppStateRunning
  | GestaltdInstanceAppStateStarting
  | GestaltdInstanceAppStateNotRunning
  | GestaltdInstanceAppStateError
  | GestaltdInstanceAppStateUnknown
  | OtherAppState string

definition app_state_names :: "(GestaltdInstanceAppState \<times> string) list" where
  "app_state_names =
     [(GestaltdInstanceAppStateRunning, ''running''), (GestaltdInstanceAppStateStarting, ''starting''),
      (GestaltdInstanceAppStateNotRunning, ''not_running''), (GestaltdInstanceAppStateError, ''error''),
      (GestaltdInstanceAppStateUnknown, ''unknown'')]"

definition app_state_string :: "GestaltdInstanceAppState \<Rightarrow> string" where
  "app_state_string st = (case st of OtherAppState s \<Rightarrow> s | _ \<Rightarrow> the (map_of app_state_names st))"

definition app_state_of_string :: "string \<Rightarrow> GestaltdInstanceAppState" where
  "app_state_of_string s =
     (case find (\<lambda>(_, t). t = s) app_state_names of Some (st, _) \<Rightarrow> st | None \<Rightarrow> OtherAppState s)"

record GestaltdInstanceAppHeartbeat =
  ah_State :: GestaltdInstanceAppState
  ah_DesiredVersion :: string
  ah_RunningVersion :: string
  ah_ObservedAt :: time
  ah_LastError :: string

record GestaltdInstanceHeartbeat =
  hb_InstanceID :: string
  hb_SourceVersion :: string
  hb_StartedAt :: time
  hb_HeartbeatAt :: time
  hb_Apps :: "(string \<times> GestaltdInstanceAppHeartbeat) list"

definition normalizedHeartbeatTime :: "time \<Rightarrow> time" where
  "normalizedHeartbeatTime t = truncate_ms t"

definition cloneHeartbeatApps ::
  "(string \<times> GestaltdInstanceAppHeartbeat) list \<Rightarrow> (string \<times> GestaltdInstanceAppHeartbeat) list" where
  "cloneHeartbeatApps apps =
     map (\<lambda>(app, observation).
       (app, observation\<lparr>ah_ObservedAt := normalizedHeartbeatTime (ah_ObservedAt observation)\<rparr>)) apps"

text \<open>The JSON object of an observation; the fields tagged \<^verbatim>\<open>omitempty\<close> are left out when empty.\<close>

definition observation_object :: "GestaltdInstanceAppHeartbeat \<Rightarrow> val" where
  "observation_object ob =
     VMap ([(''state'', VString (app_state_string (ah_State ob)))] @
       (if ah_DesiredVersion ob = '''' then [] else [(''desired_version'', VString (ah_DesiredVersion ob))]) @
       (if ah_RunningVersion ob = '''' then [] else [(''running_version'', VString (ah_RunningVersion ob))]) @
       [(''observed_at'', VTime (ah_ObservedAt ob))] @
       (if ah_LastError ob = '''' then [] else [(''last_error'', VString (ah_LastError ob))]))"

definition heartbeatAppsJSONValue :: "(string \<times> GestaltdInstanceAppHeartbeat) list \<Rightarrow> val" where
  "heartbeatAppsJSONValue apps =
     (case json_any (VMap (map (\<lambda>(app, ob). (app, observation_object ob)) apps)) of
        Some v \<Rightarrow> v
      | None \<Rightarrow> VMap [])"

definition heartbeat_record :: "GestaltdInstanceHeartbeat \<Rightarrow> rec" where
  "heartbeat_record normalized = [
     ''id'' \<mapsto> VString (hb_InstanceID normalized),
     ''instance_id'' \<mapsto> VString (hb_InstanceID normalized),
     ''source_version'' \<mapsto> VString (hb_SourceVersion normalized),
     ''started_at'' \<mapsto> VTime (hb_StartedAt normalized),
     ''heartbeat_at'' \<mapsto> VTime (hb_HeartbeatAt normalized),
     ''apps'' \<mapsto> heartbeatAppsJSONValue (hb_Apps normalized)]"

definition normalized_heartbeat :: "GestaltdInstanceHeartbeat \<Rightarrow> GestaltdInstanceHeartbeat" where
  "normalized_heartbeat h =
     \<lparr>hb_InstanceID = TrimSpace (hb_InstanceID h), hb_SourceVersion = TrimSpace (hb_SourceVersion h),
      hb_StartedAt = normalizedHeartbeatTime (hb_StartedAt h),
      hb_HeartbeatAt = normalizedHeartbeatTime (hb_HeartbeatAt h),
      hb_Apps = cloneHeartbeatApps (hb_Apps h)\<rparr>"

definition gestaltdInstanceHeartbeatRecord ::
  "GestaltdInstanceHeartbeat option \<Rightarrow> (rec \<times> GestaltdInstanceHeartbeat) result" where
  "gestaltdInstanceHeartbeatRecord heartbeat =
     (case heartbeat of
        None \<Rightarrow> Inl (Errorf ''record is required'')
      | Some h \<Rightarrow>
          (let normalized = normalized_heartbeat h
           in if hb_InstanceID normalized = '''' \<or> hb_SourceVersion normalized = ''''
              then Inl (Errorf ''instance id and source version are required'')
              else if hb_StartedAt h = 0 \<or> hb_HeartbeatAt h = 0
              then Inl (Errorf ''started at and heartbeat at are required'')
              else if hb_HeartbeatAt normalized < hb_StartedAt normalized
              then Inl (Errorf ''heartbeat at must not be before started at'')
              else Inr (heartbeat_record normalized, normalized)))"

text \<open>
  \<^verbatim>\<open>json.Unmarshal\<close> into the map of observations. A member of the wrong type leaves its field zero and
  decoding goes on; an instant that does not parse ends the decoding, keeping the entries before.
  Members are looked up under the field names the service writes.
\<close>

definition object_string :: "(string \<times> val) list \<Rightarrow> string \<Rightarrow> string" where
  "object_string members k = (case json_string members k of Some s \<Rightarrow> s | None \<Rightarrow> '''')"

definition observation_of :: "val \<Rightarrow> GestaltdInstanceAppHeartbeat option" where
  "observation_of v =
     (let members = (case v of VMap members \<Rightarrow> members | _ \<Rightarrow> [])
      in case json_time members ''observed_at'' of
           None \<Rightarrow> None
         | Some t \<Rightarrow> Some
             \<lparr>ah_State = app_state_of_string (object_string members ''state''),
              ah_DesiredVersion = object_string members ''desired_version'',
              ah_RunningVersion = object_string members ''running_version'',
              ah_ObservedAt = t,
              ah_LastError = object_string members ''last_error''\<rparr>)"

fun observations_of ::
  "(string \<times> val) list \<Rightarrow> (string \<times> GestaltdInstanceAppHeartbeat) list \<Rightarrow>
    (string \<times> GestaltdInstanceAppHeartbeat) list" where
  "observations_of [] apps = apps"
| "observations_of ((app, v) # members) apps =
     (case observation_of v of
        None \<Rightarrow> apps
      | Some ob \<Rightarrow> observations_of members (AList.update (json_text app) ob apps))"

definition recordToGestaltdInstanceHeartbeat ::
  "(string \<Rightarrow> (string \<times> val) list option) \<Rightarrow> rec \<Rightarrow> GestaltdInstanceHeartbeat" where
  "recordToGestaltdInstanceHeartbeat unmarshal rec =
     \<lparr>hb_InstanceID = recString rec ''instance_id'', hb_SourceVersion = recString rec ''source_version'',
      hb_StartedAt = recTime rec ''started_at'', hb_HeartbeatAt = recTime rec ''heartbeat_at'',
      hb_Apps = (case recAnyMap unmarshal rec ''apps'' of
          None \<Rightarrow> [] | Some members \<Rightarrow> observations_of members [])\<rparr>"

definition recordsToGestaltdInstanceHeartbeats where
  "recordsToGestaltdInstanceHeartbeats unmarshal recs = map (recordToGestaltdInstanceHeartbeat unmarshal) recs"

subsection \<open>Reading\<close>

definition GestaltdInstanceHeartbeatService_Get where
  "GestaltdInstanceHeartbeatService_Get unmarshal s instanceID d =
     (if \<not> s then (Inl (Errorf ''get gestaltd instance heartbeat: service is not configured''), d)
      else if TrimSpace instanceID = ''''
      then (Inl (Errorf ''get gestaltd instance heartbeat: instance id is required''), d)
      else
        (case store_Get StoreGestaltdInstanceHeartbeats (TrimSpace instanceID) d of
           (Inl err, d) \<Rightarrow>
             (Inl (if errors_is err ErrNotFound_idb then ErrNotFound
                else Wrapf ''get gestaltd instance heartbeat'' err), d)
         | (Inr rec, d) \<Rightarrow> (Inr (recordToGestaltdInstanceHeartbeat unmarshal rec), d)))"

definition GestaltdInstanceHeartbeatService_List where
  "GestaltdInstanceHeartbeatService_List unmarshal s d =
     (if \<not> s then (Inl (Errorf ''list gestaltd instance heartbeats: service is not configured''), d)
      else
        (case store_GetAll StoreGestaltdInstanceHeartbeats QAll 0 d of
           (Inl err, d) \<Rightarrow> (Inl (Wrapf ''list gestaltd instance heartbeats'' err), d)
         | (Inr recs, d) \<Rightarrow> (Inr (recordsToGestaltdInstanceHeartbeats unmarshal recs), d)))"

definition GestaltdInstanceHeartbeatService_ListBySourceVersion where
  "GestaltdInstanceHeartbeatService_ListBySourceVersion unmarshal s sourceVersion d =
     (if \<not> s
      then (Inl (Errorf ''list gestaltd instance heartbeats by source version: service is not configured''), d)
      else if TrimSpace sourceVersion = ''''
      then (Inl (Errorf ''list gestaltd instance heartbeats by source version: source version is required''), d)
      else
        (case index_GetAll StoreGestaltdInstanceHeartbeats [''source_version'']
            (QKey (KString (TrimSpace sourceVersion))) d of
           (Inl err, d) \<Rightarrow> (Inl (Wrapf ''list gestaltd instance heartbeats by source version'' err), d)
         | (Inr recs, d) \<Rightarrow> (Inr (recordsToGestaltdInstanceHeartbeats unmarshal recs), d)))"

definition GestaltdInstanceHeartbeatService_ListFreshBySourceVersion where
  "GestaltdInstanceHeartbeatService_ListFreshBySourceVersion unmarshal s sourceVersion cutoff d =
     (let sv = TrimSpace sourceVersion
      in if \<not> s then (Inl (Errorf ''list fresh gestaltd instance heartbeats: service is not configured''), d)
         else if sv = ''''
         then (Inl (Errorf ''list fresh gestaltd instance heartbeats: source version is required''), d)
         else
           (case index_GetAll StoreGestaltdInstanceHeartbeats [''source_version'', ''heartbeat_at'']
               (Bound (KArray [KString sv, KDate cutoff]) (KArray [KString sv, KDate indexedDBMaxTime])
                 False False) d of
              (Inl err, d) \<Rightarrow> (Inl (Wrapf ''list fresh gestaltd instance heartbeats'' err), d)
            | (Inr recs, d) \<Rightarrow> (Inr (recordsToGestaltdInstanceHeartbeats unmarshal recs), d)))"

subsection \<open>Writing\<close>

definition GestaltdInstanceHeartbeatService_Upsert ::
  "bool \<Rightarrow> GestaltdInstanceHeartbeat option \<Rightarrow> db \<Rightarrow> GestaltdInstanceHeartbeat result \<times> db" where
  "GestaltdInstanceHeartbeatService_Upsert s heartbeat d =
     (if \<not> s then (Inl (Errorf ''upsert gestaltd instance heartbeat: service is not configured''), d)
      else
        (case gestaltdInstanceHeartbeatRecord heartbeat of
           Inl err \<Rightarrow> (Inl (Wrapf ''upsert gestaltd instance heartbeat'' err), d)
         | Inr (rec, normalized) \<Rightarrow>
             (case store_Put StoreGestaltdInstanceHeartbeats rec d of
                (Inl err, d) \<Rightarrow> (Inl (Wrapf ''upsert gestaltd instance heartbeat'' err), d)
              | (Inr _, d) \<Rightarrow> (Inr normalized, d))))"

definition GestaltdInstanceHeartbeatService_Delete :: "bool \<Rightarrow> string \<Rightarrow> db \<Rightarrow> unit result \<times> db" where
  "GestaltdInstanceHeartbeatService_Delete s instanceID d =
     (if \<not> s then (Inl (Errorf ''delete gestaltd instance heartbeat: service is not configured''), d)
      else if TrimSpace instanceID = ''''
      then (Inl (Errorf ''delete gestaltd instance heartbeat: instance id is required''), d)
      else
        (case store_Delete StoreGestaltdInstanceHeartbeats (TrimSpace instanceID) d of
           (Inl err, d) \<Rightarrow> (Inl (Wrapf ''delete gestaltd instance heartbeat'' err), d)
         | (Inr _, d) \<Rightarrow> (Inr (), d)))"

fun prune_heartbeats :: "rec list \<Rightarrow> int \<Rightarrow> db \<Rightarrow> int result \<times> db" where
  "prune_heartbeats [] pruned d = (Inr pruned, d)"
| "prune_heartbeats (rec # recs) pruned d =
     (let instanceID = recString rec ''instance_id''
      in if instanceID = '''' then prune_heartbeats recs pruned d
         else
           (case store_Delete StoreGestaltdInstanceHeartbeats instanceID d of
              (Inl err, d) \<Rightarrow>
                (if errors_is err ErrNotFound_idb then prune_heartbeats recs (pruned + 1) d
                 else (Inl (Wrapf ''prune gestaltd instance heartbeats: delete %q'' err), d))
            | (Inr _, d) \<Rightarrow> prune_heartbeats recs (pruned + 1) d))"

definition prune_body :: "time \<Rightarrow> db \<Rightarrow> int tx_end \<times> db" where
  "prune_body cutoff d =
     (case index_GetAll StoreGestaltdInstanceHeartbeats [''heartbeat_at''] (UpperBound (KDate cutoff) True) d of
        (Inl err, d) \<Rightarrow> (TxFail (Wrapf ''prune gestaltd instance heartbeats: list expired rows'' err), d)
      | (Inr recs, d) \<Rightarrow>
          (case prune_heartbeats recs 0 d of
             (Inl err, d) \<Rightarrow> (TxFail err, d)
           | (Inr pruned, d) \<Rightarrow> (TxCommit ''prune gestaltd instance heartbeats: commit'' pruned, d)))"

definition GestaltdInstanceHeartbeatService_PruneBefore :: "bool \<Rightarrow> time \<Rightarrow> db \<Rightarrow> int result \<times> db" where
  "GestaltdInstanceHeartbeatService_PruneBefore s cutoff d =
     (if \<not> s then (Inl (Errorf ''prune gestaltd instance heartbeats: service is not configured''), d)
      else with_tx ''prune gestaltd instance heartbeats: begin transaction'' (prune_body cutoff) d)"

subsection \<open>The rows as heartbeats\<close>

definition heartbeat_row :: "string \<Rightarrow> rec \<Rightarrow> bool" where
  "heartbeat_row k r \<longleftrightarrow> k \<noteq> '''' \<and> r ''instance_id'' = Some (VString k) \<and>
     (\<exists>v. r ''source_version'' = Some (VString v)) \<and>
     (\<exists>t. r ''heartbeat_at'' = Some (VTime t) \<and> storable_time t)"

definition heartbeat_rows_ok :: "contents \<Rightarrow> bool" where
  "heartbeat_rows_ok c \<longleftrightarrow> wf_alist (c StoreGestaltdInstanceHeartbeats) \<and>
     (\<forall>(k, r) \<in> set (c StoreGestaltdInstanceHeartbeats). heartbeat_row k r)"

lemma storable_time_range:
  assumes "storable_time t"
  shows "unix_epoch - 2 ^ 63 \<le> t" "t < unix_epoch + 2 ^ 63"
  using assms max_time_range by (simp_all add: storable_time_def)

lemma compareDates_storable:
  assumes "storable_time t" and "storable_time u"
  shows "compareDates t u < 0 \<longleftrightarrow> t < u" "compareDates t u \<le> 0 \<longleftrightarrow> t \<le> u" "0 \<le> compareDates t u \<longleftrightarrow> u \<le> t"
    "compareDates t u = 0 \<longleftrightarrow> t = u"
proof -
  have "UnixNano x = x - unix_epoch" if "storable_time x" for x
    using storable_time_range [OF that] by (simp add: UnixNano_def wrap64_def)
  then show "compareDates t u < 0 \<longleftrightarrow> t < u" "compareDates t u \<le> 0 \<longleftrightarrow> t \<le> u" "0 \<le> compareDates t u \<longleftrightarrow> u \<le> t"
    "compareDates t u = 0 \<longleftrightarrow> t = u"
    using assms by (auto simp: compareDates_def sign_def)
qed

lemma stale_match:
  assumes "heartbeat_row k r" and "storable_time cutoff"
  shows "(\<exists>ik. index_key [''heartbeat_at''] r = Some ik \<and> MatchQuery ik (UpperBound (KDate cutoff) True)) \<longleftrightarrow>
    recTime r ''heartbeat_at'' < cutoff"
proof -
  obtain t where t: "r ''heartbeat_at'' = Some (VTime t)" "storable_time t"
    using assms(1) by (auto simp: heartbeat_row_def)
  have "index_key [''heartbeat_at''] r = Some (KDate t)"
    using t by (simp add: index_key_def recordHasIndexKey_def)
  then show ?thesis
    using t compareDates_storable(1) [OF t(2) assms(2)]
    by (simp add: UpperBound_def KeyInRange_def recTime_def)
qed

lemma fresh_match:
  assumes "heartbeat_row k r" and "storable_time cutoff"
  shows "(\<exists>ik. index_key [''source_version'', ''heartbeat_at''] r = Some ik \<and>
      MatchQuery ik (Bound (KArray [KString sv, KDate cutoff]) (KArray [KString sv, KDate indexedDBMaxTime])
        False False)) \<longleftrightarrow>
    utf16 (recString r ''source_version'') = utf16 sv \<and> cutoff \<le> recTime r ''heartbeat_at''"
proof -
  obtain v t where f: "r ''source_version'' = Some (VString v)" "r ''heartbeat_at'' = Some (VTime t)"
      "storable_time t"
    using assms(1) by (auto simp: heartbeat_row_def)
  have ik: "index_key [''source_version'', ''heartbeat_at''] r = Some (KArray [KString v, KDate t])"
    using f by (simp add: index_key_def recordHasIndexKey_def)
  have m: "compareDates t indexedDBMaxTime \<le> 0"
    using compareDates_le [of t indexedDBMaxTime] max_time_range storable_time_range [OF f(3)] f(3)
    by (simp add: storable_time_def)
  show ?thesis
    using compare_strings_eq [of v sv] f m compareDates_storable(3) [OF f(3) assms(2)]
      CompareKeys_swap [of "KString v" "KString sv"]
    by (auto simp: ik Bound_def KeyInRange_def recString_def recTime_def Let_def split: if_splits)
qed

subsection \<open>Pruning\<close>

lemma prune_heartbeats_effect:
  assumes "prune_heartbeats recs p d = (Inr q, d')" and "honest_failures d"
    and "\<And>r. r \<in> set recs \<Longrightarrow> recString r ''instance_id'' \<noteq> ''''"
  shows "q = p + int (length recs) \<and>
    db_rows d' = fold (row_delete StoreGestaltdInstanceHeartbeats) (map (\<lambda>r. recString r ''instance_id'') recs)
      (db_rows d)"
  using assms
proof (induction recs arbitrary: p d)
  case (Cons r recs)
  obtain y d1 where y: "store_Delete StoreGestaltdInstanceHeartbeats (recString r ''instance_id'') d = (y, d1)"
    by fastforce
  obtain u where u: "y = Inr u"
    using Cons.prems y store_Delete_honest(2) [OF Cons.prems(2) y]
    by (cases y) (auto simp: Let_def split: if_splits)
  then have "prune_heartbeats recs (p + 1) d1 = (Inr q, d')"
    using Cons.prems y by (simp add: Let_def)
  from Cons.IH [OF this store_Delete_honest(1) [OF Cons.prems(2) y]] show ?case
    using Cons.prems(3) write_rows(3) [OF y] u by simp
qed simp

definition stale :: "time \<Rightarrow> string \<times> rec \<Rightarrow> bool" where
  "stale cutoff row \<longleftrightarrow> recTime (snd row) ''heartbeat_at'' < cutoff"

definition without_stale :: "time \<Rightarrow> contents \<Rightarrow> contents" where
  "without_stale cutoff c =
     c(StoreGestaltdInstanceHeartbeats := filter (\<lambda>row. \<not> stale cutoff row) (c StoreGestaltdInstanceHeartbeats))"

lemma stale_rows:
  assumes "heartbeat_rows_ok c" and "storable_time cutoff"
  defines "recs \<equiv> rows_index_GetAll (c StoreGestaltdInstanceHeartbeats) [''heartbeat_at'']
    (UpperBound (KDate cutoff) True)"
  shows "length recs = length (filter (stale cutoff) (c StoreGestaltdInstanceHeartbeats))"
    and "r \<in> set recs \<Longrightarrow> recString r ''instance_id'' \<noteq> ''''"
    and "fold (row_delete StoreGestaltdInstanceHeartbeats) (map (\<lambda>r. recString r ''instance_id'') recs) c =
      without_stale cutoff c"
proof -
  let ?rows = "c StoreGestaltdInstanceHeartbeats"
  have ok: "wf_alist ?rows" "\<And>k r. (k, r) \<in> set ?rows \<Longrightarrow> heartbeat_row k r"
    using assms(1) by (auto simp: heartbeat_rows_ok_def)
  have key: "recString r ''instance_id'' = k \<and> k \<noteq> ''''" if "(k, r) \<in> set ?rows" for k r
    using ok(2) [OF that] by (simp add: heartbeat_row_def recString_def)
  have mem: "r \<in> set recs \<longleftrightarrow> (\<exists>k. (k, r) \<in> set ?rows \<and> stale cutoff (k, r))" for r
    unfolding recs_def set_rows_index_GetAll using stale_match [OF ok(2) assms(2)]
    by (auto simp: stale_def)
  have "filter (\<lambda>(k, r). \<exists>ik. index_key [''heartbeat_at''] r = Some ik \<and>
      MatchQuery ik (UpperBound (KDate cutoff) True)) ?rows = filter (stale cutoff) ?rows"
  proof (intro filter_cong refl)
    fix x assume "x \<in> set ?rows"
    then show "(case x of (k, r) \<Rightarrow> \<exists>ik. index_key [''heartbeat_at''] r = Some ik \<and>
        MatchQuery ik (UpperBound (KDate cutoff) True)) = stale cutoff x"
      using stale_match [OF ok(2) assms(2), of "fst x" "snd x"] by (simp add: stale_def split_def)
  qed
  then show "length recs = length (filter (stale cutoff) ?rows)"
    unfolding recs_def length_index_rows by simp
  show "r \<in> set recs \<Longrightarrow> recString r ''instance_id'' \<noteq> ''''"
    using mem key by blast
  have "k \<in> (\<lambda>r. recString r ''instance_id'') ` set recs \<longleftrightarrow> stale cutoff (k, r)" if "(k, r) \<in> set ?rows" for k r
  proof
    assume "k \<in> (\<lambda>r. recString r ''instance_id'') ` set recs"
    then obtain r' where "(k, r') \<in> set ?rows" "stale cutoff (k, r')" using mem key by blast
    then show "stale cutoff (k, r)" using that ok(1) by (metis eq_key_imp_eq_value)
  next
    assume "stale cutoff (k, r)"
    then show "k \<in> (\<lambda>r. recString r ''instance_id'') ` set recs" using that mem key by blast
  qed
  then show "fold (row_delete StoreGestaltdInstanceHeartbeats) (map (\<lambda>r. recString r ''instance_id'') recs) c =
      without_stale cutoff c"
    by (auto simp: row_deletes without_stale_def intro!: arg_cong [where f = "fun_upd c _"] filter_cong)
qed

lemma prune_body_commit:
  assumes "prune_body cutoff d = (TxCommit m n, d')" and "honest_failures d"
    and "heartbeat_rows_ok (db_rows d)" and "storable_time cutoff"
  shows "n = int (length (filter (stale cutoff) (db_rows d StoreGestaltdInstanceHeartbeats))) \<and>
    db_rows d' = without_stale cutoff (db_rows d)"
proof -
  obtain g d1 where g: "index_GetAll StoreGestaltdInstanceHeartbeats [''heartbeat_at'']
      (UpperBound (KDate cutoff) True) d = (g, d1)" by fastforce
  then obtain recs where recs: "g = Inr recs" using assms(1) by (cases g) (simp_all add: prune_body_def)
  obtain x d2 where x: "prune_heartbeats recs 0 d1 = (x, d2)" by fastforce
  then have e: "prune_heartbeats recs 0 d1 = (Inr n, d')"
    using assms(1) g recs by (cases x) (auto simp: prune_body_def)
  have r: "recs = rows_index_GetAll (db_rows d StoreGestaltdInstanceHeartbeats) [''heartbeat_at'']
      (UpperBound (KDate cutoff) True)"
    using index_GetAll_Inr g recs by simp
  have "honest_failures d1" using assms(2) store_op_fail(3) [OF g] by (simp add: honest_failures_def)
  from prune_heartbeats_effect [OF e this] show ?thesis
    using stale_rows [OF assms(3,4)] read_rows(3) [OF g] unfolding r by simp
qed

subsection \<open>A stored heartbeat reads back\<close>

text \<open>
  The observations of a heartbeat that JSON keeps: valid ASCII text, instants in the years 0 to
  9999. Keys are listed in order, so that a map has one such list.
\<close>

definition storable_observation :: "GestaltdInstanceAppHeartbeat \<Rightarrow> bool" where
  "storable_observation ob \<longleftrightarrow> app_state_of_string (app_state_string (ah_State ob)) = ah_State ob \<and>
     ascii (app_state_string (ah_State ob)) \<and> ascii (ah_DesiredVersion ob) \<and> ascii (ah_RunningVersion ob) \<and>
     ascii (ah_LastError ob) \<and> four_digit_year (ah_ObservedAt ob)"

definition storable_apps :: "(string \<times> GestaltdInstanceAppHeartbeat) list \<Rightarrow> bool" where
  "storable_apps apps \<longleftrightarrow> sorted_wrt by_key apps \<and>
     (\<forall>(app, ob) \<in> set apps. ascii app \<and> storable_observation ob)"

definition stored_text :: "val \<Rightarrow> val" where
  "stored_text v = (case v of VTime t \<Rightarrow> VString (format_RFC3339Nano t) | _ \<Rightarrow> v)"

definition observation_members :: "GestaltdInstanceAppHeartbeat \<Rightarrow> (string \<times> val) list" where
  "observation_members ob = (case observation_object ob of VMap m \<Rightarrow> m | _ \<Rightarrow> [])"

lemma observation_members:
  assumes "storable_observation ob"
  shows "observation_object ob = VMap (observation_members ob)" and "wf_alist (observation_members ob)"
    and "\<forall>k \<in> fst ` set (observation_members ob). ascii k"
    and "(k, v) \<in> set (observation_members ob) \<Longrightarrow> json_any v = Some (stored_text v)"
    and "(k, v) \<in> set (observation_members ob) \<Longrightarrow> json_any (stored_text v) = Some (stored_text v)"
  using assms ascii_RFC3339Nano
  by (auto simp: observation_members_def observation_object_def storable_observation_def stored_text_def
      ascii_def split: if_splits)

definition stored_members :: "GestaltdInstanceAppHeartbeat \<Rightarrow> (string \<times> val) list" where
  "stored_members ob = map (\<lambda>(k, v). (k, stored_text v)) (sort_by by_key (observation_members ob))"

lemma map_of_stored_members:
  assumes "storable_observation ob"
  shows "map_of (stored_members ob) k = map_option stored_text (map_of (observation_members ob) k)"
  using observation_members(2) [OF assms] by (simp add: stored_members_def map_of_map)

lemma json_any_observation:
  assumes "storable_observation ob"
  shows "json_any (observation_object ob) = Some (VMap (stored_members ob))"
    and "\<exists>m. json_any (VMap (stored_members ob)) = Some (VMap m) \<and> map_of m = map_of (stored_members ob)"
proof -
  note om = observation_members [OF assms]
  show "json_any (observation_object ob) = Some (VMap (stored_members ob))"
    using json_any_object [OF om(2,3,4)] om(1) by (simp only: stored_members_def)
  have fst: "map fst (stored_members ob) = map fst (sort_by by_key (observation_members ob))"
    by (simp add: stored_members_def split_def comp_def)
  then have wf: "wf_alist (stored_members ob)" using om(2) by simp
  have asc: "\<forall>k \<in> fst ` set (stored_members ob). ascii k"
    using om(3) arg_cong [OF fst, of set] by simp
  have "json_any (VMap (stored_members ob)) = Some (VMap (map (\<lambda>(k, v). (k, v)) (sort_by by_key (stored_members ob))))"
    by (rule json_any_object [OF wf asc]) (use om(5) in \<open>auto simp: stored_members_def\<close>)
  then show "\<exists>m. json_any (VMap (stored_members ob)) = Some (VMap m) \<and> map_of m = map_of (stored_members ob)"
    using wf by (auto simp: split_def)
qed

lemma observation_of_members:
  assumes "storable_observation ob" and "map_of m = map_of (stored_members ob)"
  shows "observation_of (VMap m) = Some ob"
proof -
  have m: "map_of m k = map_option stored_text (map_of (observation_members ob) k)" for k
    using assms map_of_stored_members by simp
  have "json_string m ''state'' = Some (app_state_string (ah_State ob))"
    "json_string m ''desired_version'' = Some (ah_DesiredVersion ob)"
    "json_string m ''running_version'' = Some (ah_RunningVersion ob)"
    "json_string m ''last_error'' = Some (ah_LastError ob)"
    "json_time m ''observed_at'' = Some (ah_ObservedAt ob)"
    using assms(1) by (simp_all add: json_string_def json_time_def m observation_members_def
        observation_object_def stored_text_def storable_observation_def parse_format_RFC3339Nano)
  then show ?thesis
    using assms(1) by (cases ob) (simp add: observation_of_def object_string_def storable_observation_def)
qed

lemma observations_of_stored:
  assumes "\<forall>(app, ob) \<in> set apps. ascii app \<and> storable_observation ob" and "distinct (map fst acc @ map fst apps)"
    and "\<And>ob. storable_observation ob \<Longrightarrow> observation_of (again ob) = Some ob"
  shows "observations_of (map (\<lambda>(app, ob). (app, again ob)) apps) acc = acc @ apps"
  using assms(1,2)
proof (induction apps arbitrary: acc)
  case (Cons x apps)
  obtain app ob where x: "x = (app, ob)" by (cases x)
  have "AList.update app ob acc = acc @ [(app, ob)]"
    using Cons.prems(2) x by (intro update_fresh) (auto simp: map_of_eq_None_iff)
  then show ?case using Cons.IH [of "acc @ [(app, ob)]"] Cons.prems x assms(3) by simp
qed simp

definition storable_heartbeat :: "GestaltdInstanceHeartbeat \<Rightarrow> bool" where
  "storable_heartbeat h \<longleftrightarrow> storable_apps (hb_Apps h)"

lemma sorted_by_key_distinct: "sorted_wrt by_key m \<Longrightarrow> distinct (map fst m)"
  by (induction m) (auto simp: by_key_def)

lemma sorted_by_key_map: "sorted_wrt by_key m \<Longrightarrow> sorted_wrt by_key (map (\<lambda>(k, v). (k, f v)) m)"
  by (induction m) (auto simp: by_key_def)

lemma stored_apps:
  assumes "storable_apps apps"
  shows "heartbeatAppsJSONValue apps = VMap (map (\<lambda>(app, ob). (app, VMap (stored_members ob))) apps)"
    and "\<exists>m. json_any (heartbeatAppsJSONValue apps) = Some (VMap m) \<and> observations_of m [] = apps"
proof -
  have srt: "sorted_wrt by_key apps" and ok: "\<forall>(app, ob) \<in> set apps. ascii app \<and> storable_observation ob"
    using assms by (auto simp: storable_apps_def)
  note dist = sorted_by_key_distinct [OF srt]
  let ?obj = "\<lambda>f. map (\<lambda>(app, ob). (app, f ob)) apps"
  have fst: "map fst (?obj f) = map fst apps" for f :: "_ \<Rightarrow> val" by (simp add: split_def comp_def)
  have asc: "\<forall>k \<in> fst ` set (?obj f). ascii k" for f :: "_ \<Rightarrow> val" using ok by auto
  have step: "json_any (VMap (?obj f)) = Some (VMap (?obj g))"
    if "\<And>ob. storable_observation ob \<Longrightarrow> json_any (f ob) = Some (g ob)" for f g
  proof -
    have "json_any (VMap (?obj f)) = Some (VMap (map (\<lambda>(k, v). (k, the (json_any v))) (sort_by by_key (?obj f))))"
      by (rule json_any_object) (use dist fst asc ok that in \<open>auto simp del: map_map\<close>)
    also have "sort_by by_key (?obj f) = ?obj f" by (rule sort_by_sorted [OF sorted_by_key_map [OF srt]])
    also have "map (\<lambda>(k, v). (k, the (json_any v))) (?obj f) = ?obj g" using ok that by auto
    finally show ?thesis .
  qed
  show h: "heartbeatAppsJSONValue apps = VMap (?obj (\<lambda>ob. VMap (stored_members ob)))"
    unfolding heartbeatAppsJSONValue_def by (simp only: step [OF json_any_observation(1)] option.case)
  define again where "again ob = the (json_any (VMap (stored_members ob)))" for ob
  have again: "json_any (VMap (stored_members ob)) = Some (again ob)" "observation_of (again ob) = Some ob"
    if "storable_observation ob" for ob
    using json_any_observation(2) [OF that] observation_of_members [OF that]
    by (auto simp: again_def simp del: json_any.simps)
  have "json_any (heartbeatAppsJSONValue apps) = Some (VMap (?obj again))"
    unfolding h by (rule step) (rule again(1))
  moreover have "observations_of (?obj again) [] = [] @ apps"
    by (rule observations_of_stored [OF ok]) (use dist again(2) in simp_all)
  ultimately show "\<exists>m. json_any (heartbeatAppsJSONValue apps) = Some (VMap m) \<and> observations_of m [] = apps"
    by simp
qed

interpretation heartbeat_codec: row_codec StoreGestaltdInstanceHeartbeats hb_InstanceID heartbeat_record
    "recordToGestaltdInstanceHeartbeat unmarshal" storable_heartbeat for unmarshal
proof unfold_locales
  fix h assume "storable_heartbeat h"
  then have apps: "storable_apps (hb_Apps h)" by (simp add: storable_heartbeat_def)
  obtain m where m: "json_any (heartbeatAppsJSONValue (hb_Apps h)) = Some (VMap m)" "observations_of m [] = hb_Apps h"
    using stored_apps(2) [OF apps] by blast
  have "recAnyMap unmarshal (heartbeat_record h) ''apps'' = Some m"
    using m(1) stored_apps(1) [OF apps] by (simp add: recAnyMap_def heartbeat_record_def del: json_any.simps)
  then show "recordToGestaltdInstanceHeartbeat unmarshal (heartbeat_record h) = h"
    using m(2) by (cases h) (simp add: recordToGestaltdInstanceHeartbeat_def heartbeat_record_def recString_def
        recTime_def)
qed (simp add: heartbeat_record_def)

subsection \<open>Properties\<close>

lemma PruneBefore_rows:
  assumes "GestaltdInstanceHeartbeatService_PruneBefore s cutoff d = (Inr n, d')" and "honest_failures d"
    and "heartbeat_rows_ok (db_rows d)" and "storable_time cutoff"
  shows "n = int (length (filter (stale cutoff) (db_rows d StoreGestaltdInstanceHeartbeats))) \<and>
    db_rows d' = without_stale cutoff (db_rows d)"
proof -
  have tx: "with_tx ''prune gestaltd instance heartbeats: begin transaction'' (prune_body cutoff) d = (Inr n, d')"
    using assms(1) by (simp add: GestaltdInstanceHeartbeatService_PruneBefore_def split: if_splits)
  have no_return: "prune_body cutoff d1 \<noteq> (TxReturn n, d2)" for d1 d2
    by (auto simp: prune_body_def split: prod.splits sum.splits)
  from tx show ?thesis
  proof (cases rule: with_tx_Inr)
    case (commit d1 d2 msg)
    have "honest_failures d1" using assms(2) commit(2) by (simp add: honest_failures_def)
    from prune_body_commit [OF commit(3) this _ assms(4)] assms(3) show ?thesis
      using db_rows_stores [OF commit(1)] db_rows_stores [OF commit(4)] by simp
  qed (simp add: no_return)
qed

lemma prune_heartbeats_healthy:
  "db_healthy d \<Longrightarrow> \<exists>n d'. prune_heartbeats recs p d = (Inr n, d') \<and> db_healthy d'"
  by (induction recs arbitrary: p d) (simp_all add: healthy_store Let_def)

lemma PruneBefore_healthy:
  assumes "db_healthy d"
  shows "\<exists>n d'. GestaltdInstanceHeartbeatService_PruneBefore True cutoff d = (Inr n, d') \<and> db_healthy d'"
proof -
  let ?d = "d\<lparr>db_tick := Suc (db_tick d)\<rparr>"
  obtain n d' where "prune_body cutoff ?d = (TxCommit ''prune gestaltd instance heartbeats: commit'' n, d')"
    and "db_healthy d'"
    using assms prune_heartbeats_healthy [of "d\<lparr>db_tick := Suc (Suc (db_tick d))\<rparr>"
      "rows_index_GetAll (db_rows d StoreGestaltdInstanceHeartbeats) [''heartbeat_at''] (UpperBound (KDate cutoff) True)" 0]
    by (auto simp: prune_body_def healthy_store)
  from with_tx_healthy [where body = "prune_body cutoff", OF assms this] this(2) show ?thesis
    by (simp add: GestaltdInstanceHeartbeatService_PruneBefore_def)
qed

definition sample_heartbeat :: "string \<Rightarrow> time \<Rightarrow> GestaltdInstanceHeartbeat" where
  "sample_heartbeat i t =
     \<lparr>hb_InstanceID = i, hb_SourceVersion = ''s1'', hb_StartedAt = unix_epoch, hb_HeartbeatAt = t,
      hb_Apps = [(''mail'', \<lparr>ah_State = GestaltdInstanceAppStateRunning, ah_DesiredVersion = '''',
        ah_RunningVersion = ''v1'', ah_ObservedAt = unix_epoch, ah_LastError = ''''\<rparr>)]\<rparr>"

definition heartbeat_db :: db where
  "heartbeat_db = set_rows StoreGestaltdInstanceHeartbeats
     (map (\<lambda>(i, t). (i, heartbeat_record (sample_heartbeat i t)))
       [(''old'', unix_epoch), (''new'', unix_epoch + 60000000000)]) empty_db"

lemma heartbeat_db:
  "db_healthy heartbeat_db" "heartbeat_rows_ok (db_rows heartbeat_db)"
  "storable_time (unix_epoch + 30000000000)"
proof -
  have t: "storable_time unix_epoch" "storable_time (unix_epoch + 60000000000)" by code_simp+
  then show "heartbeat_rows_ok (db_rows heartbeat_db)"
    by (simp add: heartbeat_db_def heartbeat_rows_ok_def heartbeat_row_def heartbeat_record_def sample_heartbeat_def)
  show "storable_time (unix_epoch + 30000000000)" by code_simp
qed (simp add: heartbeat_db_def)

lemma ListFresh_set:
  assumes "GestaltdInstanceHeartbeatService_ListFreshBySourceVersion unmarshal s sv cutoff d = (Inr hs, d')"
    and "heartbeat_rows_ok (db_rows d)" and "storable_time cutoff"
  shows "set hs = {recordToGestaltdInstanceHeartbeat unmarshal r | k r.
      (k, r) \<in> set (db_rows d StoreGestaltdInstanceHeartbeats) \<and>
      utf16 (recString r ''source_version'') = utf16 (TrimSpace sv) \<and> cutoff \<le> recTime r ''heartbeat_at''}"
proof -
  let ?rows = "db_rows d StoreGestaltdInstanceHeartbeats"
  let ?q = "Bound (KArray [KString (TrimSpace sv), KDate cutoff])
    (KArray [KString (TrimSpace sv), KDate indexedDBMaxTime]) False False"
  obtain g d1 where g: "index_GetAll StoreGestaltdInstanceHeartbeats [''source_version'', ''heartbeat_at''] ?q d = (g, d1)"
    by fastforce
  then obtain recs where "g = Inr recs" and hs: "hs = map (recordToGestaltdInstanceHeartbeat unmarshal) recs"
    using assms(1) by (cases g) (auto simp: GestaltdInstanceHeartbeatService_ListFreshBySourceVersion_def Let_def
        recordsToGestaltdInstanceHeartbeats_def split: if_splits)
  then have recs: "recs = rows_index_GetAll ?rows [''source_version'', ''heartbeat_at''] ?q"
    using index_GetAll_Inr g by simp
  have row: "heartbeat_row k r" if "(k, r) \<in> set ?rows" for k r
    using assms(2) that by (auto simp: heartbeat_rows_ok_def)
  have "set recs = {r. \<exists>k. (k, r) \<in> set ?rows \<and>
      utf16 (recString r ''source_version'') = utf16 (TrimSpace sv) \<and> cutoff \<le> recTime r ''heartbeat_at''}"
    unfolding recs set_rows_index_GetAll using fresh_match [OF row assms(3), where sv = "TrimSpace sv"] by blast
  then show ?thesis unfolding hs by auto
qed

text \<open>
  C24. Pruning heartbeats is exact and all or nothing. A call that fails leaves every store as it
  was. A call that succeeds removes precisely the heartbeats older than the cutoff, keeps every
  other row of every store, and returns how many it removed, on a provider that reports a row as
  missing only when it is.
\<close>

theorem prune_removes_exactly_stale:
  assumes "GestaltdInstanceHeartbeatService_PruneBefore s cutoff d = (x, d')" and "honest_failures d"
    and "heartbeat_rows_ok (db_rows d)" and "storable_time cutoff"
  shows "case x of
      Inl e \<Rightarrow> db_rows d' = db_rows d
    | Inr n \<Rightarrow> n = int (length (filter (stale cutoff) (db_rows d StoreGestaltdInstanceHeartbeats))) \<and>
        db_rows d' = without_stale cutoff (db_rows d)"
proof (cases x)
  case (Inl e)
  then show ?thesis
    using assms(1) by (auto simp: GestaltdInstanceHeartbeatService_PruneBefore_def dest: with_tx_error split: if_splits)
next
  case (Inr n)
  then show ?thesis using PruneBefore_rows [OF _ assms(2-4)] assms(1) by auto
qed

theorem prune_removes_exactly_stale_witness:
  "\<exists>d'. GestaltdInstanceHeartbeatService_PruneBefore True (unix_epoch + 30000000000) heartbeat_db = (Inr 1, d') \<and>
     map fst (db_rows d' StoreGestaltdInstanceHeartbeats) = [''new'']"
proof -
  obtain n d' where p: "GestaltdInstanceHeartbeatService_PruneBefore True (unix_epoch + 30000000000) heartbeat_db =
      (Inr n, d')"
    using PruneBefore_healthy [OF heartbeat_db(1)] by blast
  from prune_removes_exactly_stale [OF p healthy_honest [OF heartbeat_db(1)] heartbeat_db(2,3)] p show ?thesis
    by (simp add: heartbeat_db_def stale_def without_stale_def heartbeat_record_def sample_heartbeat_def recTime_def)
qed

text \<open>
  The fresh heartbeats of a source version are exactly the stored ones of that version that
  are not older than the cutoff, and pruning with the same cutoff first does not change which they
  are: nothing that counts as live is ever pruned.
\<close>

theorem fresh_listing_survives_pruning:
  assumes "GestaltdInstanceHeartbeatService_PruneBefore s cutoff d = (Inr n, d1)" and "honest_failures d"
    and "heartbeat_rows_ok (db_rows d)" and "storable_time cutoff"
    and "GestaltdInstanceHeartbeatService_ListFreshBySourceVersion unmarshal s sv cutoff d = (Inr before, d2)"
    and "GestaltdInstanceHeartbeatService_ListFreshBySourceVersion unmarshal s sv cutoff d1 = (Inr after, d3)"
  shows "set before = {recordToGestaltdInstanceHeartbeat unmarshal r | k r.
      (k, r) \<in> set (db_rows d StoreGestaltdInstanceHeartbeats) \<and>
      utf16 (recString r ''source_version'') = utf16 (TrimSpace sv) \<and> cutoff \<le> recTime r ''heartbeat_at''} \<and>
    set after = set before"
    (is "_ = ?fresh \<and> _")
proof -
  have listed: "set hs = {recordToGestaltdInstanceHeartbeat unmarshal r | k r.
      (k, r) \<in> set (db_rows e StoreGestaltdInstanceHeartbeats) \<and>
      utf16 (recString r ''source_version'') = utf16 (TrimSpace sv) \<and> cutoff \<le> recTime r ''heartbeat_at''}"
    if "GestaltdInstanceHeartbeatService_ListFreshBySourceVersion unmarshal s sv cutoff e = (Inr hs, e')"
      and "heartbeat_rows_ok (db_rows e)" for hs e e'
    by (rule ListFresh_set [OF that assms(4)])
  have b: "set before = ?fresh" by (rule listed [OF assms(5,3)])
  have rows: "db_rows d1 = without_stale cutoff (db_rows d)" using PruneBefore_rows [OF assms(1-4)] by blast
  then have "heartbeat_rows_ok (db_rows d1)"
    using assms(3) by (auto simp: heartbeat_rows_ok_def without_stale_def distinct_map_filter)
  from listed [OF assms(6) this] have "set after = ?fresh"
    by (simp add: rows without_stale_def stale_def not_less) meson
  with b show ?thesis by simp
qed

theorem fresh_listing_survives_pruning_witness:
  "\<exists>n d1 hs d2 hs' d3.
     GestaltdInstanceHeartbeatService_PruneBefore True (unix_epoch + 30000000000) heartbeat_db = (Inr n, d1) \<and>
     GestaltdInstanceHeartbeatService_ListFreshBySourceVersion (\<lambda>_. None) True ''s1''
       (unix_epoch + 30000000000) heartbeat_db = (Inr hs, d2) \<and>
     GestaltdInstanceHeartbeatService_ListFreshBySourceVersion (\<lambda>_. None) True ''s1''
       (unix_epoch + 30000000000) d1 = (Inr hs', d3) \<and>
     hb_InstanceID ` set hs = {''new''} \<and> set hs' = set hs"
proof -
  let ?c = "unix_epoch + 30000000000"
  obtain n d1 where p: "GestaltdInstanceHeartbeatService_PruneBefore True ?c heartbeat_db = (Inr n, d1)"
      and h: "db_healthy d1"
    using PruneBefore_healthy [OF heartbeat_db(1)] by blast
  have tr: "TrimSpace ''s1'' = ''s1''" by code_simp
  have l: "\<exists>hs e. GestaltdInstanceHeartbeatService_ListFreshBySourceVersion (\<lambda>_. None) True ''s1'' ?c d = (Inr hs, e)"
    if "db_healthy d" for d
    using that by (simp add: GestaltdInstanceHeartbeatService_ListFreshBySourceVersion_def tr healthy_store Let_def)
  obtain hs d2 hs' d3 where
    l1: "GestaltdInstanceHeartbeatService_ListFreshBySourceVersion (\<lambda>_. None) True ''s1'' ?c heartbeat_db = (Inr hs, d2)"
    and l2: "GestaltdInstanceHeartbeatService_ListFreshBySourceVersion (\<lambda>_. None) True ''s1'' ?c d1 = (Inr hs', d3)"
    using l [OF heartbeat_db(1)] l [OF h] by blast
  have rows: "{recordToGestaltdInstanceHeartbeat (\<lambda>_. None) r | k r.
      (k, r) \<in> set (db_rows heartbeat_db StoreGestaltdInstanceHeartbeats) \<and>
      utf16 (recString r ''source_version'') = utf16 (TrimSpace ''s1'') \<and> ?c \<le> recTime r ''heartbeat_at''} =
    {recordToGestaltdInstanceHeartbeat (\<lambda>_. None) (heartbeat_record (sample_heartbeat ''new'' (unix_epoch + 60000000000)))}"
  proof -
    let ?old = "heartbeat_record (sample_heartbeat ''old'' unix_epoch)"
      and ?new = "heartbeat_record (sample_heartbeat ''new'' (unix_epoch + 60000000000))"
    have db: "set (db_rows heartbeat_db StoreGestaltdInstanceHeartbeats) = {(''old'', ?old), (''new'', ?new)}"
      by (simp add: heartbeat_db_def)
    have pick: "{f r | k r. (k, r) \<in> {(a, old), (b, new)} \<and> P r \<and> Q r} = {f new}"
      if "P new" "Q new" "\<not> Q old" for f :: "rec \<Rightarrow> GestaltdInstanceHeartbeat" and a b :: string and old new P Q
      using that by auto
    show ?thesis unfolding tr db
      by (rule pick) (simp_all add: heartbeat_record_def sample_heartbeat_def recTime_def recString_def)
  qed
  show ?thesis
    using fresh_listing_survives_pruning [OF p healthy_honest [OF heartbeat_db(1)] heartbeat_db(2,3) l1 l2] p l1 l2
    unfolding rows
    by (simp add: recordToGestaltdInstanceHeartbeat_def heartbeat_record_def sample_heartbeat_def recString_def)
qed

text \<open>
  A heartbeat reads back as the service normalised it: identifiers trimmed, instants cut to
  milliseconds, and every observation of every app, for observations whose text and instants JSON
  can carry.
\<close>

theorem heartbeat_round_trip:
  assumes "GestaltdInstanceHeartbeatService_Upsert s (Some h) d = (Inr h', d1)"
    and "storable_apps (hb_Apps (normalized_heartbeat h))"
    and "GestaltdInstanceHeartbeatService_Get unmarshal s' (hb_InstanceID h) d1 = (Inr h'', d2)"
  shows "h' = normalized_heartbeat h \<and> h'' = h'"
proof -
  obtain u where n: "h' = normalized_heartbeat h"
    and put: "store_Put StoreGestaltdInstanceHeartbeats (heartbeat_record h') d = (Inr u, d1)"
    using assms(1)
    by (auto simp: GestaltdInstanceHeartbeatService_Upsert_def gestaltdInstanceHeartbeatRecord_def Let_def
        split: if_splits sum.splits prod.splits)
  obtain r where get: "store_Get StoreGestaltdInstanceHeartbeats (hb_InstanceID h') d1 = (Inr r, d2)"
    and h'': "h'' = recordToGestaltdInstanceHeartbeat unmarshal r"
    using assms(3) n
    by (auto simp: GestaltdInstanceHeartbeatService_Get_def normalized_heartbeat_def
        split: if_splits sum.splits prod.splits)
  have "storable_heartbeat h'" using assms(2) n by (simp add: storable_heartbeat_def)
  from heartbeat_codec.get_after_put [OF this put get] show ?thesis using n h'' by simp
qed

theorem heartbeat_round_trip_witness:
  "\<exists>d1 d2. GestaltdInstanceHeartbeatService_Upsert True (Some (sample_heartbeat ''i'' (unix_epoch + 5))) empty_db =
       (Inr (sample_heartbeat ''i'' unix_epoch), d1) \<and>
     GestaltdInstanceHeartbeatService_Get (\<lambda>_. None) True ''i'' d1 = (Inr (sample_heartbeat ''i'' unix_epoch), d2)"
proof -
  let ?h = "sample_heartbeat ''i'' (unix_epoch + 5)"
  have n: "normalized_heartbeat ?h = sample_heartbeat ''i'' unix_epoch" by code_simp
  have nz: "hb_StartedAt ?h \<noteq> 0 \<and> hb_HeartbeatAt ?h \<noteq> 0" by code_simp
  obtain d1 where put: "store_Put StoreGestaltdInstanceHeartbeats
      (heartbeat_record (sample_heartbeat ''i'' unix_epoch)) empty_db = (Inr (), d1)" and h: "db_healthy d1"
    using healthy_store(5) [OF empty_db_simps(1) empty_no_conflict] by simp
  have f: "hb_InstanceID (sample_heartbeat ''i'' unix_epoch) \<noteq> ''''"
      "hb_SourceVersion (sample_heartbeat ''i'' unix_epoch) \<noteq> ''''"
      "hb_HeartbeatAt (sample_heartbeat ''i'' unix_epoch) = hb_StartedAt (sample_heartbeat ''i'' unix_epoch)"
    by (simp_all add: sample_heartbeat_def)
  have up: "GestaltdInstanceHeartbeatService_Upsert True (Some ?h) empty_db = (Inr (sample_heartbeat ''i'' unix_epoch), d1)"
    using nz put f by (simp add: GestaltdInstanceHeartbeatService_Upsert_def gestaltdInstanceHeartbeatRecord_def n Let_def)
  have i: "TrimSpace ''i'' = ''i''" by code_simp
  obtain h'' d2 where get: "GestaltdInstanceHeartbeatService_Get (\<lambda>_. None) True (hb_InstanceID ?h) d1 = (Inr h'', d2)"
    using write_rows(1) [OF put] h
    by (simp add: GestaltdInstanceHeartbeatService_Get_def healthy_store sample_heartbeat_def i row_put_def
        record_id_def heartbeat_record_def)
  have "storable_apps (hb_Apps (normalized_heartbeat ?h))" unfolding n by code_simp
  from heartbeat_round_trip [OF up this get] up get show ?thesis
    by (simp add: n sample_heartbeat_def)
qed

end
