(* ===== verification/Materializations.thy ===== *)
theory Materializations
  imports Heartbeats
begin

text \<open>
  The progress of each instance towards an app version,
  \<^verbatim>\<open>internal/coredata/app_instance_materializations.go\<close>: acknowledging a rollout, marking its stages,
  and counting failures. A record returned by the store is a copy, so a change of it reaches the
  store only through a put.
\<close>

record AppInstanceMaterialization =
  ma_InstanceID :: string
  ma_SourceVersion :: string
  ma_App :: string
  ma_Version :: string
  ma_AcknowledgedAt :: time
  ma_MaterializedAt :: time
  ma_StoppedAt :: time
  ma_RestartedAt :: time
  ma_AttemptCount :: int
  ma_LastErrorAt :: time
  ma_LastErrorMessage :: string

definition recordToAppInstanceMaterialization :: "rec \<Rightarrow> AppInstanceMaterialization" where
  "recordToAppInstanceMaterialization rec =
     \<lparr>ma_InstanceID = recString rec ''instance_id'', ma_SourceVersion = recString rec ''source_version'',
      ma_App = recString rec ''app'', ma_Version = recString rec ''version'',
      ma_AcknowledgedAt = recTime rec ''acknowledged_at'', ma_MaterializedAt = recTime rec ''materialized_at'',
      ma_StoppedAt = recTime rec ''stopped_at'', ma_RestartedAt = recTime rec ''restarted_at'',
      ma_AttemptCount = recordInt rec ''attempt_count'', ma_LastErrorAt = recTime rec ''last_error_at'',
      ma_LastErrorMessage = recString rec ''last_error_message''\<rparr>"

subsection \<open>Reading\<close>

definition instance_query :: "string \<Rightarrow> string \<Rightarrow> string \<Rightarrow> query" where
  "instance_query instanceID app version =
     Bound (KArray [KString instanceID, KString app, KString version])
       (KArray [KString instanceID, KString app, KString version]) False False"

definition findByInstanceAppVersion :: "string \<Rightarrow> string \<Rightarrow> string \<Rightarrow> db \<Rightarrow> rec result \<times> db" where
  "findByInstanceAppVersion instanceID0 app0 version0 d =
     (let instanceID = TrimSpace instanceID0; app = TrimSpace app0; version = TrimSpace version0
      in if instanceID = '''' \<or> app = '''' \<or> version = ''''
         then (Inl (Errorf ''find app instance materialization: instance_id, app, and version are required''), d)
         else
           (case index_GetAll StoreAppInstanceMaterializations [''instance_id'', ''app'', ''version'']
               (instance_query instanceID app version) d of
              (Inl err, d) \<Rightarrow> (Inl err, d)
            | (Inr [], d) \<Rightarrow> (Inl ErrNotFound_idb, d)
            | (Inr (rec # _), d) \<Rightarrow> (Inr rec, d)))"

definition AppInstanceMaterializationService_HasAcknowledged where
  "AppInstanceMaterializationService_HasAcknowledged s instanceID app version d =
     (if \<not> s then (Inl (Errorf ''has app instance materialization: service is not configured''), d)
      else
        (case findByInstanceAppVersion instanceID app version d of
           (Inl err, d) \<Rightarrow>
             (if errors_is err ErrNotFound_idb then (Inr False, d)
              else (Inl (Wrapf ''has app instance materialization'' err), d))
         | (Inr _, d) \<Rightarrow> (Inr True, d)))"

definition AppInstanceMaterializationService_Get where
  "AppInstanceMaterializationService_Get s instanceID app version d =
     (if \<not> s then (Inl (Errorf ''get app instance materialization: service is not configured''), d)
      else
        (case findByInstanceAppVersion instanceID app version d of
           (Inl err, d) \<Rightarrow> (Inl (Wrapf ''get app instance materialization'' err), d)
         | (Inr rec, d) \<Rightarrow> (Inr (recordToAppInstanceMaterialization rec), d)))"

definition AppInstanceMaterializationService_ListByInstance where
  "AppInstanceMaterializationService_ListByInstance s instanceID d =
     (if \<not> s then (Inl (Errorf ''list app instance materializations: service is not configured''), d)
      else if TrimSpace instanceID = ''''
      then (Inl (Errorf ''list app instance materializations: instance_id is required''), d)
      else
        (case index_GetAll StoreAppInstanceMaterializations [''instance_id'']
            (QKey (KString (TrimSpace instanceID))) d of
           (Inl err, d) \<Rightarrow> (Inl (Wrapf ''list app instance materializations'' err), d)
         | (Inr recs, d) \<Rightarrow> (Inr (map recordToAppInstanceMaterialization recs), d)))"

definition AppInstanceMaterializationService_ListByAppVersion where
  "AppInstanceMaterializationService_ListByAppVersion s app version d =
     (if \<not> s then (Inl (Errorf ''list app instance materializations: service is not configured''), d)
      else if TrimSpace app = '''' \<or> TrimSpace version = ''''
      then (Inl (Errorf ''list app instance materializations: app and version are required''), d)
      else
        (case index_GetAll StoreAppInstanceMaterializations [''app'', ''version'']
            (QKey (KArray [KString (TrimSpace app), KString (TrimSpace version)])) d of
           (Inl err, d) \<Rightarrow> (Inl (Wrapf ''list app instance materializations'' err), d)
         | (Inr recs, d) \<Rightarrow> (Inr (map recordToAppInstanceMaterialization recs), d)))"

subsection \<open>Acknowledging\<close>

definition normalizedMaterializationTime :: "time \<Rightarrow> time \<Rightarrow> time" where
  "normalizedMaterializationTime now t = truncate_ms (if t = 0 then now else t)"

definition acknowledgedAtForRollout :: "time \<Rightarrow> time \<Rightarrow> time \<Rightarrow> time" where
  "acknowledgedAtForRollout now requested rolloutCreatedAt =
     (let acknowledgedAt = normalizedMaterializationTime now requested
      in if rolloutCreatedAt = 0 \<or> \<not> acknowledgedAt < rolloutCreatedAt then acknowledgedAt
         else truncate_ms rolloutCreatedAt)"

definition reset_progress :: "string \<Rightarrow> time \<Rightarrow> rec \<Rightarrow> rec" where
  "reset_progress sourceVersion acknowledgedAt existing =
     ((if sourceVersion \<noteq> '''' then existing(''source_version'' \<mapsto> VString sourceVersion) else existing)
       (''acknowledged_at'' \<mapsto> VTime acknowledgedAt, ''attempt_count'' \<mapsto> VInt 0))
       (''materialized_at'' := None, ''stopped_at'' := None, ''restarted_at'' := None,
        ''last_error_at'' := None, ''last_error_message'' := None)"

definition acknowledge_existing ::
  "time \<Rightarrow> string \<Rightarrow> time \<Rightarrow> time \<Rightarrow> rec \<Rightarrow> db \<Rightarrow> AppInstanceMaterialization result \<times> db" where
  "acknowledge_existing now sourceVersion requested rolloutCreatedAt existing0 d =
     (let sourceVersionAdded =
            (ma_SourceVersion (recordToAppInstanceMaterialization existing0) = '''' \<and> sourceVersion \<noteq> '''');
          existing = (if sourceVersionAdded then existing0(''source_version'' \<mapsto> VString sourceVersion) else existing0);
          current = recordToAppInstanceMaterialization existing
      in if rolloutCreatedAt = 0 \<or> \<not> ma_AcknowledgedAt current < rolloutCreatedAt
         then
           (if sourceVersionAdded
            then
              (case store_Put StoreAppInstanceMaterializations existing d of
                 (Inl err, d) \<Rightarrow>
                   (Inl (Wrapf ''acknowledge app instance materialization: persist source version'' err), d)
               | (Inr _, d) \<Rightarrow> (Inr current, d))
            else (Inr current, d))
         else
           (let reset = reset_progress sourceVersion
                  (acknowledgedAtForRollout now requested rolloutCreatedAt) existing
            in case store_Put StoreAppInstanceMaterializations reset d of
                 (Inl err, d) \<Rightarrow>
                   (Inl (Wrapf ''acknowledge app instance materialization: reset stale progress'' err), d)
               | (Inr _, d) \<Rightarrow> (Inr (recordToAppInstanceMaterialization reset), d)))"

definition new_materialization_record :: "string \<Rightarrow> string \<Rightarrow> string \<Rightarrow> string \<Rightarrow> string \<Rightarrow> time \<Rightarrow> rec" where
  "new_materialization_record new_id instanceID sourceVersion app version acknowledgedAt = [
     ''id'' \<mapsto> VString new_id,
     ''instance_id'' \<mapsto> VString instanceID,
     ''source_version'' \<mapsto> VString sourceVersion,
     ''app'' \<mapsto> VString app,
     ''version'' \<mapsto> VString version,
     ''acknowledged_at'' \<mapsto> VTime acknowledgedAt,
     ''attempt_count'' \<mapsto> VInt 0]"

definition acknowledge_new ::
  "string \<Rightarrow> string \<Rightarrow> string \<Rightarrow> rec \<Rightarrow> db \<Rightarrow> AppInstanceMaterialization result \<times> db" where
  "acknowledge_new instanceID app version rec d =
     (case store_Add StoreAppInstanceMaterializations rec d of
        (Inl err, d) \<Rightarrow>
          (if errors_is err ErrAlreadyExists_idb
           then
             (case findByInstanceAppVersion instanceID app version d of
                (Inl getErr, d) \<Rightarrow> (Inl (Wrapf ''acknowledge app instance materialization'' getErr), d)
              | (Inr existing, d) \<Rightarrow> (Inr (recordToAppInstanceMaterialization existing), d))
           else (Inl (Wrapf ''acknowledge app instance materialization'' err), d))
      | (Inr _, d) \<Rightarrow> (Inr (recordToAppInstanceMaterialization rec), d))"

definition acknowledge ::
  "bool \<Rightarrow> string \<Rightarrow> time \<Rightarrow> AppInstanceMaterialization option \<Rightarrow> time \<Rightarrow> db \<Rightarrow>
    AppInstanceMaterialization result \<times> db" where
  "acknowledge s new_id now materialization rolloutCreatedAt d =
     (if \<not> s then (Inl (Errorf ''acknowledge app instance materialization: service is not configured''), d)
      else
        (case materialization of
           None \<Rightarrow> (Inl (Errorf ''acknowledge app instance materialization: record is required''), d)
         | Some ma \<Rightarrow>
             (let instanceID = TrimSpace (ma_InstanceID ma); sourceVersion = TrimSpace (ma_SourceVersion ma);
                  app = TrimSpace (ma_App ma); version = TrimSpace (ma_Version ma)
              in if instanceID = '''' \<or> app = '''' \<or> version = ''''
                 then (Inl (Errorf ''acknowledge app instance materialization: instance_id, app, and version are required''), d)
                 else
                   (case findByInstanceAppVersion instanceID app version d of
                      (Inr existing, d) \<Rightarrow>
                        acknowledge_existing now sourceVersion (ma_AcknowledgedAt ma) rolloutCreatedAt existing d
                    | (Inl err, d) \<Rightarrow>
                        (if \<not> errors_is err ErrNotFound_idb
                         then (Inl (Wrapf ''acknowledge app instance materialization'' err), d)
                         else acknowledge_new instanceID app version
                           (new_materialization_record new_id instanceID sourceVersion app version
                             (acknowledgedAtForRollout now (ma_AcknowledgedAt ma) rolloutCreatedAt)) d)))))"

definition AppInstanceMaterializationService_Acknowledge where
  "AppInstanceMaterializationService_Acknowledge s new_id now materialization d =
     acknowledge s new_id now materialization 0 d"

definition AppInstanceMaterializationService_AcknowledgeForRollout where
  "AppInstanceMaterializationService_AcknowledgeForRollout s new_id now materialization rolloutCreatedAt d =
     acknowledge s new_id now materialization (truncate_ms rolloutCreatedAt) d"

subsection \<open>Marking stages and failures\<close>

definition updateTimestamps ::
  "bool \<Rightarrow> string \<Rightarrow> string \<Rightarrow> string \<Rightarrow> (rec \<Rightarrow> rec) \<Rightarrow> db \<Rightarrow> AppInstanceMaterialization result \<times> db" where
  "updateTimestamps s instanceID app version mutate d =
     (if \<not> s then (Inl (Errorf ''update app instance materialization: service is not configured''), d)
      else
        (case findByInstanceAppVersion instanceID app version d of
           (Inl err, d) \<Rightarrow> (Inl (Wrapf ''update app instance materialization'' err), d)
         | (Inr rec, d) \<Rightarrow>
             (case store_Put StoreAppInstanceMaterializations (mutate rec) d of
                (Inl err, d) \<Rightarrow> (Inl (Wrapf ''update app instance materialization'' err), d)
              | (Inr _, d) \<Rightarrow> (Inr (recordToAppInstanceMaterialization (mutate rec)), d))))"

definition AppInstanceMaterializationService_MarkMaterialized where
  "AppInstanceMaterializationService_MarkMaterialized s now instanceID app version materializedAt =
     updateTimestamps s instanceID app version (\<lambda>rec.
       rec(''materialized_at'' \<mapsto> VTime (if materializedAt = 0 then truncate_ms now else truncate_ms materializedAt)))"

definition AppInstanceMaterializationService_MarkStopped where
  "AppInstanceMaterializationService_MarkStopped s now instanceID app version stoppedAt =
     updateTimestamps s instanceID app version (\<lambda>rec.
       rec(''stopped_at'' \<mapsto> VTime (if stoppedAt = 0 then truncate_ms now else truncate_ms stoppedAt)))"

definition AppInstanceMaterializationService_MarkRestarted where
  "AppInstanceMaterializationService_MarkRestarted s now instanceID app version restartedAt =
     updateTimestamps s instanceID app version (\<lambda>rec.
       rec(''restarted_at'' \<mapsto> VTime (if restartedAt = 0 then truncate_ms now else truncate_ms restartedAt)))"

definition failed_record :: "time \<Rightarrow> time \<Rightarrow> string \<Rightarrow> rec \<Rightarrow> rec" where
  "failed_record now failedAt message rec =
     rec(''attempt_count'' \<mapsto> VInt (wrap64 (recordInt rec ''attempt_count'' + 1)),
         ''last_error_at'' \<mapsto> VTime (truncate_ms (if failedAt = 0 then now else failedAt)),
         ''last_error_message'' \<mapsto> VString (TrimSpace message))"

definition record_failure_body ::
  "string \<Rightarrow> string \<Rightarrow> string \<Rightarrow> (rec \<Rightarrow> rec) \<Rightarrow> db \<Rightarrow> AppInstanceMaterialization tx_end \<times> db" where
  "record_failure_body instanceID app version failed d =
     (case index_GetAll StoreAppInstanceMaterializations [''instance_id'', ''app'', ''version'']
         (instance_query (TrimSpace instanceID) (TrimSpace app) (TrimSpace version)) d of
        (Inl err, d) \<Rightarrow>
          (TxFail (Wrapf ''record app instance materialization failure: load record'' err), d)
      | (Inr [], d) \<Rightarrow>
          (TxFail (Wrapf ''record app instance materialization failure: load record'' ErrNotFound_idb), d)
      | (Inr (rec # _), d) \<Rightarrow>
          (case store_Put StoreAppInstanceMaterializations (failed rec) d of
             (Inl err, d) \<Rightarrow> (TxFail (Wrapf ''record app instance materialization failure'' err), d)
           | (Inr _, d) \<Rightarrow>
               (TxCommit ''record app instance materialization failure: commit''
                 (recordToAppInstanceMaterialization (failed rec)), d)))"

definition AppInstanceMaterializationService_RecordFailure ::
  "bool \<Rightarrow> time \<Rightarrow> string \<Rightarrow> string \<Rightarrow> string \<Rightarrow> time \<Rightarrow> string \<Rightarrow> db \<Rightarrow> AppInstanceMaterialization result \<times> db" where
  "AppInstanceMaterializationService_RecordFailure s now instanceID app version failedAt message d =
     (if \<not> s then (Inl (Errorf ''record app instance materialization failure: service is not configured''), d)
      else with_tx ''record app instance materialization failure: begin transaction''
        (record_failure_body instanceID app version (failed_record now failedAt message)) d)"

subsection \<open>What the service keeps\<close>

inductive materialization_step :: "db \<Rightarrow> db \<Rightarrow> bool" where
  acknowledged: "AppInstanceMaterializationService_Acknowledge s new_id now ma d = (x, d') \<Longrightarrow> materialization_step d d'"
| acknowledged_for: "AppInstanceMaterializationService_AcknowledgeForRollout s new_id now ma at d = (x, d') \<Longrightarrow>
    materialization_step d d'"
| materialized: "AppInstanceMaterializationService_MarkMaterialized s now i app v at d = (x, d') \<Longrightarrow>
    materialization_step d d'"
| stopped: "AppInstanceMaterializationService_MarkStopped s now i app v at d = (x, d') \<Longrightarrow> materialization_step d d'"
| restarted: "AppInstanceMaterializationService_MarkRestarted s now i app v at d = (x, d') \<Longrightarrow>
    materialization_step d d'"
| failed: "AppInstanceMaterializationService_RecordFailure s now i app v at msg d = (x, d') \<Longrightarrow>
    materialization_step d d'"

context store_invariant
begin

lemma inv_find:
  "inv d \<Longrightarrow> findByInstanceAppVersion i app v d = (x, d') \<Longrightarrow> inv d'"
  by (auto simp: findByInstanceAppVersion_def Let_def dest: inv_rules
      split: if_splits prod.splits sum.splits list.splits)

lemma inv_acknowledge_existing:
  "inv d \<Longrightarrow> acknowledge_existing now sv requested at existing d = (x, d') \<Longrightarrow> inv d'"
  by (auto simp: acknowledge_existing_def Let_def dest: inv_rules split: if_splits prod.splits sum.splits)

lemma inv_acknowledge_new:
  "inv d \<Longrightarrow> acknowledge_new i app v rec d = (x, d') \<Longrightarrow> inv d'"
  by (auto simp: acknowledge_new_def dest: inv_rules inv_find split: if_splits prod.splits sum.splits)

lemma inv_acknowledge:
  "inv d \<Longrightarrow> acknowledge s new_id now ma at d = (x, d') \<Longrightarrow> inv d'"
  by (auto simp: acknowledge_def Let_def dest: inv_find inv_acknowledge_existing inv_acknowledge_new
      split: if_splits prod.splits sum.splits option.splits)

lemma inv_updateTimestamps:
  "inv d \<Longrightarrow> updateTimestamps s i app v f d = (x, d') \<Longrightarrow> inv d'"
  by (auto simp: updateTimestamps_def dest: inv_find inv_rules split: if_splits prod.splits sum.splits)

lemma inv_record_failure_body:
  "inv d \<Longrightarrow> record_failure_body i app v f d = (x, d') \<Longrightarrow> inv d'"
  by (auto simp: record_failure_body_def dest: inv_rules split: if_splits prod.splits sum.splits list.splits)

lemma inv_materialization_step: "materialization_step d d' \<Longrightarrow> inv d \<Longrightarrow> inv d'"
proof (induction rule: materialization_step.induct)
  case (failed s now i app v at msg d x d')
  show ?case
    using failed inv_with_tx [OF failed(2) _ inv_record_failure_body]
    by (auto simp: AppInstanceMaterializationService_RecordFailure_def split: if_splits)
qed (auto simp: AppInstanceMaterializationService_Acknowledge_def
    AppInstanceMaterializationService_AcknowledgeForRollout_def AppInstanceMaterializationService_MarkMaterialized_def
    AppInstanceMaterializationService_MarkStopped_def AppInstanceMaterializationService_MarkRestarted_def
    dest: inv_acknowledge inv_updateTimestamps)

lemma inv_materialization_run: "materialization_step\<^sup>*\<^sup>* d d' \<Longrightarrow> inv d \<Longrightarrow> inv d'"
  by (induction rule: rtranclp_induct) (simp_all add: inv_materialization_step)

end

definition instance_row :: "rec \<Rightarrow> string \<Rightarrow> string \<Rightarrow> string \<Rightarrow> bool" where
  "instance_row r i app v \<longleftrightarrow>
     r ''instance_id'' = Some (VString i) \<and> r ''app'' = Some (VString app) \<and> r ''version'' = Some (VString v)"


subsection \<open>The row of an instance\<close>

definition material_rows_ok :: "contents \<Rightarrow> bool" where
  "material_rows_ok c \<longleftrightarrow> wf_alist (c StoreAppInstanceMaterializations) \<and>
     (\<forall>(k, r) \<in> set (c StoreAppInstanceMaterializations).
       r ''id'' = Some (VString k) \<and> (\<exists>i app v. instance_row r i app v))"

definition row_matches :: "string \<Rightarrow> string \<Rightarrow> string \<Rightarrow> rec \<Rightarrow> bool" where
  "row_matches i app v r \<longleftrightarrow> utf16 (recString r ''instance_id'') = utf16 i \<and>
     utf16 (recString r ''app'') = utf16 app \<and> utf16 (recString r ''version'') = utf16 v"

lemma instance_query_match:
  assumes "instance_row r i' app' v'"
  shows "(\<exists>ik. index_key [''instance_id'', ''app'', ''version''] r = Some ik \<and>
    MatchQuery ik (instance_query i app v)) \<longleftrightarrow> row_matches i app v r"
proof -
  have "text_fields [''instance_id'', ''app'', ''version''] r [i', app', v']"
    using assms by (simp add: text_fields_def instance_row_def)
  from index_exact_texts [OF this, of "[i, app, v]"] show ?thesis
    using assms by (simp add: instance_query_def row_matches_def instance_row_def recString_def)
qed

lemma set_instance_rows:
  assumes "material_rows_ok c"
  shows "r \<in> set (rows_index_GetAll (c StoreAppInstanceMaterializations) [''instance_id'', ''app'', ''version'']
      (instance_query i app v)) \<longleftrightarrow>
    (\<exists>k. map_of (c StoreAppInstanceMaterializations) k = Some r \<and> record_id r = k \<and> row_matches i app v r)"
proof -
  have row: "\<exists>i' app' v'. instance_row r i' app' v'" "record_id r = k"
    if "(k, r) \<in> set (c StoreAppInstanceMaterializations)" for k
    using assms that by (auto simp: material_rows_ok_def record_id_def)
  have "(\<exists>ik. index_key [''instance_id'', ''app'', ''version''] r = Some ik \<and>
      MatchQuery ik (instance_query i app v)) \<longleftrightarrow> row_matches i app v r"
    if "(k, r) \<in> set (c StoreAppInstanceMaterializations)" for k
    using row(1) [OF that] instance_query_match by blast
  moreover have "map_of (c StoreAppInstanceMaterializations) k = Some r \<longleftrightarrow>
      (k, r) \<in> set (c StoreAppInstanceMaterializations)" for k
    using assms by (simp add: material_rows_ok_def map_of_eq_Some_iff)
  ultimately show ?thesis unfolding set_rows_index_GetAll using row(2) by blast
qed

lemma find_rows:
  assumes "findByInstanceAppVersion i app v d = (y, d')" and "material_rows_ok (db_rows d)"
  shows "db_rows d' = db_rows d" and "db_fail d' = db_fail d"
    and "y = Inr rec \<Longrightarrow> \<exists>k. map_of (db_rows d StoreAppInstanceMaterializations) k = Some rec \<and> record_id rec = k \<and>
      row_matches (TrimSpace i) (TrimSpace app) (TrimSpace v) rec"
    and "y = Inl err \<Longrightarrow> errors_is err ErrNotFound_idb \<Longrightarrow> honest_failures d \<Longrightarrow>
      map_of (db_rows d StoreAppInstanceMaterializations) k = Some r \<Longrightarrow>
      \<not> row_matches (TrimSpace i) (TrimSpace app) (TrimSpace v) r"
proof -
  let ?i = "TrimSpace i" and ?a = "TrimSpace app" and ?v = "TrimSpace v"
  show "db_rows d' = db_rows d" "db_fail d' = db_fail d"
    using assms(1) by (auto simp: findByInstanceAppVersion_def Let_def dest: read_rows store_op_fail
        split: if_splits prod.splits sum.splits list.splits)
  show "\<exists>k. map_of (db_rows d StoreAppInstanceMaterializations) k = Some rec \<and> record_id rec = k \<and>
      row_matches ?i ?a ?v rec" if "y = Inr rec"
  proof -
    have "rec \<in> set (rows_index_GetAll (db_rows d StoreAppInstanceMaterializations)
        [''instance_id'', ''app'', ''version''] (instance_query ?i ?a ?v))"
      using assms(1) that by (auto simp: findByInstanceAppVersion_def Let_def dest!: index_GetAll_Inr
        split: if_splits prod.splits sum.splits list.splits) (metis list.set_intros(1))
    then show ?thesis unfolding set_instance_rows [OF assms(2)] .
  qed
  show "\<not> row_matches ?i ?a ?v r" if "y = Inl err" "errors_is err ErrNotFound_idb" "honest_failures d"
    "map_of (db_rows d StoreAppInstanceMaterializations) k = Some r"
  proof -
    have "rows_index_GetAll (db_rows d StoreAppInstanceMaterializations)
        [''instance_id'', ''app'', ''version''] (instance_query ?i ?a ?v) = []"
    proof -
      obtain g d1 where g: "index_GetAll StoreAppInstanceMaterializations [''instance_id'', ''app'', ''version'']
          (instance_query ?i ?a ?v) d = (g, d1)" by fastforce
      have "g = Inr []"
        using assms(1) that(1,2,3) g
        by (auto simp: findByInstanceAppVersion_def Let_def index_GetAll_def honest_failures_def ErrNotFound_idb_def
            elim!: db_op_cases split: if_splits list.splits)
      then show ?thesis using index_GetAll_Inr g by metis
    qed
    then have "r \<notin> set (rows_index_GetAll (db_rows d StoreAppInstanceMaterializations)
        [''instance_id'', ''app'', ''version''] (instance_query ?i ?a ?v))" by simp
    moreover have "record_id r = k"
      using assms(2) that(4) map_of_SomeD by (fastforce simp: material_rows_ok_def record_id_def)
    ultimately show ?thesis unfolding set_instance_rows [OF assms(2)] using that(4) by blast
  qed
qed

subsection \<open>Acknowledging a rollout\<close>

definition progress where
  "progress m = (ma_MaterializedAt m, ma_StoppedAt m, ma_RestartedAt m, ma_AttemptCount m, ma_LastErrorAt m,
     ma_LastErrorMessage m)"

definition no_progress :: "AppInstanceMaterialization \<Rightarrow> bool" where
  "no_progress m \<longleftrightarrow> progress m = (0, 0, 0, 0, 0, '''')"

text \<open>
  What an acknowledgement for a rollout created at \<open>t\<close> does to the rows \<open>c\<close>: at most one row
  is written, the one of the instance; it is acknowledged no earlier than \<open>t\<close>, and it has progress
  only when it was acknowledged for this rollout before.
\<close>

definition acknowledged_row ::
  "string \<Rightarrow> string \<Rightarrow> string \<Rightarrow> time \<Rightarrow> contents \<Rightarrow> AppInstanceMaterialization \<Rightarrow> contents \<Rightarrow> bool" where
  "acknowledged_row i app v t c m c' \<longleftrightarrow>
     (\<exists>rec. m = recordToAppInstanceMaterialization rec \<and>
       (c' = row_put StoreAppInstanceMaterializations rec c \<or>
        c' = c \<and> map_of (c StoreAppInstanceMaterializations) (record_id rec) = Some rec) \<and>
       row_matches i app v rec \<and> t \<le> ma_AcknowledgedAt m \<and>
       (case map_of (c StoreAppInstanceMaterializations) (record_id rec) of
          None \<Rightarrow> no_progress m
        | Some old \<Rightarrow>
            if recTime old ''acknowledged_at'' < t then no_progress m
            else progress m = progress (recordToAppInstanceMaterialization old)))"

lemma acknowledgedAtForRollout_ge: "t \<noteq> 0 \<Longrightarrow> t = truncate_ms u \<Longrightarrow> t \<le> acknowledgedAtForRollout now requested t"
  by (simp add: acknowledgedAtForRollout_def Let_def)

lemma reset_progress_row:
  "record_id (reset_progress sv t r) = record_id r"
  "row_matches i app v (reset_progress sv t r) = row_matches i app v r"
  "no_progress (recordToAppInstanceMaterialization (reset_progress sv t r))"
  "ma_AcknowledgedAt (recordToAppInstanceMaterialization (reset_progress sv t r)) = t"
proof -
  let ?r = "reset_progress sv t r"
  have "?r ''id'' = r ''id''" "?r ''instance_id'' = r ''instance_id''" "?r ''app'' = r ''app''"
      "?r ''version'' = r ''version''"
    by (simp_all add: reset_progress_def)
  then show "record_id ?r = record_id r" "row_matches i app v ?r = row_matches i app v r"
    by (simp_all add: record_id_def row_matches_def recString_def)
  have "?r ''acknowledged_at'' = Some (VTime t)" "?r ''attempt_count'' = Some (VInt 0)" "?r ''materialized_at'' = None"
      "?r ''stopped_at'' = None" "?r ''restarted_at'' = None" "?r ''last_error_at'' = None" "?r ''last_error_message'' = None"
    by (simp_all add: reset_progress_def)
  then show "no_progress (recordToAppInstanceMaterialization ?r)" "ma_AcknowledgedAt (recordToAppInstanceMaterialization ?r) = t"
    by (simp_all add: no_progress_def progress_def recordToAppInstanceMaterialization_def recString_def recTime_def recordInt_def)
qed

lemma acknowledge_existing_row:
  assumes "acknowledge_existing now sv requested t existing d = (Inr m, d')"
    and "map_of (db_rows d StoreAppInstanceMaterializations) (record_id existing) = Some existing"
    and "row_matches i app v existing" and "t \<noteq> 0" and "t = truncate_ms u"
  shows "acknowledged_row i app v t (db_rows d) m (db_rows d')"
proof -
  let ?S = StoreAppInstanceMaterializations
  define added where "added \<longleftrightarrow> ma_SourceVersion (recordToAppInstanceMaterialization existing) = '''' \<and> sv \<noteq> ''''"
  define e where "e = (if added then existing(''source_version'' \<mapsto> VString sv) else existing)"
  define r where "r = reset_progress sv (acknowledgedAtForRollout now requested t) e"
  have e: "record_id e = record_id existing" "row_matches i app v e"
      "recTime e ''acknowledged_at'' = recTime existing ''acknowledged_at''"
      "progress (recordToAppInstanceMaterialization e) = progress (recordToAppInstanceMaterialization existing)"
    using assms(3) by (simp_all add: e_def record_id_def row_matches_def recString_def recTime_def recordInt_def progress_def
        recordToAppInstanceMaterialization_def)
  have r: "record_id r = record_id existing" "row_matches i app v r"
      "no_progress (recordToAppInstanceMaterialization r)" "t \<le> ma_AcknowledgedAt (recordToAppInstanceMaterialization r)"
    using acknowledgedAtForRollout_ge [OF assms(4,5)] e(1,2) by (simp_all add: r_def reset_progress_row)
  obtain x d1 where x: "store_Put ?S r d = (x, d1)" by fastforce
  obtain y d2 where y: "store_Put ?S e d = (y, d2)" by fastforce
  have ack: "ma_AcknowledgedAt (recordToAppInstanceMaterialization e) = recTime existing ''acknowledged_at''"
    using e(3) by (simp add: recordToAppInstanceMaterialization_def)
  note run = assms(1) [unfolded acknowledge_existing_def Let_def, folded added_def, folded e_def, folded r_def,
      unfolded x y ack]
  show ?thesis
  proof (cases "recTime existing ''acknowledged_at'' < t")
    case True
    then have "m = recordToAppInstanceMaterialization r" and "db_rows d' = row_put ?S r (db_rows d)"
      using run assms(4) write_rows(1) [OF x] by (auto split: sum.splits)
    then show ?thesis
      unfolding acknowledged_row_def using True r assms(2) by (intro exI [of _ r]) simp
  next
    case False
    then have m: "m = recordToAppInstanceMaterialization e"
      and rows: "db_rows d' = row_put ?S e (db_rows d) \<or> db_rows d' = db_rows d \<and> e = existing"
      using run write_rows(1) [OF y] by (auto simp: e_def split: sum.splits if_splits)
    have "t \<le> ma_AcknowledgedAt m" using False m ack by simp
    then show ?thesis
      unfolding acknowledged_row_def using False e assms(2) m rows by (intro exI [of _ e]) auto
  qed
qed

lemma acknowledge_new_row:
  assumes "acknowledge_new i0 app0 v0 (new_materialization_record new_id i sv app v at) d = (Inr m, d')"
    and "\<And>e d1. findByInstanceAppVersion i0 app0 v0 d1 = (Inr e, d') \<Longrightarrow> db_rows d1 = db_rows d \<Longrightarrow> False"
    and "t \<le> at"
  shows "acknowledged_row i app v t (db_rows d) m (db_rows d')"
proof -
  let ?S = StoreAppInstanceMaterializations and ?r = "new_materialization_record new_id i sv app v at"
  obtain x d1 where x: "store_Add ?S ?r d = (x, d1)" by fastforce
  have none: "\<not> (\<exists>e. x = Inl e)"
  proof
    assume "\<exists>e. x = Inl e"
    then obtain e where e: "x = Inl e" by blast
    obtain y d2 where y: "findByInstanceAppVersion i0 app0 v0 d1 = (y, d2)" by fastforce
    have "db_rows d1 = db_rows d" using write_rows(2) [OF x] e by simp
    moreover have "\<exists>f. y = Inr f \<and> d2 = d'"
      using assms(1) x y e by (auto simp: acknowledge_new_def split: if_splits sum.splits)
    ultimately show False using assms(2) y by blast
  qed
  then obtain u where u: "x = Inr u" by (cases x) auto
  then have m: "m = recordToAppInstanceMaterialization ?r" "d' = d1"
    using assms(1) x by (auto simp: acknowledge_new_def)
  have "db_rows d' = row_put ?S ?r (db_rows d)" "map_of (db_rows d ?S) (record_id ?r) = None"
    using write_rows(2) [OF x] store_Add_Inr(2) [OF x [unfolded u]] u m(2) by simp_all
  moreover have "row_matches i app v ?r" "no_progress (recordToAppInstanceMaterialization ?r)"
      "t \<le> ma_AcknowledgedAt (recordToAppInstanceMaterialization ?r)"
    using assms(3) by (simp_all add: new_materialization_record_def row_matches_def no_progress_def progress_def
        recordToAppInstanceMaterialization_def recString_def recTime_def recordInt_def)
  ultimately show ?thesis
    unfolding acknowledged_row_def m(1) by (intro exI [of _ ?r]) simp
qed

lemma acknowledge_row:
  assumes "acknowledge s new_id now (Some ma) t d = (Inr m, d')" and "honest_failures d"
    and "material_rows_ok (db_rows d)" and "t \<noteq> 0" and "t = truncate_ms u"
  shows "acknowledged_row (TrimSpace (ma_InstanceID ma)) (TrimSpace (ma_App ma)) (TrimSpace (ma_Version ma)) t
    (db_rows d) m (db_rows d')"
proof -
  let ?i = "TrimSpace (ma_InstanceID ma)" and ?a = "TrimSpace (ma_App ma)" and ?v = "TrimSpace (ma_Version ma)"
  obtain y d1 where y: "findByInstanceAppVersion ?i ?a ?v d = (y, d1)" by fastforce
  note find = find_rows [OF y assms(3), unfolded TrimSpace_idem]
  show ?thesis
  proof (cases y)
    case (Inr existing)
    then have run: "acknowledge_existing now (TrimSpace (ma_SourceVersion ma)) (ma_AcknowledgedAt ma) t existing d1 = (Inr m, d')"
      using assms(1) y by (auto simp: acknowledge_def Let_def split: if_splits)
    have "map_of (db_rows d1 StoreAppInstanceMaterializations) (record_id existing) = Some existing \<and>
        row_matches ?i ?a ?v existing"
      using find(1) find(3) [OF Inr] by auto
    then show ?thesis using acknowledge_existing_row [OF run _ _ assms(4,5)] find(1) by simp
  next
    case (Inl err)
    let ?r = "new_materialization_record new_id ?i (TrimSpace (ma_SourceVersion ma)) ?a ?v
      (acknowledgedAtForRollout now (ma_AcknowledgedAt ma) t)"
    have e: "errors_is err ErrNotFound_idb" and run: "acknowledge_new ?i ?a ?v ?r d1 = (Inr m, d')"
      using assms(1) y Inl by (auto simp: acknowledge_def Let_def split: if_splits)
    have none: False if "findByInstanceAppVersion ?i ?a ?v d2 = (Inr f, d3)" "db_rows d2 = db_rows d1" for f d2 d3
      using find_rows(3) [OF that(1) _ refl, unfolded TrimSpace_idem] find(4) [OF Inl e assms(2)] assms(3) that(2) find(1)
      by auto
    show ?thesis
      using acknowledge_new_row [OF run none acknowledgedAtForRollout_ge [OF assms(4,5)]] find(1) by simp
  qed
qed

text \<open>
  C26. Acknowledging a rollout starts it afresh. A call that succeeds writes at most the row of that
  instance, app and version; the row is acknowledged no earlier than the rollout was created; and
  it carries progress, attempts or errors only when it was already acknowledged for this rollout,
  so nothing of an earlier rollout of the same version is counted for this one.
\<close>

theorem acknowledgement_resets_earlier_progress:
  assumes "AppInstanceMaterializationService_AcknowledgeForRollout s new_id now (Some ma) createdAt d = (Inr m, d')"
    and "honest_failures d" and "material_rows_ok (db_rows d)" and "truncate_ms createdAt \<noteq> 0"
  shows "acknowledged_row (TrimSpace (ma_InstanceID ma)) (TrimSpace (ma_App ma)) (TrimSpace (ma_Version ma))
    (truncate_ms createdAt) (db_rows d) m (db_rows d')"
  by (rule acknowledge_row [OF assms(1) [unfolded AppInstanceMaterializationService_AcknowledgeForRollout_def]
        assms(2-4) refl])

lemma record_failure_row:
  assumes "with_tx msg (record_failure_body i app v f) d = (Inr m, d')" and "material_rows_ok (db_rows d)"
  shows "\<exists>rec. map_of (db_rows d StoreAppInstanceMaterializations) (record_id rec) = Some rec \<and>
    row_matches (TrimSpace i) (TrimSpace app) (TrimSpace v) rec \<and> m = recordToAppInstanceMaterialization (f rec) \<and>
    db_rows d' = row_put StoreAppInstanceMaterializations (f rec) (db_rows d)"
  using assms(1)
proof (cases rule: with_tx_Inr)
  case (commit d1 d2 msg')
  let ?q = "instance_query (TrimSpace i) (TrimSpace app) (TrimSpace v)"
  have rows: "db_rows d1 = db_rows d" "db_rows d' = db_rows d2"
    using db_rows_stores [OF commit(1)] db_rows_stores [OF commit(4)] by simp_all
  obtain g d3 where g: "index_GetAll StoreAppInstanceMaterializations [''instance_id'', ''app'', ''version''] ?q d1 = (g, d3)"
    by fastforce
  then obtain rec recs where rec: "g = Inr (rec # recs)"
    using commit(3) by (auto simp: record_failure_body_def split: sum.splits list.splits)
  obtain y d4 where y: "store_Put StoreAppInstanceMaterializations (f rec) d3 = (y, d4)" by fastforce
  have m: "m = recordToAppInstanceMaterialization (f rec)" "db_rows d2 = row_put StoreAppInstanceMaterializations (f rec) (db_rows d3)"
    using commit(3) g rec y write_rows(1) [OF y] by (auto simp: record_failure_body_def split: sum.splits)
  have "rec \<in> set (rows_index_GetAll (db_rows d StoreAppInstanceMaterializations)
      [''instance_id'', ''app'', ''version''] ?q)"
    using index_GetAll_Inr [OF g [unfolded rec]] rows(1) by (metis list.set_intros(1))
  then show ?thesis
    unfolding set_instance_rows [OF assms(2)] using m rows read_rows(3) [OF g] by auto
next
  case (return d1 d2)
  then show ?thesis by (auto simp: record_failure_body_def split: prod.splits sum.splits list.splits)
qed

text \<open>
  Recording a failure counts exactly one more attempt, as a 64-bit counter, on exactly the row
  of that instance, app and version, stores when and why, and leaves its stages and every other row
  alone. When it fails, nothing has changed.
\<close>

theorem failure_counts_once:
  assumes "AppInstanceMaterializationService_RecordFailure s now i app v failedAt message d = (x, d')"
    and "material_rows_ok (db_rows d)"
  shows "case x of
      Inl e \<Rightarrow> db_rows d' = db_rows d
    | Inr m \<Rightarrow> \<exists>k rec. map_of (db_rows d StoreAppInstanceMaterializations) k = Some rec \<and>
        row_matches (TrimSpace i) (TrimSpace app) (TrimSpace v) rec \<and>
        m = (recordToAppInstanceMaterialization rec)
          \<lparr>ma_AttemptCount := wrap64 (ma_AttemptCount (recordToAppInstanceMaterialization rec) + 1),
           ma_LastErrorAt := truncate_ms (if failedAt = 0 then now else failedAt),
           ma_LastErrorMessage := TrimSpace message\<rparr> \<and>
        (\<exists>rec'. m = recordToAppInstanceMaterialization rec' \<and>
          db_rows d' = (db_rows d)(StoreAppInstanceMaterializations :=
            AList.update k rec' (db_rows d StoreAppInstanceMaterializations)))"
proof (cases x)
  case (Inl e)
  then show ?thesis
    using assms(1) by (auto simp: AppInstanceMaterializationService_RecordFailure_def dest: with_tx_error split: if_splits)
next
  case (Inr m)
  let ?f = "failed_record now failedAt message"
  have tx: "with_tx ''record app instance materialization failure: begin transaction''
      (record_failure_body i app v ?f) d = (Inr m, d')"
    using assms(1) Inr by (simp add: AppInstanceMaterializationService_RecordFailure_def split: if_splits)
  have "\<exists>rec. map_of (db_rows d StoreAppInstanceMaterializations) (record_id rec) = Some rec \<and>
      row_matches (TrimSpace i) (TrimSpace app) (TrimSpace v) rec \<and> m = recordToAppInstanceMaterialization (?f rec) \<and>
      db_rows d' = row_put StoreAppInstanceMaterializations (?f rec) (db_rows d)"
    using record_failure_row [OF tx assms(2)] .
  then obtain rec where rec: "map_of (db_rows d StoreAppInstanceMaterializations) (record_id rec) = Some rec"
      "row_matches (TrimSpace i) (TrimSpace app) (TrimSpace v) rec" "m = recordToAppInstanceMaterialization (?f rec)"
      "db_rows d' = row_put StoreAppInstanceMaterializations (?f rec) (db_rows d)" by blast
  have "record_id (?f rec) = record_id rec" by (simp add: failed_record_def record_id_def)
  then have put: "db_rows d' = (db_rows d)(StoreAppInstanceMaterializations :=
      AList.update (record_id rec) (?f rec) (db_rows d StoreAppInstanceMaterializations))"
    using rec(4) by (simp add: row_put_def)
  have m: "m = (recordToAppInstanceMaterialization rec)
      \<lparr>ma_AttemptCount := wrap64 (ma_AttemptCount (recordToAppInstanceMaterialization rec) + 1),
       ma_LastErrorAt := truncate_ms (if failedAt = 0 then now else failedAt),
       ma_LastErrorMessage := TrimSpace message\<rparr>"
    unfolding rec(3) by (simp add: failed_record_def recordToAppInstanceMaterialization_def recString_def recTime_def recordInt_def)
  show ?thesis
    unfolding Inr sum.case
    by (rule exI [of _ "record_id rec"], rule exI [of _ rec], intro conjI rec(1,2) m, rule exI [of _ "?f rec"])
      (intro conjI rec(3) put)
qed

subsection \<open>Instances\<close>

definition stale_record :: rec where
  "stale_record = [''id'' \<mapsto> VString ''m1'', ''instance_id'' \<mapsto> VString ''i1'', ''source_version'' \<mapsto> VString ''s1'',
     ''app'' \<mapsto> VString ''mail'', ''version'' \<mapsto> VString ''v1'', ''acknowledged_at'' \<mapsto> VTime unix_epoch,
     ''materialized_at'' \<mapsto> VTime (unix_epoch + 1000000000), ''attempt_count'' \<mapsto> VInt 3]"

definition material_db :: db where
  "material_db = set_rows StoreAppInstanceMaterializations [(''m1'', stale_record)] empty_db"

lemma stale_fields:
  "stale_record ''id'' = Some (VString ''m1'')" "instance_row stale_record ''i1'' ''mail'' ''v1''"
  "record_id stale_record = ''m1''" "recString stale_record ''source_version'' = ''s1''"
  "recTime stale_record ''acknowledged_at'' = unix_epoch" "recordInt stale_record ''attempt_count'' = 3"
  by (simp_all add: stale_record_def instance_row_def record_id_def recString_def recTime_def recordInt_def)

lemma material_db [simp]:
  "db_healthy material_db" "schema_ok material_db"
  "db_rows material_db StoreAppInstanceMaterializations = [(''m1'', stale_record)]"
  "material_rows_ok (db_rows material_db)"
  using stale_fields(1,2) by (auto simp: material_db_def material_rows_ok_def)

lemma instance_rows_single:
  assumes "db_healthy d" and "db_rows d StoreAppInstanceMaterializations = [(''m1'', stale_record)]"
  shows "index_GetAll StoreAppInstanceMaterializations [''instance_id'', ''app'', ''version'']
    (instance_query ''i1'' ''mail'' ''v1'') d = (Inr [stale_record], d\<lparr>db_tick := Suc (db_tick d)\<rparr>)"
proof -
  have "index_key [''instance_id'', ''app'', ''version''] stale_record =
      Some (KArray [KString ''i1'', KString ''mail'', KString ''v1''])"
    using index_key_texts [of "[''instance_id'', ''app'', ''version'']" stale_record "[''i1'', ''mail'', ''v1'']"] stale_fields(2)
    by (simp add: text_fields_def instance_row_def)
  then show ?thesis
    using assms by (simp add: healthy_store rows_index_GetAll_def instance_query_def del: CompareKeys.simps)
qed

lemma sample_texts: "TrimSpace ''i1'' = ''i1''" "TrimSpace ''mail'' = ''mail''" "TrimSpace ''v1'' = ''v1''"
    "TrimSpace ''s1'' = ''s1''"
  by code_simp+

lemma find_single:
  assumes "db_healthy d" and "db_rows d StoreAppInstanceMaterializations = [(''m1'', stale_record)]"
  shows "findByInstanceAppVersion ''i1'' ''mail'' ''v1'' d = (Inr stale_record, d\<lparr>db_tick := Suc (db_tick d)\<rparr>)"
  using instance_rows_single [OF assms] by (simp add: findByInstanceAppVersion_def sample_texts)

lemma put_single:
  assumes "db_healthy d" and "db_rows d StoreAppInstanceMaterializations = [(''m1'', stale_record)]" and "record_id r = ''m1''"
  shows "\<exists>d'. store_Put StoreAppInstanceMaterializations r d = (Inr (), d') \<and> db_healthy d'"
proof -
  have "\<not> hasUniqueConflict (db_stores d StoreAppInstanceMaterializations) r (Some (record_id r))"
    using assms(2,3) by (simp add: hasUniqueConflict_def list_ex_iff db_rows_def)
  from healthy_store(5) [OF assms(1) this] show ?thesis using assms(1) by simp
qed

definition sample_materialization :: AppInstanceMaterialization where
  "sample_materialization =
     \<lparr>ma_InstanceID = ''i1'', ma_SourceVersion = ''s1'', ma_App = ''mail'', ma_Version = ''v1'', ma_AcknowledgedAt = 0,
      ma_MaterializedAt = 0, ma_StoppedAt = 0, ma_RestartedAt = 0, ma_AttemptCount = 0, ma_LastErrorAt = 0,
      ma_LastErrorMessage = ''''\<rparr>"

theorem acknowledgement_resets_earlier_progress_witness:
  "\<exists>m d'. AppInstanceMaterializationService_AcknowledgeForRollout True ''x'' unix_epoch (Some sample_materialization)
       (unix_epoch + 60000000000) material_db = (Inr m, d') \<and>
     ma_AttemptCount m = 0 \<and> unix_epoch + 60000000000 \<le> ma_AcknowledgedAt m"
proof -
  let ?t = "unix_epoch + 60000000000" and ?d = "material_db\<lparr>db_tick := Suc (db_tick material_db)\<rparr>"
  have t: "truncate_ms ?t = ?t" "?t \<noteq> 0" by code_simp+
  let ?r = "reset_progress ''s1'' (acknowledgedAtForRollout unix_epoch 0 ?t) stale_record"
  obtain d' where put: "store_Put StoreAppInstanceMaterializations ?r ?d = (Inr (), d')"
    using put_single [of ?d ?r] by (auto simp: reset_progress_row stale_fields)
  have "acknowledge_existing unix_epoch ''s1'' 0 ?t stale_record ?d = (Inr (recordToAppInstanceMaterialization ?r), d')"
    using put t(2) stale_fields(4,5) by (simp add: acknowledge_existing_def recordToAppInstanceMaterialization_def [of stale_record])
  then have run: "AppInstanceMaterializationService_AcknowledgeForRollout True ''x'' unix_epoch (Some sample_materialization) ?t
      material_db = (Inr (recordToAppInstanceMaterialization ?r), d')"
    using find_single [of material_db]
    by (simp add: AppInstanceMaterializationService_AcknowledgeForRollout_def acknowledge_def t sample_materialization_def
        sample_texts)
  have "ma_AttemptCount (recordToAppInstanceMaterialization ?r) = 0"
    by (simp add: reset_progress_def recordToAppInstanceMaterialization_def recordInt_def)
  moreover have "?t \<le> ma_AcknowledgedAt (recordToAppInstanceMaterialization ?r)"
    using acknowledgement_resets_earlier_progress [OF run healthy_honest [OF material_db(1)] material_db(4)] t
    unfolding acknowledged_row_def by auto
  ultimately show ?thesis using run by blast
qed

lemma sample_failure:
  "\<exists>d'. AppInstanceMaterializationService_RecordFailure True unix_epoch ''i1'' ''mail'' ''v1'' 0 ''boom'' material_db =
     (Inr (recordToAppInstanceMaterialization (failed_record unix_epoch 0 ''boom'' stale_record)), d') \<and>
     db_rows d' StoreAppInstanceMaterializations = [(''m1'', failed_record unix_epoch 0 ''boom'' stale_record)]"
proof -
  let ?d = "material_db\<lparr>db_tick := Suc (db_tick material_db)\<rparr>" and ?f = "failed_record unix_epoch 0 ''boom''"
  let ?d2 = "?d\<lparr>db_tick := Suc (db_tick ?d)\<rparr>"
  have i: "record_id (?f stale_record) = ''m1''" using stale_fields(3) by (simp add: failed_record_def record_id_def)
  then obtain d3 where put: "store_Put StoreAppInstanceMaterializations (?f stale_record) ?d2 = (Inr (), d3)"
      and h: "db_healthy d3"
    using put_single [of ?d2] by auto
  have rows: "db_rows d3 StoreAppInstanceMaterializations = [(''m1'', ?f stale_record)]"
    using write_rows(1) [OF put] i by (simp add: row_put_def)
  have body: "record_failure_body ''i1'' ''mail'' ''v1'' ?f ?d =
      (TxCommit ''record app instance materialization failure: commit'' (recordToAppInstanceMaterialization (?f stale_record)), d3)"
    using put instance_rows_single [of ?d] by (simp add: record_failure_body_def sample_texts)
  from with_tx_healthy [where body = "record_failure_body ''i1'' ''mail'' ''v1'' ?f", OF material_db(1) body h]
  show ?thesis
    using rows by (simp add: AppInstanceMaterializationService_RecordFailure_def)
qed

theorem failure_counts_once_witness:
  "\<exists>m d'. AppInstanceMaterializationService_RecordFailure True unix_epoch ''i1'' ''mail'' ''v1'' 0 ''boom'' material_db =
       (Inr m, d') \<and> ma_AttemptCount m = 4"
proof -
  let ?m = "recordToAppInstanceMaterialization (failed_record unix_epoch 0 ''boom'' stale_record)"
  obtain d' where run: "AppInstanceMaterializationService_RecordFailure True unix_epoch ''i1'' ''mail'' ''v1'' 0 ''boom''
      material_db = (Inr ?m, d')"
    using sample_failure by blast
  obtain k rec where "map_of (db_rows material_db StoreAppInstanceMaterializations) k = Some rec"
    and m: "?m = (recordToAppInstanceMaterialization rec)
      \<lparr>ma_AttemptCount := wrap64 (ma_AttemptCount (recordToAppInstanceMaterialization rec) + 1),
       ma_LastErrorAt := truncate_ms (if (0 :: time) = 0 then unix_epoch else 0), ma_LastErrorMessage := TrimSpace ''boom''\<rparr>"
    using failure_counts_once [OF run material_db(4), unfolded sum.case] by blast
  then have "rec = stale_record" by (simp split: if_splits)
  moreover have "wrap64 4 = 4" by code_simp
  ultimately have "ma_AttemptCount ?m = 4"
    using arg_cong [OF m, of ma_AttemptCount] stale_fields(6)
    by (simp add: recordToAppInstanceMaterialization_def [of stale_record])
  then show ?thesis using run by blast
qed


end
