(* ===== verification/Rollout_History.thy ===== *)
theory Rollout_History
  imports Source_Versions Change_Requests
begin

text \<open>
  What is remembered of finished rollouts: the outcome of each change request
  (\<^verbatim>\<open>internal/coredata/app_version_rollout_outcomes.go\<close>) and the recovery of a failed one
  (\<^verbatim>\<open>internal/coredata/app_version_recovery_observations.go\<close>). Both are written once.
\<close>

subsection \<open>Outcomes\<close>

record AppVersionRolloutOutcome =
  oc_ID :: string
  oc_App :: string
  oc_Version :: string
  oc_CompletedAt :: time
  oc_FailedAt :: time

definition recordToAppVersionRolloutOutcome :: "rec \<Rightarrow> AppVersionRolloutOutcome" where
  "recordToAppVersionRolloutOutcome rec =
     \<lparr>oc_ID = recString rec ''id'', oc_App = recString rec ''app'', oc_Version = recString rec ''version'',
      oc_CompletedAt = recTime rec ''completed_at'', oc_FailedAt = recTime rec ''failed_at''\<rparr>"

definition ensureAppVersionRolloutOutcomesStore :: "db \<Rightarrow> unit result \<times> db" where
  "ensureAppVersionRolloutOutcomesStore d =
     (case CreateObjectStore StoreAppVersionRolloutOutcomes AppVersionRolloutOutcomesSchema d of
        (Inl err, d) \<Rightarrow> (Inl (Wrapf ''ensure app_version_rollout_outcomes store'' err), d)
      | (Inr _, d) \<Rightarrow> (Inr (), d))"

definition AppVersionRolloutOutcomeService_EnsureStore :: "bool \<Rightarrow> db \<Rightarrow> unit result \<times> db" where
  "AppVersionRolloutOutcomeService_EnsureStore s d =
     (if \<not> s then (Inl (Errorf ''ensure app version rollout outcomes store: service is not configured''), d)
      else ensureAppVersionRolloutOutcomesStore d)"

definition AppVersionRolloutOutcomeService_Get ::
  "bool \<Rightarrow> string \<Rightarrow> db \<Rightarrow> AppVersionRolloutOutcome result \<times> db" where
  "AppVersionRolloutOutcomeService_Get s changeRequestID d =
     (if \<not> s then (Inl (Errorf ''get app version rollout outcome: service is not configured''), d)
      else if TrimSpace changeRequestID = ''''
      then (Inl (Errorf ''get app version rollout outcome: change request id is required''), d)
      else
        (case store_Get StoreAppVersionRolloutOutcomes (TrimSpace changeRequestID) d of
           (Inl err, d) \<Rightarrow>
             (Inl (if errors_is err ErrNotFound_idb then ErrNotFound
                else Wrapf ''get app version rollout outcome'' err), d)
         | (Inr rec, d) \<Rightarrow> (Inr (recordToAppVersionRolloutOutcome rec), d)))"

text \<open>The loop of the two \<^verbatim>\<open>GetMany\<close>: identifiers that are blank or not found are left out.\<close>

fun get_many ::
  "(string \<Rightarrow> db \<Rightarrow> 'a result \<times> db) \<Rightarrow> string list \<Rightarrow> (string \<times> 'a) list \<Rightarrow> db \<Rightarrow> (string \<times> 'a) list result \<times> db" where
  "get_many get [] out d = (Inr out, d)"
| "get_many get (i # is) out d =
     (if TrimSpace i = '''' then get_many get is out d
      else
        (case get (TrimSpace i) d of
           (Inl err, d) \<Rightarrow> (if errors_is err ErrNotFound then get_many get is out d else (Inl err, d))
         | (Inr a, d) \<Rightarrow> get_many get is (AList.update (TrimSpace i) a out) d))"

definition AppVersionRolloutOutcomeService_GetMany where
  "AppVersionRolloutOutcomeService_GetMany s changeRequestIDs d =
     (if \<not> s then (Inl (Errorf ''get app version rollout outcomes: service is not configured''), d)
      else get_many (AppVersionRolloutOutcomeService_Get s) changeRequestIDs [] d)"

definition outcome_record :: "string \<Rightarrow> string \<Rightarrow> string \<Rightarrow> time \<Rightarrow> time \<Rightarrow> rec" where
  "outcome_record changeRequestID app version completedAt failedAt =
     (let rec = [''id'' \<mapsto> VString changeRequestID, ''app'' \<mapsto> VString app, ''version'' \<mapsto> VString version];
          completed = (if completedAt \<noteq> 0 then rec(''completed_at'' \<mapsto> VTime (truncate_ms completedAt)) else rec)
      in if failedAt \<noteq> 0 then completed(''failed_at'' \<mapsto> VTime (truncate_ms failedAt)) else completed)"

definition record_outcome :: "bool \<Rightarrow> string \<Rightarrow> string \<Rightarrow> string \<Rightarrow> time \<Rightarrow> time \<Rightarrow> db \<Rightarrow> unit result \<times> db" where
  "record_outcome s changeRequestID0 app0 version0 completedAt failedAt d =
     (let changeRequestID = TrimSpace changeRequestID0; app = TrimSpace app0; version = TrimSpace version0
      in if \<not> s then (Inl (Errorf ''record app version rollout outcome: service is not configured''), d)
         else if changeRequestID = '''' \<or> app = '''' \<or> version = ''''
         then (Inl (Errorf ''record app version rollout outcome: change request id, app, and version are required''), d)
         else if (completedAt = 0) = (failedAt = 0)
         then (Inl (Errorf ''record app version rollout outcome: exactly one terminal timestamp is required''), d)
         else
           (case AppVersionRolloutOutcomeService_EnsureStore s d of
              (Inl err, d) \<Rightarrow> (Inl err, d)
            | (Inr _, d) \<Rightarrow>
                (case AppVersionRolloutOutcomeService_Get s changeRequestID d of
                   (Inr _, d) \<Rightarrow> (Inr (), d)
                 | (Inl err, d) \<Rightarrow>
                     (if \<not> errors_is err ErrNotFound then (Inl err, d)
                      else
                        (case store_Add StoreAppVersionRolloutOutcomes
                            (outcome_record changeRequestID app version completedAt failedAt) d of
                           (Inl err, d) \<Rightarrow>
                             (if errors_is err ErrAlreadyExists_idb then (Inr (), d)
                              else (Inl (Wrapf ''record app version rollout outcome'' err), d))
                         | (Inr _, d) \<Rightarrow> (Inr (), d))))))"

definition AppVersionRolloutOutcomeService_RecordComplete where
  "AppVersionRolloutOutcomeService_RecordComplete s changeRequestID app version completedAt =
     record_outcome s changeRequestID app version completedAt 0"

definition AppVersionRolloutOutcomeService_RecordFailed where
  "AppVersionRolloutOutcomeService_RecordFailed s changeRequestID app version failedAt =
     record_outcome s changeRequestID app version 0 failedAt"

subsection \<open>Recoveries\<close>

record AppVersionRecoveryObservation =
  rv_ID :: string
  rv_App :: string
  rv_Version :: string
  rv_RecoveredAt :: time
  rv_SourceVersion :: string
  rv_LiveInstances :: int
  rv_MinimumHealthyInstances :: int

definition recordToAppVersionRecoveryObservation :: "rec \<Rightarrow> AppVersionRecoveryObservation" where
  "recordToAppVersionRecoveryObservation rec =
     \<lparr>rv_ID = recString rec ''id'', rv_App = recString rec ''app'', rv_Version = recString rec ''version'',
      rv_RecoveredAt = recTime rec ''recovered_at'', rv_SourceVersion = recString rec ''source_version'',
      rv_LiveInstances = recordInt rec ''live_instances'',
      rv_MinimumHealthyInstances = recordInt rec ''minimum_healthy_instances''\<rparr>"

definition recovery_record :: "AppVersionRecoveryObservation \<Rightarrow> rec" where
  "recovery_record normalized = [
     ''id'' \<mapsto> VString (rv_ID normalized),
     ''app'' \<mapsto> VString (rv_App normalized),
     ''version'' \<mapsto> VString (rv_Version normalized),
     ''recovered_at'' \<mapsto> VTime (rv_RecoveredAt normalized),
     ''source_version'' \<mapsto> VString (rv_SourceVersion normalized),
     ''live_instances'' \<mapsto> VInt (rv_LiveInstances normalized),
     ''minimum_healthy_instances'' \<mapsto> VInt (rv_MinimumHealthyInstances normalized)]"

definition normalized_recovery :: "AppVersionRecoveryObservation \<Rightarrow> AppVersionRecoveryObservation" where
  "normalized_recovery observation =
     \<lparr>rv_ID = TrimSpace (rv_ID observation), rv_App = TrimSpace (rv_App observation),
      rv_Version = TrimSpace (rv_Version observation), rv_RecoveredAt = truncate_ms (rv_RecoveredAt observation),
      rv_SourceVersion = TrimSpace (rv_SourceVersion observation), rv_LiveInstances = rv_LiveInstances observation,
      rv_MinimumHealthyInstances = rv_MinimumHealthyInstances observation\<rparr>"

definition appVersionRecoveryObservationRecord ::
  "AppVersionRecoveryObservation option \<Rightarrow> (rec \<times> AppVersionRecoveryObservation) result" where
  "appVersionRecoveryObservationRecord observation0 =
     (case observation0 of
        None \<Rightarrow> Inl (Errorf ''record is required'')
      | Some observation \<Rightarrow>
          (let normalized = normalized_recovery observation
           in if rv_ID normalized = '''' \<or> rv_App normalized = '''' \<or> rv_Version normalized = '''' \<or>
                rv_SourceVersion normalized = ''''
              then Inl (Errorf ''change request id, app, version, and source version are required'')
              else if rv_RecoveredAt observation = 0 then Inl (Errorf ''recovered at is required'')
              else if rv_LiveInstances normalized < 0 \<or> rv_MinimumHealthyInstances normalized < 0
              then Inl (Errorf ''instance counts must not be negative'')
              else Inr (recovery_record normalized, normalized)))"

definition AppVersionRecoveryObservationService_Get ::
  "bool \<Rightarrow> string \<Rightarrow> db \<Rightarrow> AppVersionRecoveryObservation result \<times> db" where
  "AppVersionRecoveryObservationService_Get s changeRequestID d =
     (if \<not> s then (Inl (Errorf ''get app version recovery observation: service is not configured''), d)
      else if TrimSpace changeRequestID = ''''
      then (Inl (Errorf ''get app version recovery observation: change request id is required''), d)
      else
        (case store_Get StoreAppVersionRecoveryObservations (TrimSpace changeRequestID) d of
           (Inl err, d) \<Rightarrow>
             (Inl (if errors_is err ErrNotFound_idb then ErrNotFound
                else Wrapf ''get app version recovery observation'' err), d)
         | (Inr rec, d) \<Rightarrow> (Inr (recordToAppVersionRecoveryObservation rec), d)))"

definition AppVersionRecoveryObservationService_GetMany where
  "AppVersionRecoveryObservationService_GetMany s changeRequestIDs d =
     (if \<not> s then (Inl (Errorf ''get app version recovery observations: service is not configured''), d)
      else get_many (AppVersionRecoveryObservationService_Get s) changeRequestIDs [] d)"

definition AppVersionRecoveryObservationService_Record ::
  "bool \<Rightarrow> AppVersionRecoveryObservation option \<Rightarrow> db \<Rightarrow> AppVersionRecoveryObservation result \<times> db" where
  "AppVersionRecoveryObservationService_Record s observation d =
     (if \<not> s then (Inl (Errorf ''record app version recovery observation: service is not configured''), d)
      else
        (case appVersionRecoveryObservationRecord observation of
           Inl err \<Rightarrow> (Inl (Wrapf ''record app version recovery observation'' err), d)
         | Inr (rec, normalized) \<Rightarrow>
             (case store_Add StoreAppVersionRecoveryObservations rec d of
                (Inl err, d) \<Rightarrow>
                  (if errors_is err ErrAlreadyExists_idb
                   then AppVersionRecoveryObservationService_Get s (rv_ID normalized) d
                   else (Inl (Wrapf ''record app version recovery observation'' err), d))
              | (Inr _, d) \<Rightarrow> (Inr normalized, d))))"

subsection \<open>The fenced recovery\<close>

text \<open>The stages of the transaction body, each the rest of the body from its read on.\<close>

definition recovery_add_message :: string where
  "recovery_add_message = ''record fenced app version recovery observation: add''"

definition recovery_commit_message :: string where
  "recovery_commit_message = ''record fenced app version recovery observation: commit''"

type_synonym recovery_end = "(AppVersionRecoveryObservation option \<times> bool) tx_end"

definition recovery_add :: "AppVersionRecoveryObservation \<Rightarrow> db \<Rightarrow> recovery_end \<times> db" where
  "recovery_add normalized d =
     (case store_Add StoreAppVersionRecoveryObservations (recovery_record normalized) d of
        (Inl err, d) \<Rightarrow> (TxFail (Wrapf recovery_add_message err), d)
      | (Inr _, d) \<Rightarrow> (TxCommit recovery_commit_message (Some normalized, True), d))"

definition recovery_source :: "AppVersionRecoveryObservation \<Rightarrow> db \<Rightarrow> recovery_end \<times> db" where
  "recovery_source normalized d =
     (case store_Get StoreGestaltdSourceVersionState gestaltdSourceVersionStateID d of
        (Inl err, d) \<Rightarrow>
          (if errors_is err ErrNotFound_idb then (TxReturn (None, False), d)
           else (TxFail (Wrapf ''record fenced app version recovery observation: load source state'' err), d))
      | (Inr sourceRec, d) \<Rightarrow>
          (let source = recordToGestaltdSourceVersionState sourceRec
           in if TrimSpace (sv_CurrentSourceVersion source) \<noteq> rv_SourceVersion normalized \<or>
                sv_MinimumHealthyInstances source \<noteq> rv_MinimumHealthyInstances normalized
              then (TxReturn (None, False), d)
              else recovery_add normalized d))"

definition recovery_outcome :: "AppVersionRecoveryObservation \<Rightarrow> db \<Rightarrow> recovery_end \<times> db" where
  "recovery_outcome normalized d =
     (case store_Get StoreAppVersionRolloutOutcomes (rv_ID normalized) d of
        (Inl err, d) \<Rightarrow>
          (if errors_is err ErrNotFound_idb then (TxReturn (None, False), d)
           else (TxFail (Wrapf ''record fenced app version recovery observation: load rollout outcome'' err), d))
      | (Inr outcomeRec, d) \<Rightarrow>
          (let outcome = recordToAppVersionRolloutOutcome outcomeRec
           in if oc_App outcome \<noteq> rv_App normalized \<or> oc_Version outcome \<noteq> rv_Version normalized \<or>
                oc_FailedAt outcome = 0 \<or> oc_CompletedAt outcome \<noteq> 0
              then (TxReturn (None, False), d)
              else recovery_source normalized d))"

definition recovery_body ::
  "(string \<Rightarrow> (string \<times> val) list option) \<Rightarrow> AppVersionRecoveryObservation \<Rightarrow> db \<Rightarrow> recovery_end \<times> db" where
  "recovery_body unmarshal normalized d =
     (case store_Get StoreAppVersionRecoveryObservations (rv_ID normalized) d of
        (Inr existing, d) \<Rightarrow> (TxReturn (Some (recordToAppVersionRecoveryObservation existing), True), d)
      | (Inl err, d) \<Rightarrow>
          (if \<not> errors_is err ErrNotFound_idb
           then (TxFail (Wrapf ''record fenced app version recovery observation: load existing'' err), d)
           else
             (case index_GetAll StoreAppVersionChangeRequests [''app''] (Only (KString (rv_App normalized))) d of
                (Inl err, d) \<Rightarrow>
                  (TxFail (Wrapf ''record fenced app version recovery observation: load change requests'' err), d)
              | (Inr requests, d) \<Rightarrow>
                  (let changeRequests = map (recordToAppVersionChangeRequest unmarshal) requests;
                       desiredVersion = LatestKnownVersion (knownVersionsFromRequests changeRequests);
                       desiredRevisionID = latestDesiredRevisionID changeRequests desiredVersion
                   in if desiredVersion \<noteq> rv_Version normalized \<or> desiredRevisionID \<noteq> rv_ID normalized
                      then (TxReturn (None, False), d)
                      else recovery_outcome normalized d))))"

text \<open>An add or a commit that fails because another instance recorded the recovery first.\<close>

definition recorded_concurrently :: "error \<Rightarrow> bool" where
  "recorded_concurrently err =
     (case err of
        Wrapf m e \<Rightarrow> (m = recovery_add_message \<or> m = recovery_commit_message) \<and> errors_is e ErrAlreadyExists_idb
      | _ \<Rightarrow> False)"

definition AppVersionRecoveryObservationService_RecordIfCurrentFailed where
  "AppVersionRecoveryObservationService_RecordIfCurrentFailed unmarshal s observation d =
     (if \<not> s then (Inl (Errorf ''record fenced app version recovery observation: service is not configured''), d)
      else
        (case appVersionRecoveryObservationRecord observation of
           Inl err \<Rightarrow> (Inl (Wrapf ''record fenced app version recovery observation'' err), d)
         | Inr (rec, normalized) \<Rightarrow>
             (case with_tx ''record fenced app version recovery observation: begin transaction''
                 (recovery_body unmarshal normalized) d of
                (Inr x, d) \<Rightarrow> (Inr x, d)
              | (Inl err, d) \<Rightarrow>
                  (if recorded_concurrently err
                   then
                     (case AppVersionRecoveryObservationService_Get s (rv_ID normalized) d of
                        (Inl getErr, d) \<Rightarrow>
                          (Inl (Wrapf ''record fenced app version recovery observation: load concurrent observation'' getErr), d)
                      | (Inr existing, d) \<Rightarrow> (Inr (Some existing, True), d))
                   else (Inl err, d)))))"

subsection \<open>What each call adds\<close>

definition adds :: "string \<Rightarrow> rec \<Rightarrow> contents \<Rightarrow> contents \<Rightarrow> bool" where
  "adds n rec c c' \<longleftrightarrow> map_of (c n) (record_id rec) = None \<and> c' = row_put n rec c"

lemma store_Add_adds:
  assumes "store_Add n rec d = (y, d')"
  shows "case y of Inl _ \<Rightarrow> db_rows d' = db_rows d | Inr _ \<Rightarrow> adds n rec (db_rows d) (db_rows d')"
  using write_rows(2) [OF assms] store_Add_Inr(2) assms by (auto simp: adds_def split: sum.splits)

lemma outcome_Get_rows: "AppVersionRolloutOutcomeService_Get s i d = (y, d') \<Longrightarrow> db_rows d' = db_rows d"
  by (auto simp: AppVersionRolloutOutcomeService_Get_def dest: read_rows split: if_splits prod.splits sum.splits)

lemma recovery_Get_rows: "AppVersionRecoveryObservationService_Get s i d = (y, d') \<Longrightarrow> db_rows d' = db_rows d"
  by (auto simp: AppVersionRecoveryObservationService_Get_def dest: read_rows split: if_splits prod.splits sum.splits)

lemma EnsureStore_rows: "AppVersionRolloutOutcomeService_EnsureStore s d = (y, d') \<Longrightarrow> db_rows d' = db_rows d"
  by (auto simp: AppVersionRolloutOutcomeService_EnsureStore_def ensureAppVersionRolloutOutcomesStore_def
      dest: CreateObjectStore_run(1) split: if_splits prod.splits sum.splits)

lemma record_outcome_rows:
  assumes "record_outcome s i app v completedAt failedAt d = (y, d')"
  shows "db_rows d' = db_rows d \<or>
    y = Inr () \<and> (completedAt = 0) \<noteq> (failedAt = 0) \<and>
    adds StoreAppVersionRolloutOutcomes (outcome_record (TrimSpace i) (TrimSpace app) (TrimSpace v) completedAt failedAt)
      (db_rows d) (db_rows d')"
proof -
  let ?rec = "outcome_record (TrimSpace i) (TrimSpace app) (TrimSpace v) completedAt failedAt"
  obtain y1 d1 where 1: "AppVersionRolloutOutcomeService_EnsureStore s d = (y1, d1)" by fastforce
  obtain y2 d2 where 2: "AppVersionRolloutOutcomeService_Get s (TrimSpace i) d1 = (y2, d2)" by fastforce
  obtain y3 d3 where 3: "store_Add StoreAppVersionRolloutOutcomes ?rec d2 = (y3, d3)" by fastforce
  have "d' = d \<or> d' = d1 \<or> d' = d2 \<or> d' = d3 \<and> (y3 = Inr () \<longrightarrow> y = Inr () \<and> (completedAt = 0) \<noteq> (failedAt = 0))"
    using assms 1 2 3 by (auto simp: record_outcome_def Let_def split: if_splits sum.splits)
  moreover have "db_rows d1 = db_rows d" "db_rows d2 = db_rows d"
    using EnsureStore_rows [OF 1] outcome_Get_rows [OF 2] by simp_all
  ultimately show ?thesis using store_Add_adds [OF 3] by (cases y3) auto
qed

lemma Record_rows:
  assumes "AppVersionRecoveryObservationService_Record s ob d = (y, d')"
  shows "db_rows d' = db_rows d \<or>
    (\<exists>n. y = Inr n \<and> adds StoreAppVersionRecoveryObservations (recovery_record n) (db_rows d) (db_rows d'))"
proof (cases "appVersionRecoveryObservationRecord ob")
  case (Inl e)
  then show ?thesis using assms by (auto simp: AppVersionRecoveryObservationService_Record_def split: if_splits)
next
  case (Inr p)
  obtain n where n: "p = (recovery_record n, n)"
    using Inr by (auto simp: appVersionRecoveryObservationRecord_def Let_def split: option.splits if_splits)
  obtain y1 d1 where 1: "store_Add StoreAppVersionRecoveryObservations (recovery_record n) d = (y1, d1)" by fastforce
  obtain y2 d2 where 2: "AppVersionRecoveryObservationService_Get s (rv_ID n) d1 = (y2, d2)" by fastforce
  have "d' = d \<or> (\<exists>e. y1 = Inl e) \<and> (d' = d1 \<or> d' = d2) \<or> y1 = Inr () \<and> d' = d1 \<and> y = Inr n"
    using assms Inr n 1 2 by (auto simp: AppVersionRecoveryObservationService_Record_def split: if_splits sum.splits)
  then show ?thesis
    using store_Add_adds [OF 1] recovery_Get_rows [OF 2] by (auto split: sum.splits)
qed

subsection \<open>The fence\<close>

text \<open>When a recovery may be recorded, in terms of the rows.\<close>

definition recovery_allowed ::
  "(string \<Rightarrow> (string \<times> val) list option) \<Rightarrow> AppVersionRecoveryObservation \<Rightarrow> contents \<Rightarrow> bool" where
  "recovery_allowed unmarshal n c \<longleftrightarrow>
     (let requests = map (recordToAppVersionChangeRequest unmarshal)
            (rows_index_GetAll (c StoreAppVersionChangeRequests) [''app''] (Only (KString (rv_App n))))
      in LatestKnownVersion (knownVersionsFromRequests requests) = rv_Version n \<and>
         latestDesiredRevisionID requests (rv_Version n) = rv_ID n) \<and>
     (\<exists>r. map_of (c StoreAppVersionRolloutOutcomes) (rv_ID n) = Some r \<and>
       oc_App (recordToAppVersionRolloutOutcome r) = rv_App n \<and>
       oc_Version (recordToAppVersionRolloutOutcome r) = rv_Version n \<and>
       oc_FailedAt (recordToAppVersionRolloutOutcome r) \<noteq> 0 \<and>
       oc_CompletedAt (recordToAppVersionRolloutOutcome r) = 0) \<and>
     (\<exists>r. map_of (c StoreGestaltdSourceVersionState) gestaltdSourceVersionStateID = Some r \<and>
       TrimSpace (sv_CurrentSourceVersion (recordToGestaltdSourceVersionState r)) = rv_SourceVersion n \<and>
       sv_MinimumHealthyInstances (recordToGestaltdSourceVersionState r) = rv_MinimumHealthyInstances n)"

lemma recovery_add_commit:
  assumes "recovery_add n d = (TxCommit msg y, d')"
  shows "y = (Some n, True) \<and> adds StoreAppVersionRecoveryObservations (recovery_record n) (db_rows d) (db_rows d')"
proof -
  obtain z d1 where z: "store_Add StoreAppVersionRecoveryObservations (recovery_record n) d = (z, d1)" by fastforce
  show ?thesis using assms store_Add_adds [OF z] z by (cases z) (auto simp: recovery_add_def)
qed

lemma recovery_source_commit:
  assumes "recovery_source n d = (TxCommit msg y, d')"
  shows "\<exists>r d1. map_of (db_rows d StoreGestaltdSourceVersionState) gestaltdSourceVersionStateID = Some r \<and>
    TrimSpace (sv_CurrentSourceVersion (recordToGestaltdSourceVersionState r)) = rv_SourceVersion n \<and>
    sv_MinimumHealthyInstances (recordToGestaltdSourceVersionState r) = rv_MinimumHealthyInstances n \<and>
    recovery_add n d1 = (TxCommit msg y, d') \<and> db_rows d1 = db_rows d"
proof -
  obtain z d1 where z: "store_Get StoreGestaltdSourceVersionState gestaltdSourceVersionStateID d = (z, d1)" by fastforce
  show ?thesis
    using assms z read_rows(1) [OF z] store_Get_Inr
    by (cases z) (auto simp: recovery_source_def Let_def split: if_splits)
qed

lemma recovery_outcome_commit:
  assumes "recovery_outcome n d = (TxCommit msg y, d')"
  shows "\<exists>r d1. map_of (db_rows d StoreAppVersionRolloutOutcomes) (rv_ID n) = Some r \<and>
    oc_App (recordToAppVersionRolloutOutcome r) = rv_App n \<and>
    oc_Version (recordToAppVersionRolloutOutcome r) = rv_Version n \<and>
    oc_FailedAt (recordToAppVersionRolloutOutcome r) \<noteq> 0 \<and>
    oc_CompletedAt (recordToAppVersionRolloutOutcome r) = 0 \<and>
    recovery_source n d1 = (TxCommit msg y, d') \<and> db_rows d1 = db_rows d"
proof -
  obtain z d1 where z: "store_Get StoreAppVersionRolloutOutcomes (rv_ID n) d = (z, d1)" by fastforce
  show ?thesis
    using assms z read_rows(1) [OF z] store_Get_Inr
    by (cases z) (auto simp: recovery_outcome_def Let_def split: if_splits)
qed

lemma recovery_body_commit:
  assumes "recovery_body unmarshal n d = (TxCommit msg y, d')"
  shows "y = (Some n, True)" and "recovery_allowed unmarshal n (db_rows d)"
    and "adds StoreAppVersionRecoveryObservations (recovery_record n) (db_rows d) (db_rows d')"
proof -
  obtain z d1 where z: "store_Get StoreAppVersionRecoveryObservations (rv_ID n) d = (z, d1)" by fastforce
  obtain g d2 where g: "index_GetAll StoreAppVersionChangeRequests [''app''] (Only (KString (rv_App n))) d1 = (g, d2)"
    by fastforce
  obtain recs where recs: "g = Inr recs"
    and v: "LatestKnownVersion (knownVersionsFromRequests (map (recordToAppVersionChangeRequest unmarshal) recs)) = rv_Version n"
    and i: "latestDesiredRevisionID (map (recordToAppVersionChangeRequest unmarshal) recs) (rv_Version n) = rv_ID n"
    and run: "recovery_outcome n d2 = (TxCommit msg y, d')"
    using assms z g by (cases z; cases g) (auto simp: recovery_body_def Let_def split: if_splits)
  have rows: "db_rows d1 = db_rows d" "db_rows d2 = db_rows d" using read_rows(1) [OF z] read_rows(3) [OF g] by simp_all
  have r: "recs = rows_index_GetAll (db_rows d StoreAppVersionChangeRequests) [''app''] (Only (KString (rv_App n)))"
    using index_GetAll_Inr [OF g [unfolded recs]] rows(1) by simp
  from recovery_outcome_commit [OF run] obtain o1 d3 where o: "map_of (db_rows d2 StoreAppVersionRolloutOutcomes) (rv_ID n) = Some o1"
      "oc_App (recordToAppVersionRolloutOutcome o1) = rv_App n" "oc_Version (recordToAppVersionRolloutOutcome o1) = rv_Version n"
      "oc_FailedAt (recordToAppVersionRolloutOutcome o1) \<noteq> 0" "oc_CompletedAt (recordToAppVersionRolloutOutcome o1) = 0"
      and src: "recovery_source n d3 = (TxCommit msg y, d')" and d3: "db_rows d3 = db_rows d2"
    by blast
  from recovery_source_commit [OF src] obtain s1 d4 where
      s: "map_of (db_rows d3 StoreGestaltdSourceVersionState) gestaltdSourceVersionStateID = Some s1"
      "TrimSpace (sv_CurrentSourceVersion (recordToGestaltdSourceVersionState s1)) = rv_SourceVersion n"
      "sv_MinimumHealthyInstances (recordToGestaltdSourceVersionState s1) = rv_MinimumHealthyInstances n"
      and add: "recovery_add n d4 = (TxCommit msg y, d')" and d4: "db_rows d4 = db_rows d3"
    by blast
  show "y = (Some n, True)"
    and "adds StoreAppVersionRecoveryObservations (recovery_record n) (db_rows d) (db_rows d')"
    using recovery_add_commit [OF add] d4 d3 rows(2) by simp_all
  have s': "map_of (db_rows d StoreGestaltdSourceVersionState) gestaltdSourceVersionStateID = Some s1"
    and o': "map_of (db_rows d StoreAppVersionRolloutOutcomes) (rv_ID n) = Some o1"
    using s(1) o(1) d3 rows(2) by simp_all
  show "recovery_allowed unmarshal n (db_rows d)"
    unfolding recovery_allowed_def Let_def r [symmetric] using v i o' o(2-5) s' s(2,3) by blast
qed

lemma recovery_body_return:
  assumes "recovery_body unmarshal n d = (TxReturn (x, recorded), d')"
  shows "case x of None \<Rightarrow> \<not> recorded
    | Some e \<Rightarrow> recorded \<and> (\<exists>r. map_of (db_rows d StoreAppVersionRecoveryObservations) (rv_ID n) = Some r \<and>
        e = recordToAppVersionRecoveryObservation r)"
  using assms store_Get_Inr
  by (fastforce simp: recovery_body_def recovery_outcome_def recovery_source_def recovery_add_def Let_def
      split: if_splits prod.splits sum.splits)

text \<open>The outcome of a call that adds nothing.\<close>

definition unchanged_answer ::
  "string \<Rightarrow> contents \<Rightarrow> (AppVersionRecoveryObservation option \<times> bool) result \<Rightarrow> bool" where
  "unchanged_answer i c x \<longleftrightarrow>
     (case x of
        Inl _ \<Rightarrow> True
      | Inr (None, recorded) \<Rightarrow> \<not> recorded
      | Inr (Some e, recorded) \<Rightarrow> recorded \<and>
          (\<exists>r. map_of (c StoreAppVersionRecoveryObservations) i = Some r \<and> e = recordToAppVersionRecoveryObservation r))"

lemma recovery_Get_Inr:
  "AppVersionRecoveryObservationService_Get s i d = (Inr e, d') \<Longrightarrow>
    \<exists>r. map_of (db_rows d StoreAppVersionRecoveryObservations) (TrimSpace i) = Some r \<and>
      e = recordToAppVersionRecoveryObservation r"
  by (auto simp: AppVersionRecoveryObservationService_Get_def dest!: store_Get_Inr split: if_splits prod.splits sum.splits)

lemma recovery_tx:
  assumes "with_tx m (recovery_body unmarshal n) d = (Inr x, d')"
  shows "db_rows d' = db_rows d \<and> unchanged_answer (rv_ID n) (db_rows d) (Inr x) \<or>
    x = (Some n, True) \<and> recovery_allowed unmarshal n (db_rows d) \<and>
    adds StoreAppVersionRecoveryObservations (recovery_record n) (db_rows d) (db_rows d')"
  using assms
proof (cases rule: with_tx_Inr)
  case (commit d1 d2 msg)
  then show ?thesis
    using recovery_body_commit [OF commit(3)] db_rows_stores [OF commit(1)] db_rows_stores [OF commit(4)] by simp
next
  case (return d1 d2)
  obtain y b where x: "x = (y, b)" by (cases x)
  have "unchanged_answer (rv_ID n) (db_rows d) (Inr x)"
    using recovery_body_return [OF return(3) [unfolded x]] db_rows_stores [OF return(1)]
    by (auto simp: unchanged_answer_def x split: option.splits)
  then show ?thesis using db_rows_stores [OF return(4)] by simp
qed

lemma fenced_rows:
  assumes "AppVersionRecoveryObservationService_RecordIfCurrentFailed unmarshal s (Some ob) d = (x, d')"
  shows "db_rows d' = db_rows d \<and> unchanged_answer (TrimSpace (rv_ID ob)) (db_rows d) x \<or>
    x = Inr (Some (normalized_recovery ob), True) \<and> recovery_allowed unmarshal (normalized_recovery ob) (db_rows d) \<and>
    adds StoreAppVersionRecoveryObservations (recovery_record (normalized_recovery ob)) (db_rows d) (db_rows d')"
proof (cases "appVersionRecoveryObservationRecord (Some ob)")
  case (Inl e)
  then show ?thesis
    using assms by (auto simp: AppVersionRecoveryObservationService_RecordIfCurrentFailed_def unchanged_answer_def
        split: if_splits)
next
  case (Inr p)
  let ?n = "normalized_recovery ob"
  let ?m = "''record fenced app version recovery observation: begin transaction''"
  have p: "p = (recovery_record ?n, ?n)" and i: "rv_ID ?n = TrimSpace (rv_ID ob)"
    using Inr by (auto simp: appVersionRecoveryObservationRecord_def Let_def normalized_recovery_def split: if_splits)
  obtain y d1 where y: "with_tx ?m (recovery_body unmarshal ?n) d = (y, d1)" by fastforce
  obtain z d2 where z: "AppVersionRecoveryObservationService_Get s (rv_ID ?n) d1 = (z, d2)" by fastforce
  show ?thesis
  proof (cases y)
    case y': (Inr a)
    have "d' = d \<and> (\<exists>e. x = Inl e) \<or> x = Inr a \<and> d' = d1"
      using assms Inr p y y' by (auto simp: AppVersionRecoveryObservationService_RecordIfCurrentFailed_def split: if_splits)
    then show ?thesis using recovery_tx [OF y [unfolded y']] i by (auto simp: unchanged_answer_def)
  next
    case y': (Inl e)
    have rows: "db_rows d1 = db_rows d" "db_rows d2 = db_rows d"
      using with_tx_error [OF y [unfolded y']] recovery_Get_rows [OF z] by simp_all
    have "(\<exists>e. x = Inl e) \<and> (d' = d \<or> d' = d1 \<or> d' = d2) \<or> (\<exists>a. z = Inr a \<and> x = Inr (Some a, True) \<and> d' = d2)"
      using assms Inr p y y' z
      by (auto simp: AppVersionRecoveryObservationService_RecordIfCurrentFailed_def split: if_splits sum.splits)
    then show ?thesis
      using rows recovery_Get_Inr z i by (fastforce simp: unchanged_answer_def)
  qed
qed

text \<open>
  C28. A recovery is recorded only for the failure it repairs. A fenced call that adds a row does so
  while, in the same transaction, its version is the latest desired version of the app and its
  change request the latest for it, the outcome of that change request is a failure, the source
  version and the minimum are still the current ones, and no recovery was recorded before. Every
  other call changes nothing; one that answers \<open>recorded\<close> then returns the observation that is
  stored already.
\<close>

theorem recovery_recorded_only_when_current_failed:
  assumes "AppVersionRecoveryObservationService_RecordIfCurrentFailed unmarshal s (Some ob) d = (x, d')"
  shows "db_rows d' = db_rows d \<and> unchanged_answer (TrimSpace (rv_ID ob)) (db_rows d) x \<or>
    x = Inr (Some (normalized_recovery ob), True) \<and> recovery_allowed unmarshal (normalized_recovery ob) (db_rows d) \<and>
    adds StoreAppVersionRecoveryObservations (recovery_record (normalized_recovery ob)) (db_rows d) (db_rows d')"
  by (rule fenced_rows [OF assms])

inductive history_step :: "db \<Rightarrow> db \<Rightarrow> bool" where
  complete: "AppVersionRolloutOutcomeService_RecordComplete s i app v at d = (x, d') \<Longrightarrow> history_step d d'"
| failed: "AppVersionRolloutOutcomeService_RecordFailed s i app v at d = (x, d') \<Longrightarrow> history_step d d'"
| recovered: "AppVersionRecoveryObservationService_Record s ob d = (y, d') \<Longrightarrow> history_step d d'"
| recovered_fenced: "AppVersionRecoveryObservationService_RecordIfCurrentFailed unmarshal s ob d = (z, d') \<Longrightarrow>
    history_step d d'"

lemma history_step_rows:
  assumes "history_step d d'"
  shows "db_rows d' = db_rows d \<or> (\<exists>n rec. adds n rec (db_rows d) (db_rows d'))"
  using assms
proof (cases rule: history_step.cases)
  case (recovered_fenced unmarshal s ob z)
  then show ?thesis
  proof (cases ob)
    case None
    then show ?thesis
      using recovered_fenced by (auto simp: AppVersionRecoveryObservationService_RecordIfCurrentFailed_def
          appVersionRecoveryObservationRecord_def split: if_splits)
  next
    case (Some a)
    then show ?thesis using fenced_rows [of unmarshal s a d z d'] recovered_fenced by blast
  qed
next
  case (complete s i app v at x)
  then show ?thesis
    using record_outcome_rows [OF complete [unfolded AppVersionRolloutOutcomeService_RecordComplete_def]] by blast
next
  case (failed s i app v at x)
  then show ?thesis
    using record_outcome_rows [OF failed [unfolded AppVersionRolloutOutcomeService_RecordFailed_def]] by blast
next
  case (recovered s ob y)
  then show ?thesis using Record_rows by blast
qed

text \<open>
  C29. History is written once. Through any sequence of outcomes and recoveries being recorded, by
  any callers and with any provider failures, a row that is stored stays exactly as it was first
  written: a later outcome of the same change request does not replace it, and a recovery is not
  rewritten.
\<close>

theorem history_written_once:
  assumes "history_step\<^sup>*\<^sup>* d d'" and "map_of (db_rows d n) k = Some rec"
  shows "map_of (db_rows d' n) k = Some rec"
  using assms
proof (induction rule: rtranclp_induct)
  case (step d1 d2)
  then show ?case using history_step_rows [OF step(2)] by (auto simp: adds_def)
qed

subsection \<open>Instances\<close>

definition recovered_request :: rec where
  "recovered_request = change_request_record '''' 0 (sample_request ''r1'' ''v1'' unix_epoch)"

definition failed_outcome :: rec where
  "failed_outcome = outcome_record ''r1'' ''mail'' ''v1'' 0 unix_epoch"

definition current_source :: rec where
  "current_source = gestaltdSourceVersionStateRecord unix_epoch
     (zero_state\<lparr>sv_CurrentSourceVersion := ''s1'', sv_MinimumHealthyInstances := 1\<rparr>)"

definition recovery_db :: db where
  "recovery_db =
     set_rows StoreAppVersionChangeRequests [(''r1'', recovered_request)]
       (set_rows StoreAppVersionRolloutOutcomes [(''r1'', failed_outcome)]
         (set_rows StoreGestaltdSourceVersionState [(gestaltdSourceVersionStateID, current_source)] empty_db))"

definition sample_recovery :: AppVersionRecoveryObservation where
  "sample_recovery =
     \<lparr>rv_ID = ''r1'', rv_App = ''mail'', rv_Version = ''v1'', rv_RecoveredAt = unix_epoch, rv_SourceVersion = ''s1'',
      rv_LiveInstances = 1, rv_MinimumHealthyInstances = 1\<rparr>"

lemma recovery_db_rows:
  "db_healthy recovery_db" "db_rows recovery_db StoreAppVersionChangeRequests = [(''r1'', recovered_request)]"
  "db_rows recovery_db StoreAppVersionRolloutOutcomes = [(''r1'', failed_outcome)]"
  "db_rows recovery_db StoreGestaltdSourceVersionState = [(gestaltdSourceVersionStateID, current_source)]"
  "db_rows recovery_db StoreAppVersionRecoveryObservations = []"
  by (simp_all add: recovery_db_def store_names)

lemma recovery_projection:
  "LatestKnownVersion (knownVersionsFromRequests [recordToAppVersionChangeRequest (\<lambda>_. None) recovered_request]) = ''v1''"
  "latestDesiredRevisionID [recordToAppVersionChangeRequest (\<lambda>_. None) recovered_request] ''v1'' = ''r1''"
  "normalized_recovery sample_recovery = sample_recovery"
  by code_simp+

lemma recovery_evidence:
  "oc_App (recordToAppVersionRolloutOutcome failed_outcome) = ''mail''"
  "oc_Version (recordToAppVersionRolloutOutcome failed_outcome) = ''v1''"
  "oc_FailedAt (recordToAppVersionRolloutOutcome failed_outcome) \<noteq> 0"
  "oc_CompletedAt (recordToAppVersionRolloutOutcome failed_outcome) = 0"
  "TrimSpace (sv_CurrentSourceVersion (recordToGestaltdSourceVersionState current_source)) = ''s1''"
  "sv_MinimumHealthyInstances (recordToGestaltdSourceVersionState current_source) = 1"
  by code_simp+

lemma request_by_app:
  "rows_index_GetAll [(''r1'', recovered_request)] [''app''] (Only (KString ''mail'')) = [recovered_request]"
proof -
  have "recovered_request ''app'' = Some (VString ''mail'')" by code_simp
  from index_key_text [of recovered_request, OF this] show ?thesis
    by (simp add: rows_index_GetAll_def Only_def KeyInRange_def del: CompareKeys.simps)
qed

lemma recovery_body_sample:
  assumes "db_healthy d" and "db_rows d = db_rows recovery_db"
    and "\<And>r. \<not> hasUniqueConflict (db_stores d StoreAppVersionRecoveryObservations) r None"
  shows "\<exists>d'. recovery_body (\<lambda>_. None) sample_recovery d = (TxCommit recovery_commit_message (Some sample_recovery, True), d') \<and>
    db_healthy d'"
proof -
  have "recovery_add sample_recovery (d\<lparr>db_tick := t\<rparr>) =
      (TxCommit recovery_commit_message (Some sample_recovery, True),
       set_rows StoreAppVersionRecoveryObservations
         (AList.update (record_id (recovery_record sample_recovery)) (recovery_record sample_recovery) [])
         (d\<lparr>db_tick := Suc t\<rparr>))" for t
    using healthy_store(6) [of "d\<lparr>db_tick := t\<rparr>" StoreAppVersionRecoveryObservations "recovery_record sample_recovery"]
      assms recovery_db_rows(5) by (simp add: recovery_add_def)
  then show ?thesis
    using assms(1,2) recovery_db_rows recovery_evidence recovery_projection request_by_app
    by (simp add: recovery_body_def recovery_outcome_def recovery_source_def healthy_store sample_recovery_def Let_def)
qed

theorem recovery_recorded_only_when_current_failed_witness:
  "\<exists>d'. AppVersionRecoveryObservationService_RecordIfCurrentFailed (\<lambda>_. None) True (Some sample_recovery) recovery_db =
       (Inr (Some sample_recovery, True), d') \<and>
     recovery_allowed (\<lambda>_. None) sample_recovery (db_rows recovery_db)"
proof -
  let ?d = "recovery_db\<lparr>db_tick := Suc (db_tick recovery_db)\<rparr>"
  have ok: "appVersionRecoveryObservationRecord (Some sample_recovery) = Inr (recovery_record sample_recovery, sample_recovery)"
  proof -
    have "rv_RecoveredAt sample_recovery \<noteq> 0" by code_simp
    then show ?thesis
      unfolding appVersionRecoveryObservationRecord_def option.case Let_def recovery_projection(3)
      by (simp add: sample_recovery_def)
  qed
  have "\<not> hasUniqueConflict (db_stores ?d StoreAppVersionRecoveryObservations) r None" for r
    using recovery_db_rows(5) by (simp add: hasUniqueConflict_def db_rows_def list_ex_iff)
  then obtain d1 where body: "recovery_body (\<lambda>_. None) sample_recovery ?d =
      (TxCommit recovery_commit_message (Some sample_recovery, True), d1)" and h: "db_healthy d1"
    using recovery_body_sample [of ?d] recovery_db_rows(1) by auto
  from with_tx_healthy [where body = "recovery_body (\<lambda>_. None) sample_recovery", OF recovery_db_rows(1) body h]
  obtain d' where run: "AppVersionRecoveryObservationService_RecordIfCurrentFailed (\<lambda>_. None) True (Some sample_recovery) recovery_db =
      (Inr (Some sample_recovery, True), d')"
    by (simp add: AppVersionRecoveryObservationService_RecordIfCurrentFailed_def ok)
  from recovery_recorded_only_when_current_failed [OF run] have "recovery_allowed (\<lambda>_. None) sample_recovery (db_rows recovery_db)"
    using recovery_db_rows(5) by (simp add: unchanged_answer_def recovery_projection(3))
  then show ?thesis using run by blast
qed

theorem history_written_once_witness:
  "map_of (db_rows (snd (AppVersionRolloutOutcomeService_RecordComplete True ''r1'' ''mail'' ''v1''
      (unix_epoch + 1000000000) recovery_db)) StoreAppVersionRolloutOutcomes) ''r1'' = Some failed_outcome"
proof (rule history_written_once)
  show "history_step\<^sup>*\<^sup>* recovery_db (snd (AppVersionRolloutOutcomeService_RecordComplete True ''r1'' ''mail'' ''v1''
      (unix_epoch + 1000000000) recovery_db))"
    using history_step.complete [OF surjective_pairing] by blast
  show "map_of (db_rows recovery_db StoreAppVersionRolloutOutcomes) ''r1'' = Some failed_outcome"
    using recovery_db_rows(3) by simp
qed

end
