(* ===== verification/Fleet_State.thy ===== *)
theory Fleet_State
  imports Source_Versions Heartbeats
begin

text \<open>
  The health of an app across the instances of a source version,
  \<^verbatim>\<open>internal/appregistry/fleet_state.go\<close>: one pass over the fresh heartbeats counts and classifies
  the replicas, and the projector feeds it from the core-data services it is configured with. The
  flags of the projector say which of its interfaces are set.
\<close>

subsection \<open>Data\<close>

datatype AppFleetState = AppFleetStateHealthy | AppFleetStateConverging | AppFleetStateDegraded | AppFleetStateUnknown

datatype AppFleetReplicaClass =
    AppFleetReplicaClassOnDesired
  | AppFleetReplicaClassNotRunning
  | AppFleetReplicaClassMismatched
  | AppFleetReplicaClassError

record AppFleetReplicaObservation =
  rp_InstanceID :: string
  rp_StartedAt :: time
  rp_HeartbeatAt :: time
  rp_AppState :: GestaltdInstanceAppState
  rp_RunningVersion :: string
  rp_ObservedDesiredVersion :: string
  rp_ObservedAt :: time
  rp_LastError :: string
  rp_Class :: AppFleetReplicaClass

record AppFleetProjection =
  fp_App :: string
  fp_State :: AppFleetState
  fp_SourceVersion :: string
  fp_DesiredVersion :: string
  fp_MinimumHealthyInstances :: int
  fp_LiveInstances :: int
  fp_RunningDesiredVersion :: int
  fp_NotRunning :: int
  fp_Mismatched :: int
  fp_Errors :: int
  fp_HeartbeatTTL :: duration
  fp_EvaluatedAt :: time
  fp_Replicas :: "AppFleetReplicaObservation list"

record FleetEvaluation =
  fe_App :: string
  fe_DesiredVersion :: string
  fe_SourceVersion :: string
  fe_MinimumHealthyInstances :: int
  fe_Cutoff :: time
  fe_EvaluatedAt :: time
  fe_Heartbeats :: "GestaltdInstanceHeartbeat list"
  fe_ActiveRollout :: "AppRollout option"

subsection \<open>Evaluation\<close>

definition rolloutMatches :: "AppRollout option \<Rightarrow> string \<Rightarrow> string \<Rightarrow> string \<Rightarrow> time \<Rightarrow> bool" where
  "rolloutMatches rollout app version sourceVersion now \<longleftrightarrow>
     (case rollout of
        None \<Rightarrow> False
      | Some r \<Rightarrow>
          (ro_State r = AppRolloutStateEnrolling \<or> ro_State r = AppRolloutStateRestarting) \<and>
          TrimSpace (ro_App r) = app \<and> TrimSpace (ro_Version r) = version \<and>
          TrimSpace (ro_TargetSourceVersion r) = sourceVersion \<and> now < ro_Deadline r)"

text \<open>
  The order of the replicas. The sort of the source is not stable; instances have distinct
  identifiers, so there are no ties.
\<close>

definition replica_less :: "AppFleetReplicaObservation \<Rightarrow> AppFleetReplicaObservation \<Rightarrow> bool" where
  "replica_less a b \<longleftrightarrow>
     (if rp_HeartbeatAt b \<noteq> rp_HeartbeatAt a then rp_HeartbeatAt b < rp_HeartbeatAt a
      else rp_InstanceID a < rp_InstanceID b)"

definition sortFleetReplicas :: "AppFleetReplicaObservation list \<Rightarrow> AppFleetReplicaObservation list" where
  "sortFleetReplicas replicas = sort_by replica_less replicas"

text \<open>\<^verbatim>\<open>t.Sub(u)\<close> saturates at the ends of the 64-bit range.\<close>

definition time_Sub :: "time \<Rightarrow> time \<Rightarrow> duration" where
  "time_Sub t u = max (- (2 ^ 63)) (min (2 ^ 63 - 1) (t - u))"

definition evaluate_heartbeat ::
  "time \<Rightarrow> AppFleetProjection \<Rightarrow> GestaltdInstanceHeartbeat \<Rightarrow> AppFleetProjection" where
  "evaluate_heartbeat cutoff p heartbeat =
     (if TrimSpace (hb_SourceVersion heartbeat) \<noteq> fp_SourceVersion p \<or> hb_HeartbeatAt heartbeat < cutoff then p
      else
        (let p = p\<lparr>fp_LiveInstances := fp_LiveInstances p + 1\<rparr>;
             replica = \<lparr>rp_InstanceID = TrimSpace (hb_InstanceID heartbeat), rp_StartedAt = hb_StartedAt heartbeat,
               rp_HeartbeatAt = hb_HeartbeatAt heartbeat, rp_AppState = GestaltdInstanceAppStateUnknown,
               rp_RunningVersion = '''', rp_ObservedDesiredVersion = '''', rp_ObservedAt = 0, rp_LastError = '''',
               rp_Class = AppFleetReplicaClassError\<rparr>
         in case map_of (hb_Apps heartbeat) (fp_App p) of
              None \<Rightarrow> p\<lparr>fp_Errors := fp_Errors p + 1, fp_Replicas := fp_Replicas p @ [replica]\<rparr>
            | Some observation \<Rightarrow>
                (let replica = replica\<lparr>rp_AppState := ah_State observation,
                       rp_RunningVersion := TrimSpace (ah_RunningVersion observation),
                       rp_ObservedDesiredVersion := TrimSpace (ah_DesiredVersion observation),
                       rp_ObservedAt := ah_ObservedAt observation,
                       rp_LastError := TrimSpace (ah_LastError observation)\<rparr>
                 in if ah_State observation = GestaltdInstanceAppStateRunning \<and>
                       rp_RunningVersion replica = fp_DesiredVersion p \<and> fp_DesiredVersion p \<noteq> ''''
                    then p\<lparr>fp_RunningDesiredVersion := fp_RunningDesiredVersion p + 1,
                      fp_Replicas := fp_Replicas p @ [replica\<lparr>rp_Class := AppFleetReplicaClassOnDesired\<rparr>]\<rparr>
                    else
                      (case ah_State observation of
                         GestaltdInstanceAppStateError \<Rightarrow>
                           p\<lparr>fp_Errors := fp_Errors p + 1,
                             fp_Replicas := fp_Replicas p @ [replica\<lparr>rp_Class := AppFleetReplicaClassError\<rparr>]\<rparr>
                       | GestaltdInstanceAppStateUnknown \<Rightarrow>
                           p\<lparr>fp_Errors := fp_Errors p + 1,
                             fp_Replicas := fp_Replicas p @ [replica\<lparr>rp_Class := AppFleetReplicaClassError\<rparr>]\<rparr>
                       | GestaltdInstanceAppStateStarting \<Rightarrow>
                           p\<lparr>fp_NotRunning := fp_NotRunning p + 1,
                             fp_Replicas := fp_Replicas p @ [replica\<lparr>rp_Class := AppFleetReplicaClassNotRunning\<rparr>]\<rparr>
                       | GestaltdInstanceAppStateNotRunning \<Rightarrow>
                           p\<lparr>fp_NotRunning := fp_NotRunning p + 1,
                             fp_Replicas := fp_Replicas p @ [replica\<lparr>rp_Class := AppFleetReplicaClassNotRunning\<rparr>]\<rparr>
                       | _ \<Rightarrow>
                           p\<lparr>fp_Mismatched := fp_Mismatched p + 1,
                             fp_Replicas := fp_Replicas p @ [replica\<lparr>rp_Class := AppFleetReplicaClassMismatched\<rparr>]\<rparr>))))"

definition EvaluateFleetState :: "FleetEvaluation \<Rightarrow> AppFleetProjection" where
  "EvaluateFleetState input =
     (let app = TrimSpace (fe_App input); desiredVersion = TrimSpace (fe_DesiredVersion input);
          sourceVersion = TrimSpace (fe_SourceVersion input); evaluatedAt = fe_EvaluatedAt input;
          start = \<lparr>fp_App = app, fp_State = AppFleetStateUnknown, fp_SourceVersion = sourceVersion,
            fp_DesiredVersion = desiredVersion, fp_MinimumHealthyInstances = fe_MinimumHealthyInstances input,
            fp_LiveInstances = 0, fp_RunningDesiredVersion = 0, fp_NotRunning = 0, fp_Mismatched = 0, fp_Errors = 0,
            fp_HeartbeatTTL =
              (if fe_Cutoff input \<noteq> 0 \<and> evaluatedAt \<noteq> 0 then time_Sub evaluatedAt (fe_Cutoff input) else 0),
            fp_EvaluatedAt = evaluatedAt, fp_Replicas = []\<rparr>;
          counted = foldl (evaluate_heartbeat (fe_Cutoff input)) start (fe_Heartbeats input);
          sorted = counted\<lparr>fp_Replicas := sortFleetReplicas (fp_Replicas counted)\<rparr>;
          validBasis = (desiredVersion \<noteq> '''' \<and> sourceVersion \<noteq> '''' \<and> 0 < fe_MinimumHealthyInstances input);
          state =
            (if \<not> validBasis \<or> fp_LiveInstances sorted < fe_MinimumHealthyInstances input then AppFleetStateUnknown
             else if fe_MinimumHealthyInstances input \<le> fp_RunningDesiredVersion sorted \<and>
               fp_Mismatched sorted = 0 \<and> fp_Errors sorted = 0
             then AppFleetStateHealthy
             else AppFleetStateDegraded)
      in sorted\<lparr>fp_State :=
           if validBasis \<and> state \<noteq> AppFleetStateHealthy \<and>
             rolloutMatches (fe_ActiveRollout input) app desiredVersion sourceVersion evaluatedAt
           then AppFleetStateConverging else state\<rparr>)"

subsection \<open>The projector\<close>

record FleetProjector =
  fl_ChangeRequests :: bool
  fl_SourceVersions :: bool
  fl_Heartbeats :: bool
  fl_Rollouts :: bool
  fl_HeartbeatTTL :: duration

definition load_rollout ::
  "bool \<Rightarrow> string \<Rightarrow> db \<Rightarrow> AppRollout option result \<times> db" where
  "load_rollout configured app d =
     (if \<not> configured then (Inr None, d)
      else
        (case AppRolloutService_Get True app d of
           (Inl err, d) \<Rightarrow>
             (if errors_is err ErrNotFound then (Inr None, d)
              else (Inl (Wrapf ''project fleet state: load active rollout'' err), d))
         | (Inr rollout, d) \<Rightarrow> (Inr (Some rollout), d)))"

definition FleetProjector_Project where
  "FleetProjector_Project unmarshal now projector app0 d =
     (case projector of
        None \<Rightarrow> (Inl (Errorf ''fleet projector is not configured''), d)
      | Some p \<Rightarrow>
          (let app = TrimSpace app0; ttl = fl_HeartbeatTTL p
           in if \<not> fl_ChangeRequests p \<or> \<not> fl_SourceVersions p \<or> \<not> fl_Heartbeats p
              then (Inl (Errorf ''fleet projector is not configured''), d)
              else if app = '''' then (Inl (Errorf ''fleet projector: app is required''), d)
              else if ttl \<le> 0 then (Inl (Errorf ''fleet projector: heartbeat TTL must be positive''), d)
              else
                (case AppVersionChangeRequestService_ListKnownVersionsByApp unmarshal True app d of
                   (Inl err, d) \<Rightarrow> (Inl (Wrapf ''project fleet state: load desired version'' err), d)
                 | (Inr known, d) \<Rightarrow>
                     (let desiredVersion = LatestKnownVersion known;
                          basis = \<lparr>fe_App = app, fe_DesiredVersion = desiredVersion, fe_SourceVersion = '''',
                            fe_MinimumHealthyInstances = 0, fe_Cutoff = now - ttl, fe_EvaluatedAt = now,
                            fe_Heartbeats = [], fe_ActiveRollout = None\<rparr>
                      in case GestaltdSourceVersionService_Get True d of
                           (Inl err, d) \<Rightarrow>
                             (if errors_is err ErrNotFound
                              then (Inr ((EvaluateFleetState basis)\<lparr>fp_HeartbeatTTL := ttl\<rparr>), d)
                              else (Inl (Wrapf ''project fleet state: load source version'' err), d))
                         | (Inr sourceState, d) \<Rightarrow>
                             (let sourceVersion = TrimSpace (sv_CurrentSourceVersion sourceState)
                              in case (if sourceVersion = '''' then (Inr [], d)
                                   else GestaltdInstanceHeartbeatService_ListFreshBySourceVersion unmarshal True
                                     sourceVersion (now - ttl) d) of
                                   (Inl err, d) \<Rightarrow> (Inl (Wrapf ''project fleet state: load fresh heartbeats'' err), d)
                                 | (Inr heartbeats, d) \<Rightarrow>
                                     (case load_rollout (fl_Rollouts p) app d of
                                        (Inl err, d) \<Rightarrow> (Inl err, d)
                                      | (Inr rollout, d) \<Rightarrow>
                                          (Inr ((EvaluateFleetState (basis
                                             \<lparr>fe_SourceVersion := sourceVersion,
                                              fe_MinimumHealthyInstances := sv_MinimumHealthyInstances sourceState,
                                              fe_Heartbeats := heartbeats, fe_ActiveRollout := rollout\<rparr>))
                                             \<lparr>fp_HeartbeatTTL := ttl\<rparr>), d)))))))"

definition FleetProjector_ProjectForRollout where
  "FleetProjector_ProjectForRollout unmarshal now projector rollout d =
     (case projector of
        None \<Rightarrow> (Inl (Errorf ''fleet projector is not configured''), d)
      | Some p \<Rightarrow>
          (if \<not> fl_Heartbeats p then (Inl (Errorf ''fleet projector is not configured''), d)
           else
             (case rollout of
                None \<Rightarrow> (Inl (Errorf ''fleet projector: rollout is required''), d)
              | Some r \<Rightarrow>
                  (let app = TrimSpace (ro_App r); ttl = fl_HeartbeatTTL p
                   in if app = '''' then (Inl (Errorf ''fleet projector: rollout app is required''), d)
                      else if ro_Mode r \<noteq> AppRolloutModeHeartbeat \<or> TrimSpace (ro_TargetSourceVersion r) = '''' \<or>
                        ro_MinimumHealthyInstances r \<le> 0
                      then FleetProjector_Project unmarshal now projector app d
                      else if ttl \<le> 0 then (Inl (Errorf ''fleet projector: heartbeat TTL must be positive''), d)
                      else
                        (case GestaltdInstanceHeartbeatService_ListFreshBySourceVersion unmarshal True
                            (ro_TargetSourceVersion r) (now - ttl) d of
                           (Inl err, d) \<Rightarrow> (Inl (Wrapf ''project rollout fleet: load fresh heartbeats'' err), d)
                         | (Inr heartbeats, d) \<Rightarrow>
                             (Inr ((EvaluateFleetState
                                \<lparr>fe_App = app, fe_DesiredVersion = ro_Version r,
                                 fe_SourceVersion = ro_TargetSourceVersion r,
                                 fe_MinimumHealthyInstances = ro_MinimumHealthyInstances r, fe_Cutoff = now - ttl,
                                 fe_EvaluatedAt = now, fe_Heartbeats = heartbeats, fe_ActiveRollout = None\<rparr>)
                                \<lparr>fp_HeartbeatTTL := ttl\<rparr>), d))))))"

subsection \<open>What the evaluation computes\<close>

text \<open>
  The specification: the live heartbeats, the class of each, and a projection whose counters are
  the sizes of the classes.
\<close>

definition live_heartbeats :: "string \<Rightarrow> time \<Rightarrow> GestaltdInstanceHeartbeat list \<Rightarrow> GestaltdInstanceHeartbeat list" where
  "live_heartbeats sourceVersion cutoff hs =
     filter (\<lambda>h. TrimSpace (hb_SourceVersion h) = sourceVersion \<and> cutoff \<le> hb_HeartbeatAt h) hs"

definition runs_desired :: "string \<Rightarrow> string \<Rightarrow> GestaltdInstanceHeartbeat \<Rightarrow> bool" where
  "runs_desired app desired h \<longleftrightarrow> desired \<noteq> '''' \<and>
     (\<exists>ob. map_of (hb_Apps h) app = Some ob \<and> ah_State ob = GestaltdInstanceAppStateRunning \<and>
       TrimSpace (ah_RunningVersion ob) = desired)"

definition idle :: "string \<Rightarrow> GestaltdInstanceHeartbeat \<Rightarrow> bool" where
  "idle app h \<longleftrightarrow>
     (\<exists>ob. map_of (hb_Apps h) app = Some ob \<and>
       (ah_State ob = GestaltdInstanceAppStateStarting \<or> ah_State ob = GestaltdInstanceAppStateNotRunning))"

definition failing :: "string \<Rightarrow> GestaltdInstanceHeartbeat \<Rightarrow> bool" where
  "failing app h \<longleftrightarrow>
     (\<forall>ob. map_of (hb_Apps h) app = Some ob \<longrightarrow>
       ah_State ob = GestaltdInstanceAppStateError \<or> ah_State ob = GestaltdInstanceAppStateUnknown)"

definition replica_class :: "string \<Rightarrow> string \<Rightarrow> GestaltdInstanceHeartbeat \<Rightarrow> AppFleetReplicaClass" where
  "replica_class app desired h =
     (if runs_desired app desired h then AppFleetReplicaClassOnDesired
      else if idle app h then AppFleetReplicaClassNotRunning
      else if failing app h then AppFleetReplicaClassError
      else AppFleetReplicaClassMismatched)"

definition replica_of :: "string \<Rightarrow> string \<Rightarrow> GestaltdInstanceHeartbeat \<Rightarrow> AppFleetReplicaObservation" where
  "replica_of app desired h =
     (let ob = map_of (hb_Apps h) app; get = (\<lambda>f z. case ob of None \<Rightarrow> z | Some ob \<Rightarrow> TrimSpace (f ob))
      in \<lparr>rp_InstanceID = TrimSpace (hb_InstanceID h), rp_StartedAt = hb_StartedAt h, rp_HeartbeatAt = hb_HeartbeatAt h,
          rp_AppState = (case ob of None \<Rightarrow> GestaltdInstanceAppStateUnknown | Some ob \<Rightarrow> ah_State ob),
          rp_RunningVersion = get ah_RunningVersion '''', rp_ObservedDesiredVersion = get ah_DesiredVersion '''',
          rp_ObservedAt = (case ob of None \<Rightarrow> 0 | Some ob \<Rightarrow> ah_ObservedAt ob),
          rp_LastError = get ah_LastError '''', rp_Class = replica_class app desired h\<rparr>)"

definition class_count :: "AppFleetReplicaClass \<Rightarrow> AppFleetReplicaObservation list \<Rightarrow> int" where
  "class_count c rs = int (length (filter (\<lambda>r. rp_Class r = c) rs))"

definition add_replicas :: "AppFleetReplicaObservation list \<Rightarrow> AppFleetProjection \<Rightarrow> AppFleetProjection" where
  "add_replicas rs p =
     p\<lparr>fp_LiveInstances := fp_LiveInstances p + int (length rs),
       fp_RunningDesiredVersion := fp_RunningDesiredVersion p + class_count AppFleetReplicaClassOnDesired rs,
       fp_NotRunning := fp_NotRunning p + class_count AppFleetReplicaClassNotRunning rs,
       fp_Mismatched := fp_Mismatched p + class_count AppFleetReplicaClassMismatched rs,
       fp_Errors := fp_Errors p + class_count AppFleetReplicaClassError rs,
       fp_Replicas := fp_Replicas p @ rs\<rparr>"

lemma evaluate_heartbeat_step:
  "evaluate_heartbeat cutoff p h =
    (if TrimSpace (hb_SourceVersion h) = fp_SourceVersion p \<and> cutoff \<le> hb_HeartbeatAt h
     then add_replicas [replica_of (fp_App p) (fp_DesiredVersion p) h] p else p)"
proof (cases "map_of (hb_Apps h) (fp_App p)")
  case None
  then show ?thesis
    by (simp add: evaluate_heartbeat_def add_replicas_def replica_of_def replica_class_def runs_desired_def idle_def
        failing_def class_count_def Let_def not_less)
next
  case (Some ob)
  then show ?thesis
    by (cases "ah_State ob") (auto simp: evaluate_heartbeat_def add_replicas_def replica_of_def replica_class_def
        runs_desired_def idle_def failing_def class_count_def Let_def not_less)
qed

lemma add_replicas_fields [simp]:
  "fp_App (add_replicas rs p) = fp_App p" "fp_DesiredVersion (add_replicas rs p) = fp_DesiredVersion p"
  "fp_SourceVersion (add_replicas rs p) = fp_SourceVersion p"
  by (simp_all add: add_replicas_def)

lemma add_replicas_twice: "add_replicas ss (add_replicas rs p) = add_replicas (rs @ ss) p"
  by (simp add: add_replicas_def class_count_def)

lemma evaluate_heartbeats:
  "foldl (evaluate_heartbeat cutoff) p hs =
    add_replicas (map (replica_of (fp_App p) (fp_DesiredVersion p)) (live_heartbeats (fp_SourceVersion p) cutoff hs)) p"
proof (induction hs arbitrary: p)
  case Nil
  show ?case by (simp add: add_replicas_def live_heartbeats_def class_count_def)
next
  case (Cons h hs)
  then show ?case by (simp add: evaluate_heartbeat_step live_heartbeats_def add_replicas_twice)
qed

definition fleet_replicas :: "FleetEvaluation \<Rightarrow> AppFleetReplicaObservation list" where
  "fleet_replicas input =
     map (replica_of (TrimSpace (fe_App input)) (TrimSpace (fe_DesiredVersion input)))
       (live_heartbeats (TrimSpace (fe_SourceVersion input)) (fe_Cutoff input) (fe_Heartbeats input))"

lemma EvaluateFleetState_counts:
  "fp_LiveInstances (EvaluateFleetState input) = int (length (fleet_replicas input))"
  "fp_RunningDesiredVersion (EvaluateFleetState input) = class_count AppFleetReplicaClassOnDesired (fleet_replicas input)"
  "fp_NotRunning (EvaluateFleetState input) = class_count AppFleetReplicaClassNotRunning (fleet_replicas input)"
  "fp_Mismatched (EvaluateFleetState input) = class_count AppFleetReplicaClassMismatched (fleet_replicas input)"
  "fp_Errors (EvaluateFleetState input) = class_count AppFleetReplicaClassError (fleet_replicas input)"
  "fp_Replicas (EvaluateFleetState input) = sortFleetReplicas (fleet_replicas input)"
  by (simp_all add: EvaluateFleetState_def Let_def evaluate_heartbeats add_replicas_def fleet_replicas_def)

lemma class_count_sort [simp]: "class_count c (sortFleetReplicas rs) = class_count c rs"
proof -
  have "size (mset (filter (\<lambda>r. rp_Class r = c) (sort_by replica_less rs))) =
      size (mset (filter (\<lambda>r. rp_Class r = c) rs))" by simp
  then show ?thesis by (simp only: class_count_def sortFleetReplicas_def size_mset)
qed

lemma class_count_total:
  "int (length rs) = class_count AppFleetReplicaClassOnDesired rs + class_count AppFleetReplicaClassNotRunning rs +
    class_count AppFleetReplicaClassMismatched rs + class_count AppFleetReplicaClassError rs"
proof (induction rs)
  case (Cons r rs)
  then show ?case by (cases "rp_Class r") (simp_all add: class_count_def)
qed (simp add: class_count_def)

lemma replica_order:
  "sorted_wrt (\<lambda>a b. \<not> replica_less b a) (sortFleetReplicas rs)"
  unfolding sortFleetReplicas_def by (rule sorted_wrt_sort_by) (auto simp: replica_less_def split: if_splits)

text \<open>
  C27. The rows of a fleet projection and its counters cannot disagree. The replicas are the live
  heartbeats, each classified by its own observation of the app; every counter is the number of
  replicas of its class, the counters add up to the live instances, and the replicas come newest
  heartbeat first and then by instance.
\<close>

theorem fleet_counters_match_replicas:
  "let p = EvaluateFleetState input
   in mset (fp_Replicas p) = mset (fleet_replicas input) \<and>
      sorted_wrt (\<lambda>a b. \<not> replica_less b a) (fp_Replicas p) \<and>
      fp_LiveInstances p = int (length (fp_Replicas p)) \<and>
      fp_RunningDesiredVersion p = class_count AppFleetReplicaClassOnDesired (fp_Replicas p) \<and>
      fp_NotRunning p = class_count AppFleetReplicaClassNotRunning (fp_Replicas p) \<and>
      fp_Mismatched p = class_count AppFleetReplicaClassMismatched (fp_Replicas p) \<and>
      fp_Errors p = class_count AppFleetReplicaClassError (fp_Replicas p) \<and>
      fp_LiveInstances p = fp_RunningDesiredVersion p + fp_NotRunning p + fp_Mismatched p + fp_Errors p"
  unfolding Let_def
  by (simp add: EvaluateFleetState_counts replica_order class_count_total)
    (simp add: sortFleetReplicas_def)

lemma class_count_replicas:
  "class_count c (fleet_replicas input) =
    int (length (filter (\<lambda>h. replica_class (TrimSpace (fe_App input)) (TrimSpace (fe_DesiredVersion input)) h = c)
      (live_heartbeats (TrimSpace (fe_SourceVersion input)) (fe_Cutoff input) (fe_Heartbeats input))))"
  by (simp add: class_count_def fleet_replicas_def filter_map comp_def replica_of_def Let_def)

lemma EvaluateFleetState_state:
  "fp_State (EvaluateFleetState input) =
    (let p = EvaluateFleetState input;
         validBasis = (TrimSpace (fe_DesiredVersion input) \<noteq> '''' \<and> TrimSpace (fe_SourceVersion input) \<noteq> '''' \<and>
           0 < fe_MinimumHealthyInstances input);
         healthy = (validBasis \<and> fe_MinimumHealthyInstances input \<le> fp_RunningDesiredVersion p \<and>
           fp_Mismatched p = 0 \<and> fp_Errors p = 0)
     in if healthy then AppFleetStateHealthy
        else if validBasis \<and> rolloutMatches (fe_ActiveRollout input) (TrimSpace (fe_App input))
          (TrimSpace (fe_DesiredVersion input)) (TrimSpace (fe_SourceVersion input)) (fe_EvaluatedAt input)
        then AppFleetStateConverging
        else if \<not> validBasis \<or> fp_LiveInstances p < fe_MinimumHealthyInstances input then AppFleetStateUnknown
        else AppFleetStateDegraded)"
proof -
  have "class_count AppFleetReplicaClassOnDesired (fleet_replicas input) \<le> int (length (fleet_replicas input))"
    by (simp add: class_count_def)
  then show ?thesis
    unfolding EvaluateFleetState_counts Let_def
    by (auto simp: EvaluateFleetState_def Let_def evaluate_heartbeats add_replicas_def fleet_replicas_def)
qed

text \<open>
  An app is reported healthy exactly when it has a desired version, a source version and a
  positive minimum, at least that many live instances run the desired version, and every live
  instance either runs it or has not started the app. An instance that reports nothing, an error or
  another version is enough to deny health.
\<close>

theorem fleet_healthy_iff:
  "fp_State (EvaluateFleetState input) = AppFleetStateHealthy \<longleftrightarrow>
    (let app = TrimSpace (fe_App input); desired = TrimSpace (fe_DesiredVersion input);
         source = TrimSpace (fe_SourceVersion input);
         live = live_heartbeats source (fe_Cutoff input) (fe_Heartbeats input)
     in desired \<noteq> '''' \<and> source \<noteq> '''' \<and> 0 < fe_MinimumHealthyInstances input \<and>
        fe_MinimumHealthyInstances input \<le> int (length (filter (runs_desired app desired) live)) \<and>
        list_all (\<lambda>h. runs_desired app desired h \<or> idle app h) live)"
proof -
  define app desired source where "app = TrimSpace (fe_App input)" and "desired = TrimSpace (fe_DesiredVersion input)"
    and "source = TrimSpace (fe_SourceVersion input)"
  define live where "live = live_heartbeats source (fe_Cutoff input) (fe_Heartbeats input)"
  have on: "replica_class app desired h = AppFleetReplicaClassOnDesired \<longleftrightarrow> runs_desired app desired h" for h
    by (simp add: replica_class_def)
  have "class_count AppFleetReplicaClassMismatched (fleet_replicas input) = 0 \<and>
      class_count AppFleetReplicaClassError (fleet_replicas input) = 0 \<longleftrightarrow>
      list_all (\<lambda>h. runs_desired app desired h \<or> idle app h) live"
    unfolding class_count_replicas app_def [symmetric] desired_def [symmetric] source_def [symmetric] live_def [symmetric]
    by (auto simp: filter_empty_conv list_all_iff replica_class_def split: if_splits)
  then show ?thesis
    unfolding EvaluateFleetState_state Let_def EvaluateFleetState_counts
      class_count_replicas [of AppFleetReplicaClassOnDesired]
      app_def [symmetric] desired_def [symmetric] source_def [symmetric] live_def [symmetric] on
    by auto
qed

subsection \<open>The projection of a database\<close>

lemma ListFresh_mset:
  assumes "GestaltdInstanceHeartbeatService_ListFreshBySourceVersion unmarshal s sv cutoff d = (Inr hs, d')"
    and "heartbeat_rows_ok (db_rows d)" and "storable_time cutoff"
  shows "mset hs = mset (map (\<lambda>(k, r). recordToGestaltdInstanceHeartbeat unmarshal r)
    (filter (\<lambda>(k, r). utf16 (recString r ''source_version'') = utf16 (TrimSpace sv) \<and>
      cutoff \<le> recTime r ''heartbeat_at'') (db_rows d StoreGestaltdInstanceHeartbeats)))"
proof -
  let ?rows = "db_rows d StoreGestaltdInstanceHeartbeats"
  let ?q = "Bound (KArray [KString (TrimSpace sv), KDate cutoff])
    (KArray [KString (TrimSpace sv), KDate indexedDBMaxTime]) False False"
  obtain g d1 where g: "index_GetAll StoreGestaltdInstanceHeartbeats [''source_version'', ''heartbeat_at''] ?q d = (g, d1)"
    by fastforce
  then obtain recs where "g = Inr recs" and hs: "hs = map (recordToGestaltdInstanceHeartbeat unmarshal) recs"
    using assms(1) by (cases g) (auto simp: GestaltdInstanceHeartbeatService_ListFreshBySourceVersion_def Let_def
        recordsToGestaltdInstanceHeartbeats_def split: if_splits)
  then have recs: "recs = rows_index_GetAll ?rows [''source_version'', ''heartbeat_at''] ?q"
    using index_GetAll_Inr g by simp
  have row: "heartbeat_row k r" if "(k, r) \<in> set ?rows" for k r
    using assms(2) that by (auto simp: heartbeat_rows_ok_def)
  have "filter (\<lambda>(k, r). \<exists>ik. index_key [''source_version'', ''heartbeat_at''] r = Some ik \<and> MatchQuery ik ?q) ?rows =
      filter (\<lambda>(k, r). utf16 (recString r ''source_version'') = utf16 (TrimSpace sv) \<and>
        cutoff \<le> recTime r ''heartbeat_at'') ?rows"
  proof (intro filter_cong refl)
    fix x assume "x \<in> set ?rows"
    then show "(case x of (k, r) \<Rightarrow> \<exists>ik. index_key [''source_version'', ''heartbeat_at''] r = Some ik \<and> MatchQuery ik ?q) =
        (case x of (k, r) \<Rightarrow> utf16 (recString r ''source_version'') = utf16 (TrimSpace sv) \<and>
          cutoff \<le> recTime r ''heartbeat_at'')"
      using fresh_match [OF row assms(3), of "fst x" "snd x" "TrimSpace sv"] by (simp add: split_def)
  qed
  then show ?thesis unfolding hs recs mset_map mset_index_rows by (simp add: multiset.map_comp comp_def split_def)
qed

definition live_row :: "string \<Rightarrow> time \<Rightarrow> string \<times> rec \<Rightarrow> bool" where
  "live_row sourceVersion cutoff row \<longleftrightarrow>
     recString (snd row) ''source_version'' = sourceVersion \<and> cutoff \<le> recTime (snd row) ''heartbeat_at''"

lemma count_live:
  assumes "GestaltdInstanceHeartbeatService_ListFreshBySourceVersion unmarshal s sv cutoff d = (Inr hs, d')"
    and "heartbeat_rows_ok (db_rows d)" and "storable_time cutoff"
    and "\<And>k r. (k, r) \<in> set (db_rows d StoreGestaltdInstanceHeartbeats) \<Longrightarrow>
      TrimSpace (recString r ''source_version'') = recString r ''source_version''"
  shows "length (live_heartbeats (TrimSpace sv) cutoff hs) =
    length (filter (live_row (TrimSpace sv) cutoff) (db_rows d StoreGestaltdInstanceHeartbeats))"
proof -
  let ?rows = "db_rows d StoreGestaltdInstanceHeartbeats" and ?dec = "recordToGestaltdInstanceHeartbeat unmarshal"
  let ?live = "\<lambda>h. TrimSpace (hb_SourceVersion h) = TrimSpace sv \<and> cutoff \<le> hb_HeartbeatAt h"
  let ?fresh = "\<lambda>x. utf16 (recString (snd x) ''source_version'') = utf16 (TrimSpace sv) \<and>
    cutoff \<le> recTime (snd x) ''heartbeat_at''"
  have h: "mset hs = mset (map (\<lambda>x. ?dec (snd x)) (filter ?fresh ?rows))"
    using ListFresh_mset [OF assms(1-3)] by (simp add: split_def)
  have "length (live_heartbeats (TrimSpace sv) cutoff hs) = size (filter_mset ?live (mset hs))"
    by (simp add: live_heartbeats_def flip: size_mset mset_filter)
  also have "\<dots> = length (filter ?live (map (\<lambda>x. ?dec (snd x)) (filter ?fresh ?rows)))"
    unfolding h by (simp only: mset_filter [symmetric] size_mset)
  also have "\<dots> = length (filter (\<lambda>x. ?live (?dec (snd x)) \<and> ?fresh x) ?rows)"
    by (simp add: filter_map comp_def conj_commute)
  also have "filter (\<lambda>x. ?live (?dec (snd x)) \<and> ?fresh x) ?rows = filter (live_row (TrimSpace sv) cutoff) ?rows"
    by (rule filter_cong) (use assms(4) in \<open>force simp: live_row_def recordToGestaltdInstanceHeartbeat_def\<close>)+
  finally show ?thesis .
qed

definition heartbeat_sources_trimmed :: "contents \<Rightarrow> bool" where
  "heartbeat_sources_trimmed c \<longleftrightarrow> (\<forall>(k, r) \<in> set (c StoreGestaltdInstanceHeartbeats).
     TrimSpace (recString r ''source_version'') = recString r ''source_version'')"

lemma EvaluateFleetState_fields:
  "fp_SourceVersion (EvaluateFleetState input) = TrimSpace (fe_SourceVersion input)"
  "fp_DesiredVersion (EvaluateFleetState input) = TrimSpace (fe_DesiredVersion input)"
  "fp_MinimumHealthyInstances (EvaluateFleetState input) = fe_MinimumHealthyInstances input"
  "fe_ActiveRollout input = None \<Longrightarrow> fp_State (EvaluateFleetState input) \<noteq> AppFleetStateConverging"
  by (auto simp: EvaluateFleetState_def Let_def evaluate_heartbeats add_replicas_def rolloutMatches_def)

text \<open>
  A heartbeat rollout is judged by the source version and the minimum it was admitted with. The
  projection made for it names these, whatever the current source version is now, and its live
  instances are exactly the stored heartbeats of that source version within the lease.
\<close>

theorem rollout_projection_uses_snapshot:
  assumes "FleetProjector_ProjectForRollout unmarshal now (Some p) (Some r) d = (Inr proj, d')"
    and "ro_Mode r = AppRolloutModeHeartbeat" and "TrimSpace (ro_TargetSourceVersion r) \<noteq> ''''"
    and "0 < ro_MinimumHealthyInstances r" and "heartbeat_rows_ok (db_rows d)"
    and "heartbeat_sources_trimmed (db_rows d)" and "storable_time (now - fl_HeartbeatTTL p)"
  shows "fp_SourceVersion proj = TrimSpace (ro_TargetSourceVersion r) \<and>
    fp_DesiredVersion proj = TrimSpace (ro_Version r) \<and>
    fp_MinimumHealthyInstances proj = ro_MinimumHealthyInstances r \<and> fp_HeartbeatTTL proj = fl_HeartbeatTTL p \<and>
    fp_LiveInstances proj = int (length (filter
      (live_row (TrimSpace (ro_TargetSourceVersion r)) (now - fl_HeartbeatTTL p))
      (db_rows d StoreGestaltdInstanceHeartbeats))) \<and>
    fp_State proj \<noteq> AppFleetStateConverging"
proof -
  let ?c = "now - fl_HeartbeatTTL p" and ?sv = "ro_TargetSourceVersion r"
  obtain g d1 where g: "GestaltdInstanceHeartbeatService_ListFreshBySourceVersion unmarshal True ?sv ?c d = (g, d1)"
    by fastforce
  let ?input = "\<lambda>hs. \<lparr>fe_App = TrimSpace (ro_App r), fe_DesiredVersion = ro_Version r, fe_SourceVersion = ?sv,
    fe_MinimumHealthyInstances = ro_MinimumHealthyInstances r, fe_Cutoff = ?c, fe_EvaluatedAt = now,
    fe_Heartbeats = hs, fe_ActiveRollout = None\<rparr>"
  obtain hs where hs: "g = Inr hs" and proj: "proj = (EvaluateFleetState (?input hs))\<lparr>fp_HeartbeatTTL := fl_HeartbeatTTL p\<rparr>"
    using assms(1-4) g
    by (cases g) (auto simp: FleetProjector_ProjectForRollout_def Let_def split: if_splits)
  have "length (live_heartbeats (TrimSpace ?sv) ?c hs) =
      length (filter (live_row (TrimSpace ?sv) ?c) (db_rows d StoreGestaltdInstanceHeartbeats))"
    by (rule count_live [OF g [unfolded hs] assms(5,7)])
      (use assms(6) in \<open>auto simp: heartbeat_sources_trimmed_def\<close>)
  then show ?thesis
    unfolding proj
    by (simp add: EvaluateFleetState_fields EvaluateFleetState_counts fleet_replicas_def)
qed

theorem rollout_projection_uses_snapshot_witness:
  "\<exists>proj d'. FleetProjector_ProjectForRollout (\<lambda>_. None) (unix_epoch + 60000000000)
       (Some \<lparr>fl_ChangeRequests = False, fl_SourceVersions = False, fl_Heartbeats = True, fl_Rollouts = False,
         fl_HeartbeatTTL = 30000000000\<rparr>)
       (Some \<lparr>ro_App = ''mail'', ro_Version = ''v1'', ro_State = AppRolloutStateRestarting,
         ro_Mode = AppRolloutModeHeartbeat, ro_TargetSourceVersion = ''s1'', ro_MinimumHealthyInstances = 1,
         ro_CreatedAt = 0, ro_EnrollmentEndsAt = 0, ro_Deadline = 0, ro_HealthySince = 0, ro_HeartbeatEvaluatedAt = 0,
         ro_CompletedAt = 0, ro_FailedAt = 0, ro_FailureSummary = None\<rparr>) heartbeat_db = (Inr proj, d') \<and>
     fp_LiveInstances proj = 1"
proof -
  let ?p = "\<lparr>fl_ChangeRequests = False, fl_SourceVersions = False, fl_Heartbeats = True, fl_Rollouts = False,
    fl_HeartbeatTTL = 30000000000\<rparr>"
  let ?r = "\<lparr>ro_App = ''mail'', ro_Version = ''v1'', ro_State = AppRolloutStateRestarting,
    ro_Mode = AppRolloutModeHeartbeat, ro_TargetSourceVersion = ''s1'', ro_MinimumHealthyInstances = 1,
    ro_CreatedAt = 0, ro_EnrollmentEndsAt = 0, ro_Deadline = 0, ro_HealthySince = 0, ro_HeartbeatEvaluatedAt = 0,
    ro_CompletedAt = 0, ro_FailedAt = 0, ro_FailureSummary = None\<rparr>"
  have tr: "TrimSpace ''s1'' = ''s1''" "TrimSpace ''mail'' = ''mail''" by code_simp+
  obtain proj d' where run: "FleetProjector_ProjectForRollout (\<lambda>_. None) (unix_epoch + 60000000000) (Some ?p) (Some ?r)
      heartbeat_db = (Inr proj, d')"
    using heartbeat_db(1)
    by (simp add: FleetProjector_ProjectForRollout_def tr GestaltdInstanceHeartbeatService_ListFreshBySourceVersion_def
        healthy_store Let_def)
  have trimmed: "heartbeat_sources_trimmed (db_rows heartbeat_db)"
    by (simp add: heartbeat_sources_trimmed_def heartbeat_db_def heartbeat_record_def sample_heartbeat_def recString_def tr)
  have "fp_LiveInstances proj = int (length (filter (live_row ''s1'' (unix_epoch + 30000000000))
      (db_rows heartbeat_db StoreGestaltdInstanceHeartbeats)))"
    using rollout_projection_uses_snapshot [OF run] heartbeat_db(2,3) trimmed tr by (simp add: add.commute)
  also have "\<dots> = 1"
    by (simp add: heartbeat_db_def live_row_def heartbeat_record_def sample_heartbeat_def recString_def recTime_def)
  finally show ?thesis using run by blast
qed

end
