(* ===== verification/Auto_Deploy.thy ===== *)
theory Auto_Deploy
  imports Fleet_State
begin

text \<open>
  Automatic deployment: the settings of each app
  (\<^verbatim>\<open>internal/coredata/app_auto_deploy_settings.go\<close>) and the controller that admits new versions
  (\<^verbatim>\<open>internal/appregistry/autodeploy/controller.go\<close>). The controller's registry reader and installer
  are interfaces of the source and arguments here: \<open>fetch\<close> answers with an index and its entity tag,
  \<open>select\<close> admits a version and may change the database. \<open>errText\<close> is the text of an error. The
  metrics, the goroutine and its channels are left out; a pass of the controller is one call.
\<close>

subsection \<open>Settings\<close>

record AppAutoDeploySettings =
  ad_App :: string
  ad_Enabled :: bool
  ad_Paused :: bool
  ad_PauseReason :: string
  ad_PendingVersion :: string
  ad_LastSeenVersion :: string
  ad_LastError :: string
  ad_LastFailedRolloutAt :: time

definition AppAutoDeployPauseReasonRolloutFailed :: string where
  "AppAutoDeployPauseReasonRolloutFailed = ''rollout_failed''"

definition recordToAppAutoDeploySettings :: "rec \<Rightarrow> AppAutoDeploySettings" where
  "recordToAppAutoDeploySettings rec =
     \<lparr>ad_App = recString rec ''app'', ad_Enabled = recBool rec ''enabled'', ad_Paused = recBool rec ''paused'',
      ad_PauseReason = recString rec ''pause_reason'', ad_PendingVersion = recString rec ''pending_version'',
      ad_LastSeenVersion = recString rec ''last_seen_version'', ad_LastError = recString rec ''last_error'',
      ad_LastFailedRolloutAt = recTime rec ''last_failed_rollout_at''\<rparr>"

definition appAutoDeploySettingsRecord :: "AppAutoDeploySettings \<Rightarrow> rec" where
  "appAutoDeploySettingsRecord settings = [
     ''id'' \<mapsto> VString (ad_App settings),
     ''app'' \<mapsto> VString (ad_App settings),
     ''enabled'' \<mapsto> VBool (ad_Enabled settings),
     ''paused'' \<mapsto> VBool (ad_Paused settings),
     ''pause_reason'' \<mapsto> VString (ad_PauseReason settings),
     ''pending_version'' \<mapsto> VString (ad_PendingVersion settings),
     ''last_seen_version'' \<mapsto> VString (ad_LastSeenVersion settings),
     ''last_error'' \<mapsto> VString (ad_LastError settings),
     ''last_failed_rollout_at'' \<mapsto> VTime (ad_LastFailedRolloutAt settings)]"

definition normalizeAppAutoDeploySettings :: "AppAutoDeploySettings \<Rightarrow> AppAutoDeploySettings" where
  "normalizeAppAutoDeploySettings settings =
     settings\<lparr>ad_App := TrimSpace (ad_App settings), ad_PendingVersion := TrimSpace (ad_PendingVersion settings),
       ad_LastSeenVersion := TrimSpace (ad_LastSeenVersion settings),
       ad_PauseReason := TrimSpace (ad_PauseReason settings), ad_LastError := TrimSpace (ad_LastError settings),
       ad_LastFailedRolloutAt :=
         if ad_LastFailedRolloutAt settings \<noteq> 0 then truncate_ms (ad_LastFailedRolloutAt settings)
         else ad_LastFailedRolloutAt settings\<rparr>"

definition new_settings :: "string \<Rightarrow> AppAutoDeploySettings" where
  "new_settings app =
     \<lparr>ad_App = app, ad_Enabled = False, ad_Paused = False, ad_PauseReason = '''', ad_PendingVersion = '''',
      ad_LastSeenVersion = '''', ad_LastError = '''', ad_LastFailedRolloutAt = 0\<rparr>"

definition ensureAppAutoDeploySettingsStore :: "db \<Rightarrow> unit result \<times> db" where
  "ensureAppAutoDeploySettingsStore d =
     (case CreateObjectStore StoreAppAutoDeploySettings AppAutoDeploySettingsSchema d of
        (Inl err, d) \<Rightarrow> (Inl (Wrapf ''ensure app_auto_deploy_settings store'' err), d)
      | (Inr _, d) \<Rightarrow> (Inr (), d))"

definition AutoDeploySettingsService_EnsureStore :: "bool \<Rightarrow> db \<Rightarrow> unit result \<times> db" where
  "AutoDeploySettingsService_EnsureStore s d =
     (if \<not> s then (Inl (Errorf ''ensure app auto-deploy settings store: service is not configured''), d)
      else ensureAppAutoDeploySettingsStore d)"

definition AutoDeploySettingsService_Get :: "bool \<Rightarrow> string \<Rightarrow> db \<Rightarrow> AppAutoDeploySettings result \<times> db" where
  "AutoDeploySettingsService_Get s app d =
     (if \<not> s then (Inl (Errorf ''get app auto-deploy settings: service is not configured''), d)
      else if TrimSpace app = '''' then (Inl (Errorf ''get app auto-deploy settings: app is required''), d)
      else
        (case store_Get StoreAppAutoDeploySettings (TrimSpace app) d of
           (Inl err, d) \<Rightarrow>
             (Inl (if errors_is err ErrNotFound_idb then ErrNotFound
                else Wrapf ''get app auto-deploy settings'' err), d)
         | (Inr rec, d) \<Rightarrow> (Inr (recordToAppAutoDeploySettings rec), d)))"

definition AutoDeploySettingsService_ListAll :: "bool \<Rightarrow> db \<Rightarrow> AppAutoDeploySettings list result \<times> db" where
  "AutoDeploySettingsService_ListAll s d =
     (if \<not> s then (Inl (Errorf ''list app auto-deploy settings: service is not configured''), d)
      else
        (case store_GetAll StoreAppAutoDeploySettings QAll 0 d of
           (Inl err, d) \<Rightarrow> (Inl (Wrapf ''list app auto-deploy settings'' err), d)
         | (Inr recs, d) \<Rightarrow> (Inr (map recordToAppAutoDeploySettings recs), d)))"

text \<open>
  \<^verbatim>\<open>Update\<close> loads the settings, applies the change and writes them back, each an operation of its
  own. \<open>load_settings\<close> is the part up to the load, \<open>finish_update\<close> the part after it.
\<close>

definition load_settings :: "string \<Rightarrow> db \<Rightarrow> AppAutoDeploySettings result \<times> db" where
  "load_settings app d =
     (case store_Get StoreAppAutoDeploySettings app d of
        (Inr rec, d) \<Rightarrow> (Inr (recordToAppAutoDeploySettings rec), d)
      | (Inl err, d) \<Rightarrow>
          (if errors_is err ErrNotFound_idb then (Inr (new_settings app), d)
           else (Inl (Wrapf ''update app auto-deploy settings: load current'' err), d)))"

definition finish_update ::
  "string \<Rightarrow> (AppAutoDeploySettings \<Rightarrow> AppAutoDeploySettings result) \<Rightarrow> AppAutoDeploySettings \<Rightarrow> db \<Rightarrow>
    AppAutoDeploySettings result \<times> db" where
  "finish_update app change settings d =
     (case change settings of
        Inl err \<Rightarrow> (Inl err, d)
      | Inr settings \<Rightarrow>
          (let settings = normalizeAppAutoDeploySettings (settings\<lparr>ad_App := app\<rparr>)
           in case store_Put StoreAppAutoDeploySettings (appAutoDeploySettingsRecord settings) d of
                (Inl err, d) \<Rightarrow> (Inl (Wrapf ''update app auto-deploy settings: write'' err), d)
              | (Inr _, d) \<Rightarrow> (Inr settings, d)))"

definition AutoDeploySettingsService_Update ::
  "bool \<Rightarrow> string \<Rightarrow> (AppAutoDeploySettings \<Rightarrow> AppAutoDeploySettings result) option \<Rightarrow> db \<Rightarrow>
    AppAutoDeploySettings result \<times> db" where
  "AutoDeploySettingsService_Update s app0 change0 d =
     (let app = TrimSpace app0
      in if \<not> s then (Inl (Errorf ''update app auto-deploy settings: service is not configured''), d)
         else if app = '''' then (Inl (Errorf ''update app auto-deploy settings: app is required''), d)
         else
           (case change0 of
              None \<Rightarrow> (Inl (Errorf ''update app auto-deploy settings: update function is required''), d)
            | Some change \<Rightarrow>
                (case AutoDeploySettingsService_EnsureStore s d of
                   (Inl err, d) \<Rightarrow> (Inl err, d)
                 | (Inr _, d) \<Rightarrow>
                     (case load_settings app d of
                        (Inl err, d) \<Rightarrow> (Inl err, d)
                      | (Inr settings, d) \<Rightarrow> finish_update app change settings d))))"

definition sameAppRolloutIdentity :: "AppRollout \<Rightarrow> AppRollout \<Rightarrow> bool" where
  "sameAppRolloutIdentity left right \<longleftrightarrow>
     TrimSpace (ro_App left) = TrimSpace (ro_App right) \<and> TrimSpace (ro_Version left) = TrimSpace (ro_Version right) \<and>
     ro_Mode left = ro_Mode right \<and>
     TrimSpace (ro_TargetSourceVersion left) = TrimSpace (ro_TargetSourceVersion right) \<and>
     ro_CreatedAt left = ro_CreatedAt right"

definition update_for_rollout_body ::
  "string \<Rightarrow> AppRollout \<Rightarrow> (AppAutoDeploySettings \<Rightarrow> AppAutoDeploySettings result) \<Rightarrow> db \<Rightarrow>
    (AppAutoDeploySettings option \<times> bool) tx_end \<times> db" where
  "update_for_rollout_body app expected change d =
     (case store_Get StoreAppRollouts app d of
        (Inl err, d) \<Rightarrow>
          (if errors_is err ErrNotFound_idb
           then (TxCommit ''update app auto-deploy settings for rollout: commit unchanged'' (None, False), d)
           else (TxFail (Wrapf ''update app auto-deploy settings for rollout: load current rollout'' err), d))
      | (Inr rolloutRec, d) \<Rightarrow>
          (let currentRollout = recordToAppRollout rolloutRec
           in if \<not> sameAppRolloutIdentity currentRollout expected \<or> ro_State currentRollout \<noteq> AppRolloutStateFailed
              then (TxCommit ''update app auto-deploy settings for rollout: commit unchanged'' (None, False), d)
              else
                (case (case store_Get StoreAppAutoDeploySettings app d of
                         (Inr settingsRec, d) \<Rightarrow> (Inr (recordToAppAutoDeploySettings settingsRec), d)
                       | (Inl err, d) \<Rightarrow>
                           (if errors_is err ErrNotFound_idb then (Inr (new_settings app), d)
                            else (Inl (Wrapf ''update app auto-deploy settings for rollout: load current settings'' err), d))) of
                   (Inl err, d) \<Rightarrow> (TxFail err, d)
                 | (Inr settings, d) \<Rightarrow>
                     (case change settings of
                        Inl err \<Rightarrow> (TxFail err, d)
                      | Inr settings \<Rightarrow>
                          (let settings = normalizeAppAutoDeploySettings (settings\<lparr>ad_App := app\<rparr>)
                           in case store_Put StoreAppAutoDeploySettings (appAutoDeploySettingsRecord settings) d of
                                (Inl err, d) \<Rightarrow>
                                  (TxFail (Wrapf ''update app auto-deploy settings for rollout: write'' err), d)
                              | (Inr _, d) \<Rightarrow>
                                  (TxCommit ''update app auto-deploy settings for rollout: commit''
                                    (Some settings, True), d))))))"

definition AutoDeploySettingsService_UpdateForRollout where
  "AutoDeploySettingsService_UpdateForRollout s expected0 change0 d =
     (if \<not> s then (Inl (Errorf ''update app auto-deploy settings for rollout: service is not configured''), d)
      else
        (case expected0 of
           None \<Rightarrow> (Inl (Errorf ''update app auto-deploy settings for rollout: rollout is required''), d)
         | Some expected \<Rightarrow>
             (case change0 of
                None \<Rightarrow> (Inl (Errorf ''update app auto-deploy settings for rollout: update function is required''), d)
              | Some change \<Rightarrow>
                  (let app = TrimSpace (ro_App expected)
                   in if app = ''''
                      then (Inl (Errorf ''update app auto-deploy settings for rollout: rollout app is required''), d)
                      else
                        (case AutoDeploySettingsService_EnsureStore s d of
                           (Inl err, d) \<Rightarrow> (Inl err, d)
                         | (Inr _, d) \<Rightarrow>
                             with_tx ''update app auto-deploy settings for rollout: begin transaction''
                               (update_for_rollout_body app expected change) d)))))"

subsection \<open>The versions of an index\<close>

text \<open>
  What the index says of a version besides when it was published is carried along unread; it is of
  type \<open>'m\<close>. A Go map is an association list with distinct keys, so the order has no ties.
\<close>

record 'm VersionSummary =
  vs_Version :: string
  vs_PublishedAt :: time
  vs_Details :: 'm

type_synonym 'm Index = "(string \<times> (string \<times> time \<times> 'm) list) list"

definition version_newer :: "'m VersionSummary \<Rightarrow> 'm VersionSummary \<Rightarrow> bool" where
  "version_newer a b \<longleftrightarrow>
     (if vs_PublishedAt a = vs_PublishedAt b then vs_Version b < vs_Version a
      else vs_PublishedAt b < vs_PublishedAt a)"

definition sortVersionsNewestFirst :: "'m VersionSummary list \<Rightarrow> 'm VersionSummary list" where
  "sortVersionsNewestFirst versions = sort_by version_newer versions"

definition VersionsFromIndex :: "'m Index option \<Rightarrow> string \<Rightarrow> 'm VersionSummary list" where
  "VersionsFromIndex registryIndex appName =
     (case registryIndex of
        None \<Rightarrow> []
      | Some apps \<Rightarrow>
          (case map_of apps appName of
             None \<Rightarrow> []
           | Some versions \<Rightarrow>
               sortVersionsNewestFirst
                 (map (\<lambda>(version, t, m). \<lparr>vs_Version = version, vs_PublishedAt = t, vs_Details = m\<rparr>) versions)))"

record 'm AppIndexFetchResult =
  fr_Index :: "'m Index option"
  fr_ETag :: string
  fr_NotModified :: bool

subsection \<open>The controller\<close>

definition Actor :: string where "Actor = ''system:auto-deploy''"

definition ErrInstallVersionLocked :: error where
  "ErrInstallVersionLocked = Sentinel ''app rollout admission already in progress''"
definition registry_ErrAppRolloutActive :: error where
  "registry_ErrAppRolloutActive = Sentinel ''app already has an active rollout''"
definition ErrAppVersionAlreadyInstalled :: error where
  "ErrAppVersionAlreadyInstalled = Sentinel ''app version is already installed''"
definition ErrInstallValidationFailed :: error where
  "ErrInstallValidationFailed = Sentinel ''install-time validation failed''"
definition ErrAppVersionExpired :: error where
  "ErrAppVersionExpired = Sentinel ''app version is expired''"
definition ErrAppVersionLocked :: error where
  "ErrAppVersionLocked = Sentinel ''app version is permanently locked''"

definition isCandidateRejection :: "error \<Rightarrow> bool" where
  "isCandidateRejection err \<longleftrightarrow>
     errors_is err ErrInstallValidationFailed \<or> errors_is err ErrAppVersionExpired \<or> errors_is err ErrAppVersionLocked"

record AppConfig =
  ac_Registry :: string
  ac_PublicRoot :: string
  ac_RegistryApp :: string

record InstallInput =
  ii_Registry :: string
  ii_App :: string
  ii_Version :: string
  ii_Actor :: string

text \<open>The fields of the controller that are set, its apps and its fleet projector.\<close>

record Controller =
  ct_Settings :: bool
  ct_Rollouts :: bool
  ct_ChangeRequests :: bool
  ct_Reader :: bool
  ct_Installer :: bool
  ct_Fleet :: "FleetProjector option"
  ct_Apps :: "(string \<times> AppConfig) list"

type_synonym etags = "(string \<times> string) list"

definition validate :: "Controller \<Rightarrow> unit result" where
  "validate c =
     (if \<not> ct_Settings c \<or> \<not> ct_Rollouts c \<or> \<not> ct_ChangeRequests c \<or> \<not> ct_Reader c \<or> \<not> ct_Installer c \<or>
        ct_Fleet c = None
      then Inl (Errorf ''auto-deploy controller is not configured'') else Inr ())"

definition failedRolloutIsHealthy where
  "failedRolloutIsHealthy unmarshal now c rollout d =
     (case FleetProjector_ProjectForRollout unmarshal now (ct_Fleet c) (Some rollout) d of
        (Inl err, d) \<Rightarrow> (Inl (Wrapf ''check failed rollout health for %s'' err), d)
      | (Inr projection, d) \<Rightarrow>
          (Inr (fp_State projection = AppFleetStateHealthy \<and>
             TrimSpace (fp_DesiredVersion projection) = TrimSpace (ro_Version rollout)), d))"

definition acknowledge_failure ::
  "bool \<Rightarrow> time \<Rightarrow> AppRollout \<Rightarrow> AppAutoDeploySettings \<Rightarrow> AppAutoDeploySettings result" where
  "acknowledge_failure healthy failedAt rollout current =
     (let cleared = current\<lparr>ad_PendingVersion := '''', ad_LastSeenVersion := '''', ad_LastFailedRolloutAt := failedAt\<rparr>
      in Inr (if healthy then cleared\<lparr>ad_Paused := False, ad_PauseReason := '''', ad_LastError := ''''\<rparr>
         else cleared\<lparr>ad_Paused := True, ad_PauseReason := AppAutoDeployPauseReasonRolloutFailed,
           ad_LastError := ''Automatic deployment is paused because rollout of version '' @ ro_Version rollout @
             '' failed. Select that version again to retry.''\<rparr>))"

definition reconcile_failed where
  "reconcile_failed unmarshal now c rollout failedAt d =
     (case failedRolloutIsHealthy unmarshal now c rollout d of
        (Inl err, d) \<Rightarrow> (Inl err, d)
      | (Inr healthy, d) \<Rightarrow>
          (case AutoDeploySettingsService_UpdateForRollout True (Some rollout)
              (Some (acknowledge_failure healthy failedAt rollout)) d of
             (Inl err, d) \<Rightarrow> (Inl err, d)
           | (Inr _, d) \<Rightarrow> (Inr (), d)))"

definition see_version :: "string \<Rightarrow> AppAutoDeploySettings \<Rightarrow> AppAutoDeploySettings result" where
  "see_version newest current =
     Inr (if \<not> ad_Enabled current \<or> ad_Paused current \<or> ad_LastSeenVersion current = newest then current
       else current\<lparr>ad_LastSeenVersion := newest, ad_PendingVersion := newest, ad_LastError := ''''\<rparr>)"

definition clear_pending ::
  "string \<Rightarrow> string option \<Rightarrow> AppAutoDeploySettings \<Rightarrow> AppAutoDeploySettings result" where
  "clear_pending version lastError current =
     Inr (if ad_PendingVersion current = version
       then (case lastError of
               None \<Rightarrow> current\<lparr>ad_PendingVersion := ''''\<rparr>
             | Some e \<Rightarrow> current\<lparr>ad_PendingVersion := '''', ad_LastError := e\<rparr>)
       else current)"

definition settings_change where
  "settings_change appName change d =
     (case AutoDeploySettingsService_Update True appName (Some change) d of
        (Inl err, d) \<Rightarrow> (Inl err, d)
      | (Inr _, d) \<Rightarrow> (Inr (), d))"

definition reconcile_install where
  "reconcile_install errText select app appName version d =
     (case select \<lparr>ii_Registry = ac_Registry app, ii_App = appName, ii_Version = version, ii_Actor = Actor\<rparr> d of
        (Inr _, d) \<Rightarrow> settings_change appName (clear_pending version (Some '''')) d
      | (Inl err, d) \<Rightarrow>
          (if errors_is err ErrAppVersionAlreadyInstalled
           then settings_change appName (clear_pending version (Some '''')) d
           else if errors_is err registry_ErrAppRolloutActive \<or> errors_is err ErrInstallVersionLocked \<or>
             errors_is err ErrAppDeployPaused
           then (Inr (), d)
           else if isCandidateRejection err
           then settings_change appName (clear_pending version (Some (errText err))) d
           else (Inl err, d)))"

definition reconcile_pending where
  "reconcile_pending unmarshal errText select app appName rollout settings d =
     (if \<not> ad_Enabled settings then (Inr (), d)
      else if ad_Paused settings then (Inr (), d)
      else if (case rollout of None \<Rightarrow> False
        | Some r \<Rightarrow> ro_State r = AppRolloutStateEnrolling \<or> ro_State r = AppRolloutStateRestarting)
      then
        (if ad_LastError settings \<noteq> ''''
         then settings_change appName (\<lambda>current. Inr (current\<lparr>ad_LastError := ''''\<rparr>)) d
         else (Inr (), d))
      else if ad_PendingVersion settings = '''' then (Inr (), d)
      else
        (case AppVersionChangeRequestService_ListKnownVersionsByApp unmarshal True appName d of
           (Inl err, d) \<Rightarrow> (Inl err, d)
         | (Inr known, d) \<Rightarrow>
             (if LatestKnownVersion known = ad_PendingVersion settings
              then settings_change appName (clear_pending (ad_PendingVersion settings) None) d
              else reconcile_install errText select app appName (ad_PendingVersion settings) d)))"

text \<open>The index is fetched without an entity tag while no version has been seen.\<close>

definition reconcile_index where
  "reconcile_index unmarshal errText fetch select app appName rollout settings etags d =
     (let registryApp = (if TrimSpace (ac_RegistryApp app) = '''' then appName else TrimSpace (ac_RegistryApp app));
          ifNoneMatch = (if ad_LastSeenVersion settings = '''' then ''''
            else case map_of etags appName of None \<Rightarrow> '''' | Some etag \<Rightarrow> etag)
      in case fetch (ac_PublicRoot app) registryApp ifNoneMatch of
           Inl err \<Rightarrow> (Inl err, etags, d)
         | Inr result \<Rightarrow>
             (if fr_NotModified result
              then
                (case reconcile_pending unmarshal errText select app appName rollout settings d of
                   (x, d) \<Rightarrow> (x, etags, d))
              else
                (let etags = AList.update appName (fr_ETag result) etags
                 in case VersionsFromIndex (fr_Index result) registryApp of
                      [] \<Rightarrow>
                        (case reconcile_pending unmarshal errText select app appName rollout settings d of
                           (x, d) \<Rightarrow> (x, etags, d))
                    | newest # _ \<Rightarrow>
                        (case AutoDeploySettingsService_Update True appName (Some (see_version (vs_Version newest))) d of
                           (Inl err, d) \<Rightarrow> (Inl err, etags, d)
                         | (Inr settings, d) \<Rightarrow>
                             (case reconcile_pending unmarshal errText select app appName rollout settings d of
                                (x, d) \<Rightarrow> (x, etags, d))))))"

definition Controller_Reconcile where
  "Controller_Reconcile unmarshal errText now fetch select c appName0 etags d =
     (case validate c of
        Inl err \<Rightarrow> (Inl err, etags, d)
      | Inr _ \<Rightarrow>
          (let appName = TrimSpace appName0
           in case map_of (ct_Apps c) appName of
                None \<Rightarrow> (Inr (), etags, d)
              | Some app \<Rightarrow>
                  (case AutoDeploySettingsService_Get True appName d of
                     (Inl err, d) \<Rightarrow> (if errors_is err ErrNotFound then (Inr (), etags, d) else (Inl err, etags, d))
                   | (Inr settings, d) \<Rightarrow>
                       (case (case AppRolloutService_Get True appName d of
                                (Inl err, d) \<Rightarrow>
                                  (if errors_is err ErrNotFound then (Inr None, d) else (Inl err, d))
                              | (Inr rollout, d) \<Rightarrow> (Inr (Some rollout), d)) of
                          (Inl err, d) \<Rightarrow> (Inl err, etags, d)
                        | (Inr rollout, d) \<Rightarrow>
                            (if \<not> ad_Enabled settings then (Inr (), etags, d)
                             else if ad_Paused settings then (Inr (), etags, d)
                             else
                               (case rollout of
                                  None \<Rightarrow>
                                    reconcile_index unmarshal errText fetch select app appName rollout settings etags d
                                | Some r \<Rightarrow>
                                    (let failedAt = truncate_ms (ro_FailedAt r)
                                     in if ro_State r = AppRolloutStateFailed \<and>
                                          ad_LastFailedRolloutAt settings < failedAt
                                        then
                                          (case reconcile_failed unmarshal now c r failedAt d of
                                             (x, d) \<Rightarrow> (x, etags, d))
                                        else
                                          reconcile_index unmarshal errText fetch select app appName rollout settings
                                            etags d)))))))"

text \<open>A pass over all apps; the answer is the list of errors that are joined.\<close>

fun reconcile_each where
  "reconcile_each reconcile [] errs etags d = (errs, etags, d)"
| "reconcile_each reconcile (app # apps) errs etags d =
     (case reconcile app etags d of
        (Inl err, etags, d) \<Rightarrow> reconcile_each reconcile apps (errs @ [Wrapf ''%s'' err]) etags d
      | (Inr _, etags, d) \<Rightarrow> reconcile_each reconcile apps errs etags d)"

definition Controller_ReconcileAll where
  "Controller_ReconcileAll unmarshal errText now fetch select c etags d =
     (case validate c of
        Inl err \<Rightarrow> ([err], etags, d)
      | Inr _ \<Rightarrow>
          (case AutoDeploySettingsService_ListAll True d of
             (Inl err, d) \<Rightarrow> ([err], etags, d)
           | (Inr settings, d) \<Rightarrow>
               reconcile_each (Controller_Reconcile unmarshal errText now fetch select c) (map ad_App settings) [] etags d))"

subsection \<open>When the installer is not called\<close>

text \<open>Failures of the provider that do not claim that a row is missing.\<close>

definition plain_failures :: "db \<Rightarrow> bool" where
  "plain_failures d \<longleftrightarrow>
     (\<forall>n e. db_fail d n = Some e \<longrightarrow> \<not> errors_is e ErrNotFound_idb \<and> \<not> errors_is e ErrNotFound)"

lemma settings_Get_answer:
  assumes "AutoDeploySettingsService_Get True app d = (Inr st, d')"
  shows "\<exists>rec. map_of (db_rows d StoreAppAutoDeploySettings) (TrimSpace app) = Some rec \<and>
      st = recordToAppAutoDeploySettings rec" and "db_rows d' = db_rows d" and "db_fail d' = db_fail d"
  using assms by (auto simp: AutoDeploySettingsService_Get_def dest: store_Get_Inr read_rows(1) store_op_fail(1)
      split: if_splits prod.splits sum.splits)

lemma rollout_Get_found:
  assumes "AppRolloutService_Get True app d = (y, d')" and "plain_failures d"
    and "rollouts (db_rows d) (TrimSpace app) = Some r" and "TrimSpace app \<noteq> ''''"
  shows "y = Inr r \<or> (\<exists>e. y = Inl e \<and> \<not> errors_is e ErrNotFound)"
proof -
  obtain z d1 where z: "store_Get StoreAppRollouts (TrimSpace app) d = (z, d1)" by fastforce
  show ?thesis
  proof (cases z)
    case (Inr rec)
    then show ?thesis
      using assms(1,3,4) z store_Get_Inr [OF z [unfolded Inr]] by (auto simp: AppRolloutService_Get_def rollouts_def Let_def)
  next
    case (Inl e)
    then have e: "\<not> errors_is e ErrNotFound_idb \<and> \<not> errors_is e ErrNotFound"
      using z assms(2,3)
      by (auto simp: store_Get_def plain_failures_def rollouts_def elim!: db_op_cases split: option.splits)
    then show ?thesis
      using assms(1,4) z Inl by (auto simp: AppRolloutService_Get_def Let_def ErrNotFound_def)
  qed
qed

definition held_back :: "AppAutoDeploySettings \<Rightarrow> AppRollout option \<Rightarrow> bool" where
  "held_back st rollout \<longleftrightarrow> \<not> ad_Enabled st \<or> ad_Paused st \<or>
     (case rollout of
        None \<Rightarrow> False
      | Some r \<Rightarrow> ro_State r = AppRolloutStateEnrolling \<or> ro_State r = AppRolloutStateRestarting \<or>
          ro_State r = AppRolloutStateFailed \<and> ad_LastFailedRolloutAt st < truncate_ms (ro_FailedAt r))"

lemma reconcile_pending_active:
  assumes "ro_State r = AppRolloutStateEnrolling \<or> ro_State r = AppRolloutStateRestarting"
  shows "reconcile_pending unmarshal errText select app appName (Some r) st d =
    reconcile_pending unmarshal errText select' app appName (Some r) st d"
  using assms by (auto simp: reconcile_pending_def)

lemma reconcile_index_active:
  assumes "ro_State r = AppRolloutStateEnrolling \<or> ro_State r = AppRolloutStateRestarting"
  shows "reconcile_index unmarshal errText fetch select app appName (Some r) st etags d =
    reconcile_index unmarshal errText fetch select' app appName (Some r) st etags d"
  unfolding reconcile_index_def reconcile_pending_active [OF assms, of unmarshal errText select _ _ _ _ select'] by simp

text \<open>
  C30. Automatic deployment never admits a version it should hold back. When the stored settings of
  the app are disabled or paused, when its rollout is in progress, or when its rollout failed and
  the failure has not been acknowledged, a pass of the controller does not use the installer at
  all: its result, the entity tags and the database are the same for any two installers.
\<close>

theorem auto_deploy_holds_back:
  assumes "plain_failures d" and "map_of (db_rows d StoreAppAutoDeploySettings) (TrimSpace appName) = Some rec"
    and "held_back (recordToAppAutoDeploySettings rec) (rollouts (db_rows d) (TrimSpace appName))"
  shows "Controller_Reconcile unmarshal errText now fetch select c appName etags d =
    Controller_Reconcile unmarshal errText now fetch select' c appName etags d"
proof -
  let ?a = "TrimSpace appName"
  obtain g d1 where g: "AutoDeploySettingsService_Get True ?a d = (g, d1)" by fastforce
  obtain y d2 where y: "AppRolloutService_Get True ?a d1 = (y, d2)" by fastforce
  show ?thesis
  proof (cases g)
    case (Inl e)
    then show ?thesis using g by (simp add: Controller_Reconcile_def Let_def split: sum.splits option.splits)
  next
    case (Inr st)
    have st: "st = recordToAppAutoDeploySettings rec" and rows: "db_rows d1 = db_rows d" and f: "plain_failures d1"
      using settings_Get_answer [OF g [unfolded Inr]] assms(1,2) by (auto simp: plain_failures_def)
    have ne: "?a \<noteq> ''''" using g Inr by (auto simp: AutoDeploySettingsService_Get_def)
    show ?thesis
    proof (cases "ad_Enabled st \<and> \<not> ad_Paused st")
      case False
      then show ?thesis
        using g Inr y by (auto simp: Controller_Reconcile_def Let_def split: sum.splits option.splits)
    next
      case True
      then obtain r where r: "rollouts (db_rows d) ?a = Some r"
        and held: "ro_State r = AppRolloutStateEnrolling \<or> ro_State r = AppRolloutStateRestarting \<or>
          ro_State r = AppRolloutStateFailed \<and> ad_LastFailedRolloutAt st < truncate_ms (ro_FailedAt r)"
        using assms(3) st by (auto simp: held_back_def split: option.splits)
      have "y = Inr r \<or> (\<exists>e. y = Inl e \<and> \<not> errors_is e ErrNotFound)"
        using rollout_Get_found [OF y f] r rows ne by simp
      then show ?thesis
        using g Inr y True held reconcile_index_active [of r unmarshal errText fetch select _ _ _ _ _ select']
        by (auto simp: Controller_Reconcile_def Let_def split: sum.splits option.splits)
    qed
  qed
qed

subsection \<open>Updates that overlap\<close>

text \<open>The settings a load sees: the stored ones, or new ones when there are none.\<close>

definition settings_of :: "contents \<Rightarrow> string \<Rightarrow> AppAutoDeploySettings" where
  "settings_of c app =
     (case map_of (c StoreAppAutoDeploySettings) app of
        None \<Rightarrow> new_settings app | Some rec \<Rightarrow> recordToAppAutoDeploySettings rec)"

lemma settings_no_conflict:
  assumes "os_indexes (db_stores d StoreAppAutoDeploySettings) = opt_Indexes AppAutoDeploySettingsSchema"
  shows "\<not> hasUniqueConflict (db_stores d StoreAppAutoDeploySettings) r i"
  using assms by (intro no_unique_conflict) (simp add: AppAutoDeploySettingsSchema_def index_def)

lemma load_settings_healthy:
  "db_healthy d \<Longrightarrow> load_settings app d = (Inr (settings_of (db_rows d) app), d\<lparr>db_tick := Suc (db_tick d)\<rparr>)"
  by (simp add: load_settings_def settings_of_def healthy_store split: option.splits)

lemma finish_update_healthy:
  assumes "db_healthy d" and "os_indexes (db_stores d StoreAppAutoDeploySettings) = opt_Indexes AppAutoDeploySettingsSchema"
    and "change st = Inr st'"
  shows "\<exists>d'. finish_update app change st d = (Inr (normalizeAppAutoDeploySettings (st'\<lparr>ad_App := app\<rparr>)), d') \<and>
    db_healthy d' \<and> os_indexes (db_stores d' StoreAppAutoDeploySettings) = opt_Indexes AppAutoDeploySettingsSchema \<and>
    map_of (db_rows d' StoreAppAutoDeploySettings) (TrimSpace app) =
      Some (appAutoDeploySettingsRecord (normalizeAppAutoDeploySettings (st'\<lparr>ad_App := app\<rparr>)))"
proof -
  let ?r = "appAutoDeploySettingsRecord (normalizeAppAutoDeploySettings (st'\<lparr>ad_App := app\<rparr>))"
  have "record_id ?r = TrimSpace app"
    by (simp add: record_id_def appAutoDeploySettingsRecord_def normalizeAppAutoDeploySettings_def)
  then show ?thesis
    using healthy_store(5) [OF assms(1) settings_no_conflict [OF assms(2)]] assms
    by (simp add: finish_update_def Let_def)
qed

lemma Update_healthy:
  assumes "db_healthy d" and "TrimSpace app \<noteq> ''''"
  shows "\<exists>d2. AutoDeploySettingsService_Update True app (Some change) d =
      finish_update (TrimSpace app) change (settings_of (db_rows d) (TrimSpace app)) d2 \<and>
    db_healthy d2 \<and> db_rows d2 = db_rows d \<and>
    os_indexes (db_stores d2 StoreAppAutoDeploySettings) = opt_Indexes AppAutoDeploySettingsSchema"
proof -
  obtain e where c: "CreateObjectStore StoreAppAutoDeploySettings AppAutoDeploySettingsSchema d = (Inr (), e)"
    using assms(1) by (simp add: CreateObjectStore_def healthy_db_op)
  have h: "db_healthy e" and rows: "db_rows e = db_rows d"
      and ix: "os_indexes (db_stores e StoreAppAutoDeploySettings) = opt_Indexes AppAutoDeploySettingsSchema"
    using assms(1) CreateObjectStore_run [OF c] by (simp_all add: db_healthy_def)
  let ?f = "e\<lparr>db_tick := Suc (db_tick e)\<rparr>"
  have "AutoDeploySettingsService_Update True app (Some change) d =
      finish_update (TrimSpace app) change (settings_of (db_rows d) (TrimSpace app)) ?f"
    using assms(2) c load_settings_healthy [OF h] rows
    by (simp add: AutoDeploySettingsService_Update_def AutoDeploySettingsService_EnsureStore_def
        ensureAppAutoDeploySettingsStore_def Let_def)
  then show ?thesis using h rows ix by (intro exI [of _ ?f]) simp
qed

text \<open>The change an administrator's request to switch automatic deployment off makes.\<close>

definition switch_off :: "AppAutoDeploySettings \<Rightarrow> AppAutoDeploySettings result" where
  "switch_off st = Inr (st\<lparr>ad_Enabled := False, ad_Paused := False, ad_PauseReason := '''', ad_PendingVersion := '''',
     ad_LastError := ''''\<rparr>)"

text \<open>
  C31. An update is not atomic. The controller loads the settings, an administrator switches
  automatic deployment off and is told so, and the controller finishes its update of the version it
  has seen, which does not touch the switch: afterwards automatic deployment is stored as on again
  with a version pending, and the administrator's change is lost.
\<close>

theorem settings_update_race:
  assumes "db_healthy d" and "TrimSpace app = app" and "app \<noteq> ''''"
    and "ad_Enabled (settings_of (db_rows d) app)" and "\<not> ad_Paused (settings_of (db_rows d) app)"
    and "ad_LastSeenVersion (settings_of (db_rows d) app) \<noteq> v" and "TrimSpace v = v"
  shows "\<exists>loaded d1 off d2 st d3.
    load_settings app d = (Inr loaded, d1) \<and>
    AutoDeploySettingsService_Update True app (Some switch_off) d1 = (Inr off, d2) \<and> \<not> ad_Enabled off \<and>
    \<not> ad_Enabled (settings_of (db_rows d2) app) \<and>
    finish_update app (see_version v) loaded d2 = (Inr st, d3) \<and>
    ad_Enabled (settings_of (db_rows d3) app) \<and> ad_PendingVersion (settings_of (db_rows d3) app) = v"
proof -
  let ?l = "settings_of (db_rows d) app" and ?d1 = "d\<lparr>db_tick := Suc (db_tick d)\<rparr>"
  have h1: "db_healthy ?d1" using assms(1) by simp
  have load: "load_settings app d = (Inr ?l, ?d1)" by (rule load_settings_healthy [OF assms(1)])
  obtain e where e: "AutoDeploySettingsService_Update True app (Some switch_off) ?d1 = finish_update app switch_off ?l e"
      "db_healthy e" "os_indexes (db_stores e StoreAppAutoDeploySettings) = opt_Indexes AppAutoDeploySettingsSchema"
    using Update_healthy [OF h1, of app switch_off] assms(2,3) by auto
  let ?off = "normalizeAppAutoDeploySettings (?l\<lparr>ad_Enabled := False, ad_Paused := False, ad_PauseReason := '''',
    ad_PendingVersion := '''', ad_LastError := '''', ad_App := app\<rparr>)"
  obtain d2 where off: "finish_update app switch_off ?l e = (Inr ?off, d2)" and h2: "db_healthy d2"
      and i2: "os_indexes (db_stores d2 StoreAppAutoDeploySettings) = opt_Indexes AppAutoDeploySettingsSchema"
      and r2: "map_of (db_rows d2 StoreAppAutoDeploySettings) app = Some (appAutoDeploySettingsRecord ?off)"
    using finish_update_healthy [OF e(2,3), of switch_off ?l _ app] assms(2) by (auto simp: switch_off_def)
  let ?seen = "?l\<lparr>ad_LastSeenVersion := v, ad_PendingVersion := v, ad_LastError := ''''\<rparr>"
  have seen: "see_version v ?l = Inr ?seen" using assms(4-6) by (simp add: see_version_def)
  obtain d3 where fin: "finish_update app (see_version v) ?l d2 = (Inr (normalizeAppAutoDeploySettings (?seen\<lparr>ad_App := app\<rparr>)), d3)"
      and r3: "map_of (db_rows d3 StoreAppAutoDeploySettings) app =
        Some (appAutoDeploySettingsRecord (normalizeAppAutoDeploySettings (?seen\<lparr>ad_App := app\<rparr>)))"
    using finish_update_healthy [where change = "see_version v" and app = app, OF h2 i2 seen] assms(2) by auto
  have "\<not> ad_Enabled ?off" "\<not> ad_Enabled (settings_of (db_rows d2) app)"
    using r2 by (simp_all add: settings_of_def normalizeAppAutoDeploySettings_def appAutoDeploySettingsRecord_def
        recordToAppAutoDeploySettings_def recBool_def)
  moreover have "ad_Enabled (settings_of (db_rows d3) app)" "ad_PendingVersion (settings_of (db_rows d3) app) = v"
    using r3 assms(4,7) by (simp_all add: settings_of_def [of "db_rows d3"] normalizeAppAutoDeploySettings_def
        appAutoDeploySettingsRecord_def recordToAppAutoDeploySettings_def [of "appAutoDeploySettingsRecord _"]
        recBool_def recString_def recordToAppAutoDeploySettings_def)
  ultimately show ?thesis using load e(1) off fin by metis
qed

subsection \<open>Instances\<close>

definition sample_settings :: AppAutoDeploySettings where
  "sample_settings = (new_settings ''mail'')\<lparr>ad_Enabled := True, ad_PendingVersion := ''v2'', ad_LastSeenVersion := ''v2''\<rparr>"

definition auto_db :: db where
  "auto_db = set_rows StoreAppAutoDeploySettings [(''mail'', appAutoDeploySettingsRecord sample_settings)]
     (rollout_db sample_rollout)"

definition sample_controller :: Controller where
  "sample_controller =
     \<lparr>ct_Settings = True, ct_Rollouts = True, ct_ChangeRequests = True, ct_Reader = True, ct_Installer = True,
      ct_Fleet = Some \<lparr>fl_ChangeRequests = True, fl_SourceVersions = True, fl_Heartbeats = True, fl_Rollouts = True,
        fl_HeartbeatTTL = 30000000000\<rparr>,
      ct_Apps = [(''mail'', \<lparr>ac_Registry = ''main'', ac_PublicRoot = ''https://apps'', ac_RegistryApp = ''''\<rparr>)]\<rparr>"

definition not_modified :: "string \<Rightarrow> string \<Rightarrow> string \<Rightarrow> unit AppIndexFetchResult result" where
  "not_modified publicRoot registryApp ifNoneMatch = Inr \<lparr>fr_Index = None, fr_ETag = '''', fr_NotModified = True\<rparr>"

lemma auto_db:
  "db_healthy auto_db" "map_of (db_rows auto_db StoreAppAutoDeploySettings) ''mail'' = Some (appAutoDeploySettingsRecord sample_settings)"
  "db_rows auto_db StoreAppRollouts = [(''mail'', appRolloutRecord sample_rollout)]"
  by (simp_all add: auto_db_def rollout_db_def store_names) (simp add: sample_rollout_def)

theorem auto_deploy_holds_back_witness:
  "held_back (recordToAppAutoDeploySettings (appAutoDeploySettingsRecord sample_settings)) (rollouts (db_rows auto_db) ''mail'') \<and>
   Controller_Reconcile (\<lambda>_. None) (\<lambda>_. '''') 0 not_modified (\<lambda>_ d. (Inr (), d)) sample_controller ''mail'' [] auto_db =
   Controller_Reconcile (\<lambda>_. None) (\<lambda>_. '''') 0 not_modified (\<lambda>_ d. (Inl ErrAppVersionExpired, empty_db)) sample_controller ''mail'' [] auto_db"
proof -
  have m: "TrimSpace ''mail'' = ''mail''" by code_simp
  have f: "plain_failures auto_db" using auto_db(1) by (simp add: plain_failures_def db_healthy_def)
  have "isActiveRolloutState (ro_State (recordToAppRollout (appRolloutRecord sample_rollout)))" by code_simp
  then have h: "held_back (recordToAppAutoDeploySettings (appAutoDeploySettingsRecord sample_settings)) (rollouts (db_rows auto_db) ''mail'')"
    using auto_db(3) by (auto simp: held_back_def rollouts_def isActiveRolloutState_def)
  show ?thesis
    using auto_deploy_holds_back [of auto_db "''mail''", unfolded m, OF f auto_db(2) h] h by blast
qed

theorem settings_update_race_witness:
  "\<exists>loaded d1 off d2 st d3.
    load_settings ''mail'' auto_db = (Inr loaded, d1) \<and>
    AutoDeploySettingsService_Update True ''mail'' (Some switch_off) d1 = (Inr off, d2) \<and>
    finish_update ''mail'' (see_version ''v3'') loaded d2 = (Inr st, d3) \<and>
    \<not> ad_Enabled (settings_of (db_rows d2) ''mail'') \<and> ad_Enabled (settings_of (db_rows d3) ''mail'')"
proof -
  have m: "TrimSpace ''mail'' = ''mail''" "TrimSpace ''v3'' = ''v3''" by code_simp+
  have s: "settings_of (db_rows auto_db) ''mail'' = sample_settings"
    unfolding settings_of_def auto_db(2) option.case by code_simp
  have p: "ad_Enabled sample_settings" "\<not> ad_Paused sample_settings" "ad_LastSeenVersion sample_settings \<noteq> ''v3''"
    by (simp_all add: sample_settings_def new_settings_def)
  show ?thesis
    using settings_update_race [OF auto_db(1) m(1), of "''v3''"] m(2) p unfolding s by blast
qed

end
