(* ===== verification/Control_Invariants.thy ===== *)
theory Control_Invariants
  imports Control_Plane Install_Locks Materializations Rollout_History Auto_Deploy
begin

text \<open>
  The services together. They share one database, and this theory runs their state-changing
  operations on it in any order. \<open>row_invariant\<close> is the contract of an invariant of the database
  that restricts the rows written to it, \<open>control_records\<close> adds that the records of the services
  are such rows, and the lemmas inside show operation by operation that the invariant is kept. The
  interpretation is on the declared column types together with the unique indexes of
  \<^verbatim>\<open>internal/coredata/schemas.go\<close>.
\<close>

subsection \<open>Rows of the declared types\<close>

definition typed_row :: "string \<Rightarrow> rec \<Rightarrow> bool" where
  "typed_row n r = (case map_of declared_stores n of None \<Rightarrow> True | Some schema \<Rightarrow> conforms schema r)"

definition typed_rows :: "db \<Rightarrow> bool" where
  "typed_rows d \<longleftrightarrow> (\<forall>n. list_all (\<lambda>(k, r). typed_row n r) (db_rows d n))"

definition stores_ok :: "db \<Rightarrow> bool" where
  "stores_ok d \<longleftrightarrow> typed_rows d \<and> uniques_ok d \<and> schema_ok d"

lemma typed_rowI:
  assumes "(n, schema) \<in> set declared_stores" and "conforms schema r"
  shows "typed_row n r"
proof -
  have "map_of declared_stores n = Some schema" using assms(1) declared_names by (rule map_of_is_SomeI [rotated])
  then show ?thesis using assms(2) by (simp add: typed_row_def)
qed

lemma typed_rowD: "(n, schema) \<in> set declared_stores \<Longrightarrow> typed_row n r \<Longrightarrow> conforms schema r"
  using map_of_is_SomeI [OF declared_names] by (fastforce simp: typed_row_def)

text \<open>A column by itself, so that a schema is checked without unfolding its columns.\<close>

definition column_ok :: "ColumnDef \<Rightarrow> val option \<Rightarrow> bool" where
  "column_ok c v = (case v of
     None \<Rightarrow> \<not> col_NotNull c \<and> \<not> col_PrimaryKey c
   | Some VNil \<Rightarrow> \<not> col_NotNull c \<and> \<not> col_PrimaryKey c
   | Some v \<Rightarrow> has_type (col_Type c) v)"

lemma conforms_columns: "conforms schema r = list_all (\<lambda>c. column_ok c (r (col_Name c))) (opt_Columns schema)"
  by (simp add: conforms_def column_ok_def)

lemma column_name: "col_Name (column n t nn u) = n" "col_Name (key_column n) = n"
  by (simp_all add: column_def key_column_def)

lemma column_ok_values:
  "column_ok (column n t nn u) None = (\<not> nn)"
  "column_ok (column n t nn u) (Some VNil) = (\<not> nn)"
  "column_ok (column n TypeString nn u) (Some (VString s))"
  "column_ok (column n TypeTime nn u) (Some (VTime at))"
  "column_ok (column n TypeInt nn u) (Some (VInt i))"
  "column_ok (column n TypeBool nn u) (Some (VBool b))"
  "column_ok (column n TypeJSON nn u) (Some (VMap ms))"
  "column_ok (key_column n) (Some (VString s))"
  by (simp_all add: column_ok_def column_def key_column_def)

lemmas column_simps = conforms_columns ObjectStoreOptions.select_convs list.pred_inject column_name fun_upd_apply Let_def

lemma rollout_columns_typed: "conforms AppRolloutsSchema (appRolloutRecord r)"
proof (cases "Option.bind (ro_FailureSummary r) summary_object")
  case None
  then show ?thesis
    by (cases "ro_FailureSummary r"; simp only: Option.bind.simps column_simps AppRolloutsSchema_def appRolloutRecord_def
        opt_time_apply option.case)
      (simp_all add: column_ok_values)
next
  case (Some v)
  then obtain a where "ro_FailureSummary r = Some a" "summary_object a = Some v" by (cases "ro_FailureSummary r") auto
  then show ?thesis
    by (simp only: column_simps AppRolloutsSchema_def appRolloutRecord_def opt_time_apply option.case)
      (simp add: column_ok_values)
qed

lemma materialization_columns_typed:
  assumes "conforms AppInstanceMaterializationsSchema rec"
  shows "conforms AppInstanceMaterializationsSchema (reset_progress sourceVersion t rec)"
    and "conforms AppInstanceMaterializationsSchema (failed_record now t message rec)"
    and "conforms AppInstanceMaterializationsSchema (rec(''source_version'' \<mapsto> VString v))"
    and "conforms AppInstanceMaterializationsSchema (rec(''materialized_at'' \<mapsto> VTime t))"
    and "conforms AppInstanceMaterializationsSchema (rec(''stopped_at'' \<mapsto> VTime t))"
    and "conforms AppInstanceMaterializationsSchema (rec(''restarted_at'' \<mapsto> VTime t))"
  using assms
  by (simp_all only: column_simps AppInstanceMaterializationsSchema_def reset_progress_def failed_record_def
      if_distrib [of "\<lambda>f. f _"])
    (simp_all add: column_ok_values)

lemma change_request_columns_typed:
  "conforms AppVersionChangeRequestsSchema (change_request_record new_id now request)"
  by (cases "cr_FromVersionDeployableUntil request"; cases "cr_Metadata request";
      simp only: column_simps AppVersionChangeRequestsSchema_def change_request_record_def option.case)
    (simp_all add: column_ok_values)

lemma heartbeat_columns_typed: "conforms GestaltdInstanceHeartbeatsSchema (heartbeat_record h)"
proof -
  obtain ms where "heartbeatAppsJSONValue (hb_Apps h) = VMap ms"
    by (cases "json_any (VMap (map (\<lambda>(app, ob). (app, observation_object ob)) (hb_Apps h)))")
      (auto simp: heartbeatAppsJSONValue_def)
  then show ?thesis by (simp add: column_simps column_ok_values GestaltdInstanceHeartbeatsSchema_def heartbeat_record_def)
qed

lemma outcome_columns_typed:
  "conforms AppVersionRolloutOutcomesSchema (outcome_record changeRequestID app version completedAt failedAt)"
  by (simp add: column_simps column_ok_values AppVersionRolloutOutcomesSchema_def outcome_record_def Let_def)

lemma plain_columns_typed:
  "conforms AppVersionInstallLocksSchema (lock_record key l)"
  "conforms GestaltdSourceVersionStateSchema (gestaltdSourceVersionStateRecord now st)"
  "conforms AppVersionRecoveryObservationsSchema (recovery_record ob)"
  "conforms AppAutoDeploySettingsSchema (appAutoDeploySettingsRecord settings)"
  "conforms AppInstanceMaterializationsSchema
     (new_materialization_record new_id instanceID sourceVersion app version acknowledgedAt)"
  by (simp_all add: column_simps column_ok_values AppVersionInstallLocksSchema_def lock_record_def
      GestaltdSourceVersionStateSchema_def gestaltdSourceVersionStateRecord_def
      AppVersionRecoveryObservationsSchema_def recovery_record_def
      AppAutoDeploySettingsSchema_def appAutoDeploySettingsRecord_def
      AppInstanceMaterializationsSchema_def new_materialization_record_def)

subsection \<open>Every state-changing operation\<close>

inductive service_step :: "db \<Rightarrow> db \<Rightarrow> bool" where
  rollout_created: "AppRolloutService_Create s now r d = (x, d') \<Longrightarrow> service_step d d'"
| rollout_moved: "AppRolloutService_transition s now app v st at ex d = (x, d') \<Longrightarrow> service_step d d'"
| rollout_evaluated: "AppRolloutService_EvaluateHeartbeatRollout s now e ev d = (y, d') \<Longrightarrow> service_step d d'"
| rollout_targeted: "GestaltdSourceVersionService_CreateAppRollout s now r d = (x, d') \<Longrightarrow> service_step d d'"
| version_activated: "GestaltdSourceVersionService_ActivateWithRolloutMode s now sv at retry ew rt mode mins d = (z, d') \<Longrightarrow>
    service_step d d'"
| pause_changed: "GestaltdSourceVersionService_changeAppDeployPause s now owner token acquire d = (z, d') \<Longrightarrow>
    service_step d d'"
| workers_promoted: "GestaltdSourceVersionService_MarkTemporalWorkersPromoted s now sv at d = (z, d') \<Longrightarrow>
    service_step d d'"
| lock_acquired: "AppVersionInstallLockService_Acquire s now app v holder ttl d = (u, d') \<Longrightarrow> service_step d d'"
| lock_released: "AppVersionInstallLockService_Release s app v holder d = (u, d') \<Longrightarrow> service_step d d'"
| request_appended: "AppVersionChangeRequestService_AppendRequest unmarshal new_id now request d = (w, d') \<Longrightarrow>
    service_step d d'"
| heartbeat_written: "GestaltdInstanceHeartbeatService_Upsert s hb d = (h, d') \<Longrightarrow> service_step d d'"
| heartbeat_deleted: "GestaltdInstanceHeartbeatService_Delete s i d = (u, d') \<Longrightarrow> service_step d d'"
| heartbeats_pruned: "GestaltdInstanceHeartbeatService_PruneBefore s cutoff d = (p, d') \<Longrightarrow> service_step d d'"
| materialization_changed: "materialization_step d d' \<Longrightarrow> service_step d d'"
| history_recorded: "history_step d d' \<Longrightarrow> service_step d d'"
| settings_updated: "AutoDeploySettingsService_Update s app change d = (q, d') \<Longrightarrow> service_step d d'"
| settings_updated_for: "AutoDeploySettingsService_UpdateForRollout s r change d = (q', d') \<Longrightarrow> service_step d d'"

subsection \<open>Invariants that restrict the rows\<close>

locale row_invariant =
  fixes inv :: "db \<Rightarrow> bool" and ok :: "string \<Rightarrow> rec \<Rightarrow> bool"
  assumes inv_stores: "inv d \<Longrightarrow> db_stores d' = db_stores d \<Longrightarrow> inv d'"
    and inv_put: "inv d \<Longrightarrow> ok n r \<Longrightarrow> store_Put n r d = (x, d') \<Longrightarrow> inv d'"
    and inv_add: "inv d \<Longrightarrow> ok n r \<Longrightarrow> store_Add n r d = (x, d') \<Longrightarrow> inv d'"
    and inv_delete: "inv d \<Longrightarrow> store_Delete n k d = (x, d') \<Longrightarrow> inv d'"
    and inv_ensure: "inv d \<Longrightarrow> (n, schema) \<in> set declared_stores \<Longrightarrow>
      \<not> list_ex ix_unique (opt_Indexes schema) \<Longrightarrow> CreateObjectStore n schema d = (x, d') \<Longrightarrow> inv d'"
    and inv_row: "inv d \<Longrightarrow> (k, r) \<in> set (db_rows d n) \<Longrightarrow> ok n r"
begin

lemma inv_read:
  "inv d \<Longrightarrow> store_Get n k d = (x, d') \<Longrightarrow> inv d'"
  "inv d \<Longrightarrow> store_GetAll n q c d = (y, d') \<Longrightarrow> inv d'"
  "inv d \<Longrightarrow> index_GetAll n kp q d = (y, d') \<Longrightarrow> inv d'"
  by (rule inv_stores, assumption, erule store_read_stores)+

lemma row_read: "inv d \<Longrightarrow> index_GetAll n kp q d = (Inr (r # rs), d') \<Longrightarrow> ok n r"
proof -
  assume "inv d" and "index_GetAll n kp q d = (Inr (r # rs), d')"
  then have "r \<in> set (rows_index_GetAll (db_rows d n) kp q)" by (metis index_GetAll_Inr list.set_intros(1))
  then show "ok n r" using inv_row \<open>inv d\<close> unfolding index_rows by fastforce
qed

lemma inv_with_tx:
  assumes "with_tx m body d = (x, d')" and "inv d" and "\<And>d1 t d2. body d1 = (t, d2) \<Longrightarrow> inv d1 \<Longrightarrow> inv d2"
  shows "inv d'"
proof (cases x)
  case (Inl e)
  show ?thesis by (rule inv_stores [OF assms(2) with_tx_Inl [OF assms(1) [unfolded Inl]]])
next
  case (Inr a)
  from assms(1) [unfolded Inr] show ?thesis
  proof (cases rule: with_tx_Inr)
    case (commit d1 d2 msg)
    show ?thesis by (rule inv_stores [OF assms(3) [OF commit(3) inv_stores [OF assms(2) commit(1)]] commit(4)])
  next
    case (return d1 d2)
    show ?thesis by (rule inv_stores [OF assms(2) return(4)])
  qed
qed

end


text \<open>The records the services write are admissible rows.\<close>

locale control_records = row_invariant +
  assumes ok_rollout: "ok StoreAppRollouts (appRolloutRecord r)"
    and ok_state: "ok StoreGestaltdSourceVersionState (gestaltdSourceVersionStateRecord now st)"
    and ok_lock: "ok StoreAppVersionInstallLocks (lock_record key l)"
    and ok_request: "ok StoreAppVersionChangeRequests (change_request_record new_id now request)"
    and ok_heartbeat: "ok StoreGestaltdInstanceHeartbeats (heartbeat_record h)"
    and ok_materialization: "ok StoreAppInstanceMaterializations
      (new_materialization_record new_id i sourceVersion app version at)"
    and ok_reset: "ok StoreAppInstanceMaterializations rec \<Longrightarrow>
      ok StoreAppInstanceMaterializations (reset_progress sourceVersion at rec)"
    and ok_failed: "ok StoreAppInstanceMaterializations rec \<Longrightarrow>
      ok StoreAppInstanceMaterializations (failed_record now at message rec)"
    and ok_source: "ok StoreAppInstanceMaterializations rec \<Longrightarrow>
      ok StoreAppInstanceMaterializations (rec(''source_version'' \<mapsto> VString sourceVersion))"
    and ok_materialized: "ok StoreAppInstanceMaterializations rec \<Longrightarrow>
      ok StoreAppInstanceMaterializations (rec(''materialized_at'' \<mapsto> VTime at))"
    and ok_stopped: "ok StoreAppInstanceMaterializations rec \<Longrightarrow>
      ok StoreAppInstanceMaterializations (rec(''stopped_at'' \<mapsto> VTime at))"
    and ok_restarted: "ok StoreAppInstanceMaterializations rec \<Longrightarrow>
      ok StoreAppInstanceMaterializations (rec(''restarted_at'' \<mapsto> VTime at))"
    and ok_outcome: "ok StoreAppVersionRolloutOutcomes (outcome_record i app version completedAt failedAt)"
    and ok_recovery: "ok StoreAppVersionRecoveryObservations (recovery_record ob)"
    and ok_settings: "ok StoreAppAutoDeploySettings (appAutoDeploySettingsRecord settings)"
begin

lemmas inv_rules = inv_delete inv_read
  inv_put [OF _ ok_rollout] inv_add [OF _ ok_rollout] inv_put [OF _ ok_state]
  inv_put [OF _ ok_lock] inv_add [OF _ ok_lock] inv_add [OF _ ok_request] inv_put [OF _ ok_heartbeat]
  inv_add [OF _ ok_materialization] inv_add [OF _ ok_outcome] inv_add [OF _ ok_recovery] inv_put [OF _ ok_settings]

lemmas store_splits = if_splits prod.splits sum.splits list.splits option.splits

lemma inv_create_body: "create_body op r d = (x, d') \<Longrightarrow> inv d \<Longrightarrow> inv d'"
  by (auto simp: create_body_def dest: inv_rules split: store_splits)

lemma inv_transition_body: "transition_body now app v st at ex d = (x, d') \<Longrightarrow> inv d \<Longrightarrow> inv d'"
  by (auto simp: transition_body_def Let_def dest: inv_rules split: store_splits)

lemma inv_evaluate_body: "evaluate_body at e ev d = (x, d') \<Longrightarrow> inv d \<Longrightarrow> inv d'"
  by (auto simp: evaluate_body_def Let_def dest: inv_rules split: store_splits)

lemma inv_create_app_rollout_body: "create_app_rollout_body now r d = (x, d') \<Longrightarrow> inv d \<Longrightarrow> inv d'"
  by (auto simp: create_app_rollout_body_def Let_def dest: inv_rules inv_create_body split: store_splits)

lemma inv_retarget_rollouts: "retarget_rollouts a st recs d = (x, d') \<Longrightarrow> inv d \<Longrightarrow> inv d'"
  by (induction a st recs d rule: retarget_rollouts.induct) (auto simp: Let_def dest: inv_rules split: store_splits)

lemma inv_retarget_all: "retarget_all a st d = (x, d') \<Longrightarrow> inv d \<Longrightarrow> inv d'"
  by (auto simp: retarget_all_def dest: inv_rules inv_retarget_rollouts split: store_splits)

lemma inv_activate_body: "activate_body now a d = (x, d') \<Longrightarrow> inv d \<Longrightarrow> inv d'"
  by (auto simp: activate_body_def Let_def dest: inv_rules inv_retarget_all split: store_splits)

lemma inv_pause_body: "pause_body now owner token acquire d = (x, d') \<Longrightarrow> inv d \<Longrightarrow> inv d'"
  by (auto simp: pause_body_def Let_def dest: inv_rules split: store_splits)

lemma inv_promote_body: "promote_body now sv at d = (x, d') \<Longrightarrow> inv d \<Longrightarrow> inv d'"
  by (auto simp: promote_body_def Let_def dest: inv_rules split: store_splits)

lemma inv_clear_locks: "clear_locks key app holder now recs d = (x, d') \<Longrightarrow> inv d \<Longrightarrow> inv d'"
  by (induction key app holder now recs d rule: clear_locks.induct)
    (auto simp: Let_def dest: inv_rules split: store_splits)

lemma inv_tryAddLock: "tryAddLock key l d = (x, d') \<Longrightarrow> inv d \<Longrightarrow> inv d'"
  by (auto simp: tryAddLock_def dest: inv_rules split: store_splits)

lemma inv_take_stale: "take_stale key l d = (x, d') \<Longrightarrow> inv d \<Longrightarrow> inv d'"
  by (auto simp: take_stale_def dest: inv_tryAddLock split: store_splits)

lemma inv_take_existing: "take_existing key l now existing d = (x, d') \<Longrightarrow> inv d \<Longrightarrow> inv d'"
  by (auto simp: take_existing_def putLock_def Let_def dest: inv_rules inv_take_stale split: store_splits)

lemma inv_take_lock: "take_lock key l now d = (x, d') \<Longrightarrow> inv d \<Longrightarrow> inv d'"
  by (auto simp: take_lock_def dest: inv_rules inv_tryAddLock inv_take_existing split: store_splits)

lemma inv_Acquire: "AppVersionInstallLockService_Acquire s now app v holder ttl d = (x, d') \<Longrightarrow> inv d \<Longrightarrow> inv d'"
  by (auto simp: AppVersionInstallLockService_Acquire_def clearStaleAndCheckAppLocks_def Let_def
      dest: inv_rules inv_clear_locks inv_take_lock split: store_splits)

lemma inv_Release: "AppVersionInstallLockService_Release s app v holder d = (x, d') \<Longrightarrow> inv d \<Longrightarrow> inv d'"
  by (auto simp: AppVersionInstallLockService_Release_def Let_def dest: inv_rules split: store_splits)

lemma inv_AppendRequest:
  "AppVersionChangeRequestService_AppendRequest unmarshal new_id now request d = (x, d') \<Longrightarrow> inv d \<Longrightarrow> inv d'"
  by (auto simp: AppVersionChangeRequestService_AppendRequest_def Let_def dest: inv_rules split: store_splits)

lemma inv_Upsert: "GestaltdInstanceHeartbeatService_Upsert s hb d = (x, d') \<Longrightarrow> inv d \<Longrightarrow> inv d'"
  by (auto simp: GestaltdInstanceHeartbeatService_Upsert_def gestaltdInstanceHeartbeatRecord_def Let_def
      dest: inv_rules split: store_splits)

lemma inv_prune_heartbeats: "prune_heartbeats recs p d = (x, d') \<Longrightarrow> inv d \<Longrightarrow> inv d'"
  by (induction recs p d rule: prune_heartbeats.induct) (auto simp: Let_def dest: inv_rules split: store_splits)

lemma inv_prune_body: "prune_body cutoff d = (x, d') \<Longrightarrow> inv d \<Longrightarrow> inv d'"
  by (auto simp: prune_body_def dest: inv_rules inv_prune_heartbeats split: store_splits)

lemma inv_find:
  assumes "findByInstanceAppVersion i app v d = (x, d')" and "inv d"
  shows "inv d'" and "x = Inr rec \<Longrightarrow> ok StoreAppInstanceMaterializations rec"
  using assms by (auto simp: findByInstanceAppVersion_def Let_def dest: inv_rules row_read split: store_splits)

lemma inv_acknowledge_existing:
  assumes "acknowledge_existing now sv requested at existing d = (x, d')" and "inv d"
    and "ok StoreAppInstanceMaterializations existing"
  shows "inv d'"
  using assms
  by (auto simp: acknowledge_existing_def Let_def
      dest: inv_put [OF _ assms(3)] inv_put [OF _ ok_source [OF assms(3)]] inv_put [OF _ ok_reset [OF assms(3)]]
        inv_put [OF _ ok_reset [OF ok_source [OF assms(3)]]]
      split: store_splits)

lemma inv_acknowledge_new:
  assumes "acknowledge_new i app v (new_materialization_record new_id i sv app v at) d = (x, d')" and "inv d"
  shows "inv d'"
  using assms by (auto simp: acknowledge_new_def dest: inv_rules inv_find(1) split: store_splits)

lemma inv_acknowledge: "acknowledge s new_id now ma at d = (x, d') \<Longrightarrow> inv d \<Longrightarrow> inv d'"
  by (auto simp: acknowledge_def Let_def dest: inv_find inv_acknowledge_existing inv_acknowledge_new split: store_splits)

lemma inv_updateTimestamps:
  assumes "updateTimestamps s i app v f d = (x, d')" and "inv d"
    and "\<And>rec. ok StoreAppInstanceMaterializations rec \<Longrightarrow> ok StoreAppInstanceMaterializations (f rec)"
  shows "inv d'"
  using assms(1,2)
  by (auto simp: updateTimestamps_def dest: inv_find(1) inv_put [OF _ assms(3) [OF inv_find(2) [OF _ _ refl]]]
      split: store_splits)

lemma inv_record_failure_body:
  "record_failure_body i app v (failed_record now at message) d = (x, d') \<Longrightarrow> inv d \<Longrightarrow> inv d'"
  by (auto simp: record_failure_body_def dest: inv_rules row_read inv_put [OF _ ok_failed] split: store_splits)

lemma inv_materialization_step: "materialization_step d d' \<Longrightarrow> inv d \<Longrightarrow> inv d'"
proof (induction rule: materialization_step.induct)
  case (failed s now i app v at msg d x d')
  then show ?case
    by (auto simp: AppInstanceMaterializationService_RecordFailure_def
        dest: inv_with_tx [OF _ _ inv_record_failure_body] split: if_splits)
qed (auto simp: AppInstanceMaterializationService_Acknowledge_def
    AppInstanceMaterializationService_AcknowledgeForRollout_def AppInstanceMaterializationService_MarkMaterialized_def
    AppInstanceMaterializationService_MarkStopped_def AppInstanceMaterializationService_MarkRestarted_def
    dest: inv_acknowledge inv_updateTimestamps [OF _ _ ok_materialized] inv_updateTimestamps [OF _ _ ok_stopped]
      inv_updateTimestamps [OF _ _ ok_restarted])

lemma inv_ensure_outcomes: "AppVersionRolloutOutcomeService_EnsureStore s d = (x, d') \<Longrightarrow> inv d \<Longrightarrow> inv d'"
  by (auto simp: AppVersionRolloutOutcomeService_EnsureStore_def ensureAppVersionRolloutOutcomesStore_def
      AppVersionRolloutOutcomesSchema_def dest: inv_ensure [OF _ schema_member(7)] split: store_splits)

lemma inv_ensure_settings: "AutoDeploySettingsService_EnsureStore s d = (x, d') \<Longrightarrow> inv d \<Longrightarrow> inv d'"
  by (auto simp: AutoDeploySettingsService_EnsureStore_def ensureAppAutoDeploySettingsStore_def
      AppAutoDeploySettingsSchema_def index_def dest: inv_ensure [OF _ schema_member(6)] split: store_splits)

lemma inv_get_history:
  "AppVersionRolloutOutcomeService_Get s i d = (x, d') \<Longrightarrow> inv d \<Longrightarrow> inv d'"
  "AppVersionRecoveryObservationService_Get s i d = (y, d') \<Longrightarrow> inv d \<Longrightarrow> inv d'"
  by (auto simp: AppVersionRolloutOutcomeService_Get_def AppVersionRecoveryObservationService_Get_def
      dest: inv_rules split: store_splits)

lemma inv_record_outcome: "record_outcome s i app v completedAt failedAt d = (x, d') \<Longrightarrow> inv d \<Longrightarrow> inv d'"
  by (auto simp: record_outcome_def Let_def dest: inv_rules inv_ensure_outcomes inv_get_history split: store_splits)

lemma inv_recovery_record: "AppVersionRecoveryObservationService_Record s ob d = (x, d') \<Longrightarrow> inv d \<Longrightarrow> inv d'"
  by (auto simp: AppVersionRecoveryObservationService_Record_def appVersionRecoveryObservationRecord_def Let_def
      dest: inv_rules inv_get_history split: store_splits)

lemma inv_recovery_source: "recovery_source ob d = (x, d') \<Longrightarrow> inv d \<Longrightarrow> inv d'"
  by (auto simp: recovery_source_def recovery_add_def Let_def dest: inv_rules split: store_splits)

lemma inv_recovery_outcome: "recovery_outcome ob d = (x, d') \<Longrightarrow> inv d \<Longrightarrow> inv d'"
  by (auto simp: recovery_outcome_def Let_def dest: inv_rules inv_recovery_source split: store_splits)

lemma inv_recovery_body: "recovery_body unmarshal ob d = (x, d') \<Longrightarrow> inv d \<Longrightarrow> inv d'"
  by (auto simp: recovery_body_def Let_def dest: inv_rules inv_recovery_outcome split: store_splits)

lemma inv_fenced_recovery:
  "AppVersionRecoveryObservationService_RecordIfCurrentFailed unmarshal s ob d = (x, d') \<Longrightarrow> inv d \<Longrightarrow> inv d'"
  by (auto simp: AppVersionRecoveryObservationService_RecordIfCurrentFailed_def
      dest: inv_with_tx [OF _ _ inv_recovery_body] inv_get_history split: store_splits)

lemma inv_history_step: "history_step d d' \<Longrightarrow> inv d \<Longrightarrow> inv d'"
  by (induction rule: history_step.induct)
    (auto simp: AppVersionRolloutOutcomeService_RecordComplete_def AppVersionRolloutOutcomeService_RecordFailed_def
      dest: inv_record_outcome inv_recovery_record inv_fenced_recovery)

lemma inv_load_settings: "load_settings app d = (x, d') \<Longrightarrow> inv d \<Longrightarrow> inv d'"
  by (auto simp: load_settings_def dest: inv_rules split: store_splits)

lemma inv_finish_update: "finish_update app change settings d = (x, d') \<Longrightarrow> inv d \<Longrightarrow> inv d'"
  by (auto simp: finish_update_def Let_def dest: inv_rules split: store_splits)

lemma inv_settings_Update: "AutoDeploySettingsService_Update s app change d = (x, d') \<Longrightarrow> inv d \<Longrightarrow> inv d'"
  by (auto simp: AutoDeploySettingsService_Update_def Let_def
      dest: inv_ensure_settings inv_load_settings inv_finish_update split: store_splits)

lemma inv_update_for_rollout_body: "update_for_rollout_body app e change d = (x, d') \<Longrightarrow> inv d \<Longrightarrow> inv d'"
  by (auto 0 7 simp: update_for_rollout_body_def Let_def dest: inv_rules split: store_splits)

lemma inv_UpdateForRollout:
  "AutoDeploySettingsService_UpdateForRollout s r change d = (x, d') \<Longrightarrow> inv d \<Longrightarrow> inv d'"
  by (auto simp: AutoDeploySettingsService_UpdateForRollout_def Let_def
      dest: inv_ensure_settings inv_with_tx [OF _ _ inv_update_for_rollout_body] split: store_splits)

lemma inv_service_step: "service_step d d' \<Longrightarrow> inv d \<Longrightarrow> inv d'"
  by (induction rule: service_step.induct)
    (auto simp: AppRolloutService_Create_def AppRolloutService_transition_def
      AppRolloutService_EvaluateHeartbeatRollout_def GestaltdSourceVersionService_CreateAppRollout_def
      GestaltdSourceVersionService_ActivateWithRolloutMode_def GestaltdSourceVersionService_changeAppDeployPause_def
      GestaltdSourceVersionService_MarkTemporalWorkersPromoted_def GestaltdInstanceHeartbeatService_Delete_def
      GestaltdInstanceHeartbeatService_PruneBefore_def Let_def
      dest: inv_rules inv_with_tx [OF _ _ inv_create_body] inv_with_tx [OF _ _ inv_transition_body]
        inv_with_tx [OF _ _ inv_evaluate_body] inv_with_tx [OF _ _ inv_create_app_rollout_body]
        inv_with_tx [OF _ _ inv_activate_body] inv_with_tx [OF _ _ inv_pause_body]
        inv_with_tx [OF _ _ inv_promote_body] inv_with_tx [OF _ _ inv_prune_body]
        inv_Acquire inv_Release inv_AppendRequest inv_Upsert inv_materialization_step inv_history_step
        inv_settings_Update inv_UpdateForRollout
      split: store_splits)

lemma inv_service_run: "service_step\<^sup>*\<^sup>* d d' \<Longrightarrow> inv d \<Longrightarrow> inv d'"
  by (induction rule: rtranclp_induct) (simp_all add: inv_service_step)

end

subsection \<open>The declared schema as such an invariant\<close>

lemma set_alist_update: "list_all (\<lambda>(k, r). P r) rows \<Longrightarrow> P r \<Longrightarrow> list_all (\<lambda>(k, r). P r) (AList.update k r rows)"
  by (induction rows) auto

lemma typed_rows_write:
  assumes "typed_rows d"
  shows "typed_row n r \<Longrightarrow> store_Put n r d = (x, d') \<Longrightarrow> typed_rows d'"
    and "typed_row n r \<Longrightarrow> store_Add n r d = (x, d') \<Longrightarrow> typed_rows d'"
    and "store_Delete n k d = (x, d') \<Longrightarrow> typed_rows d'"
    and "CreateObjectStore n schema d = (x, d') \<Longrightarrow> typed_rows d'"
    and "db_stores d' = db_stores d \<Longrightarrow> typed_rows d'"
proof -
  have same: "typed_rows d'" if "db_rows d' = db_rows d"
    using assms that by (simp add: typed_rows_def)
  have put: "typed_rows d'" if "typed_row n r" "db_rows d' = (db_rows d)(n := AList.update (record_id r) r (db_rows d n))"
    using assms that by (auto simp: typed_rows_def intro!: set_alist_update)
  have del: "typed_rows d'" if "db_rows d' = (db_rows d)(n := AList.delete k (db_rows d n))"
    using assms that by (auto simp: typed_rows_def AList.delete_eq list_all_iff)
  show "typed_row n r \<Longrightarrow> store_Put n r d = (x, d') \<Longrightarrow> typed_rows d'"
    by (cases x) (auto intro: put same dest: store_Put_Inr store_write_Inl(2) [THEN db_rows_stores])
  show "typed_row n r \<Longrightarrow> store_Add n r d = (x, d') \<Longrightarrow> typed_rows d'"
    by (cases x) (auto intro: put same dest: store_Add_Inr(1) store_write_Inl(1) [THEN db_rows_stores])
  show "store_Delete n k d = (x, d') \<Longrightarrow> typed_rows d'"
    by (cases x) (auto intro: del same dest: store_Delete_Inr store_write_Inl(3) [THEN db_rows_stores])
  show "CreateObjectStore n schema d = (x, d') \<Longrightarrow> typed_rows d'"
    by (auto intro: same dest: CreateObjectStore_run(1))
  show "db_stores d' = db_stores d \<Longrightarrow> typed_rows d'"
    by (intro same db_rows_stores)
qed

lemma ensure_keeps:
  assumes "CreateObjectStore n schema d = (x, d')" and "(n, schema) \<in> set declared_stores"
  shows "schema_ok d \<Longrightarrow> schema_ok d'"
    and "uniques_ok d \<Longrightarrow> \<not> list_ex ix_unique (opt_Indexes schema) \<Longrightarrow> uniques_ok d'"
proof -
  have "declared_indexes n = opt_Indexes schema"
    using assms(2) map_of_is_SomeI [OF declared_names] by (simp add: declared_indexes_def)
  then show "schema_ok d \<Longrightarrow> schema_ok d'"
    using assms(1) by (auto simp: schema_ok_def CreateObjectStore_def elim!: db_op_cases)
  show "uniques_ok d \<Longrightarrow> \<not> list_ex ix_unique (opt_Indexes schema) \<Longrightarrow> uniques_ok d'"
    using assms(1)
    by (auto simp: uniques_ok_def unique_rows_def list_ex_iff CreateObjectStore_def elim!: db_op_cases)
qed

interpretation plane: control_records stores_ok typed_row
proof unfold_locales
  fix d d' x and n :: string and r :: rec and schema
  assume d: "stores_ok d"
  show "stores_ok d'" if "db_stores d' = db_stores d"
    using d that typed_rows_write(5) schema_inv.inv_stores unique_inv.inv_stores unfolding stores_ok_def by blast
  show "stores_ok d'" if "typed_row n r" "store_Put n r d = (x, d')"
    using d that typed_rows_write(1) schema_inv.inv_put unique_inv.inv_put unfolding stores_ok_def by blast
  show "stores_ok d'" if "typed_row n r" "store_Add n r d = (x, d')"
    using d that typed_rows_write(2) schema_inv.inv_add unique_inv.inv_add unfolding stores_ok_def by blast
  show "stores_ok d'" if "store_Delete n k d = (x, d')" for k
    using d that typed_rows_write(3) schema_inv.inv_delete unique_inv.inv_delete unfolding stores_ok_def by blast
  show "stores_ok d'" if "(n, schema) \<in> set declared_stores" "\<not> list_ex ix_unique (opt_Indexes schema)"
      "CreateObjectStore n schema d = (x, d')"
    using d that typed_rows_write(4) ensure_keeps unfolding stores_ok_def by blast
  show "typed_row n r" if "(k, r) \<in> set (db_rows d n)" for k
    using d that by (auto simp: stores_ok_def typed_rows_def list_all_iff)
qed (auto intro!: typed_rowI [OF schema_member(1)] typed_rowI [OF schema_member(2)] typed_rowI [OF schema_member(3)]
    typed_rowI [OF schema_member(4)] typed_rowI [OF schema_member(5)] typed_rowI [OF schema_member(6)]
    typed_rowI [OF schema_member(7)] typed_rowI [OF schema_member(8)] typed_rowI [OF schema_member(9)]
    rollout_columns_typed materialization_columns_typed change_request_columns_typed heartbeat_columns_typed
    outcome_columns_typed plain_columns_typed
    dest: typed_rowD [OF schema_member(5)])

lemma empty_stores_ok: "stores_ok empty_db"
  by (simp add: stores_ok_def typed_rows_def uniques_ok_def unique_rows_def unique_on_def) (simp add: empty_db_def)



end
