(* ===== verification/Tool_Names.thy ===== *)
theory Tool_Names
  imports Gestalt_Prelude "HOL-Library.Word"
begin

unbundle bit_operations_syntax

text \<open>
  The names of tool inputs, \<^verbatim>\<open>core/toolschema/names.go\<close>. A provider's field names become names a
  model accepts: at most 64 letters, digits, underscores, periods and hyphens. Strings are byte
  lists, so the loop over the runes of a name decodes UTF-8 as the language does: a byte that
  starts no valid encoding is one rune of its own. The hash of a long name is the 32 bit FNV-1a
  hash, over words of that width.

  The loop that looks for a free name has no bound in the code. It is \<open>unique_loop\<close>, with
  \<open>None\<close> where it would not return; the counter is a natural number, and the theorem that the loop
  ends also bounds the counter by the number of names in use, so that it stays far below the
  width of an integer.
\<close>

subsection \<open>Runes\<close>

abbreviation byte :: "char \<Rightarrow> nat" where "byte c \<equiv> of_char c"

definition RuneError :: nat where "RuneError = 0xFFFD"

definition is_cont :: "char \<Rightarrow> bool" where
  "is_cont c \<longleftrightarrow> 0x80 \<le> byte c \<and> byte c \<le> 0xBF"

text \<open>The range of the second byte after the first, which excludes overlong forms and surrogates.\<close>

definition second_ok :: "nat \<Rightarrow> char \<Rightarrow> bool" where
  "second_ok b c \<longleftrightarrow>
     (if b = 0xE0 then 0xA0 \<le> byte c \<and> byte c \<le> 0xBF
      else if b = 0xED then 0x80 \<le> byte c \<and> byte c \<le> 0x9F
      else if b = 0xF0 then 0x90 \<le> byte c \<and> byte c \<le> 0xBF
      else if b = 0xF4 then 0x80 \<le> byte c \<and> byte c \<le> 0x8F
      else is_cont c)"

definition cont_bits :: "char \<Rightarrow> nat" where
  "cont_bits c = byte c mod 0x40"

text \<open>The first rune of a string that starts with \<open>c\<close>, and how many bytes it takes.\<close>

definition DecodeRune :: "char \<Rightarrow> string \<Rightarrow> nat \<times> nat" where
  "DecodeRune c cs =
     (let b = byte c in
      if b < 0x80 then (b, 1)
      else if b < 0xC2 \<or> 0xF4 < b then (RuneError, 1)
      else if b < 0xE0 then
        (case cs of
           c1 # _ \<Rightarrow> if second_ok b c1 then (b mod 0x20 * 0x40 + cont_bits c1, 2) else (RuneError, 1)
         | _ \<Rightarrow> (RuneError, 1))
      else if b < 0xF0 then
        (case cs of
           c1 # c2 # _ \<Rightarrow>
             if second_ok b c1 \<and> is_cont c2
             then ((b mod 0x10 * 0x40 + cont_bits c1) * 0x40 + cont_bits c2, 3) else (RuneError, 1)
         | _ \<Rightarrow> (RuneError, 1))
      else
        (case cs of
           c1 # c2 # c3 # _ \<Rightarrow>
             if second_ok b c1 \<and> is_cont c2 \<and> is_cont c3
             then (((b mod 0x08 * 0x40 + cont_bits c1) * 0x40 + cont_bits c2) * 0x40 + cont_bits c3, 4)
             else (RuneError, 1)
         | _ \<Rightarrow> (RuneError, 1)))"

fun runes :: "string \<Rightarrow> nat list" where
  "runes [] = []"
| "runes (c # cs) = fst (DecodeRune c cs) # runes (drop (snd (DecodeRune c cs) - 1) cs)"

subsection \<open>Safe names\<close>

definition MaxPropertyNameLength :: nat where "MaxPropertyNameLength = 64"

definition isPropertyNameChar :: "nat \<Rightarrow> bool" where
  "isPropertyNameChar r \<longleftrightarrow>
     byte CHR ''a'' \<le> r \<and> r \<le> byte CHR ''z'' \<or>
     byte CHR ''A'' \<le> r \<and> r \<le> byte CHR ''Z'' \<or>
     byte CHR ''0'' \<le> r \<and> r \<le> byte CHR ''9'' \<or>
     r = byte CHR ''_'' \<or> r = byte CHR ''.'' \<or> r = byte CHR ''-''"

text \<open>The pattern \<^verbatim>\<open>^[a-zA-Z0-9_.-]{1,64}$\<close>.\<close>

definition ValidPropertyName :: "string \<Rightarrow> bool" where
  "ValidPropertyName name \<longleftrightarrow>
     1 \<le> length name \<and> length name \<le> MaxPropertyNameLength \<and> list_all (\<lambda>c. isPropertyNameChar (byte c)) name"

definition writeNamedSeparator :: "string \<Rightarrow> string \<Rightarrow> string" where
  "writeNamedSeparator b name = (if 0 < length b then b @ ''_'' else b) @ name @ ''_''"

definition write_rune :: "string \<Rightarrow> nat \<Rightarrow> string" where
  "write_rune b r =
     (if isPropertyNameChar r then b @ [char_of r]
      else if r = byte CHR ''['' then b @ ''_''
      else if r = byte CHR '']'' then b
      else if r = byte CHR ''$'' then writeNamedSeparator b ''dollar''
      else if r = byte CHR ''@'' then writeNamedSeparator b ''at''
      else if r = byte CHR 0x27 \<or> r = byte CHR 0x22 \<or> r = byte CHR 0x60 then b
      else b @ ''_'')"

definition hashPropertyName :: "string \<Rightarrow> 32 word" where
  "hashPropertyName raw = foldl (\<lambda>h c. (h XOR of_nat (byte c)) * 16777619) 2166136261 raw"

definition hex_digit :: "nat \<Rightarrow> char" where
  "hex_digit n = (if n < 10 then char_of (48 + n) else char_of (87 + n))"

text \<open>\<^verbatim>\<open>%08x\<close> of a 32 bit word, which has eight digits.\<close>

definition format_08x :: "32 word \<Rightarrow> string" where
  "format_08x w = map (\<lambda>i. hex_digit (unat (drop_bit (4 * i) w AND 15))) [7, 6, 5, 4, 3, 2, 1, 0]"

definition safePropertyName :: "string \<Rightarrow> string" where
  "safePropertyName raw =
     (let b = foldl write_rune '''' (runes raw);
          name = (if b = '''' then ''param'' else b);
          suffix = ''_'' @ format_08x (hashPropertyName raw)
      in if length name \<le> MaxPropertyNameLength then name
         else take (MaxPropertyNameLength - length suffix) name @ suffix)"

definition NormalizePropertyName :: "string \<Rightarrow> string \<times> string" where
  "NormalizePropertyName raw =
     (let normalized = safePropertyName raw in if normalized = raw then (raw, '''') else (normalized, raw))"

subsection \<open>The allocator\<close>

record NameMapping =
  nm_Name :: string
  nm_WireName :: string

record NameAllocator =
  na_used :: "(string \<times> string) list"

definition NewNameAllocator :: NameAllocator where
  "NewNameAllocator = \<lparr>na_used = []\<rparr>"

text \<open>\<^verbatim>\<open>%d\<close> of a counter.\<close>

fun format_d :: "nat \<Rightarrow> string" where
  "format_d n = (if n < 10 then [char_of (48 + n)] else format_d (n div 10) @ [char_of (48 + n mod 10)])"

declare format_d.simps [simp del]

text \<open>
  The candidate of one round of the loop. A suffix longer than a name would be a slice out of range;
  the counter does not reach that many digits.
\<close>

definition unique_name :: "string \<Rightarrow> nat \<Rightarrow> string" where
  "unique_name baseName i =
     (let suffix = ''_'' @ format_d i; prefixLen = MaxPropertyNameLength - length suffix
      in (if prefixLen < length baseName then take prefixLen baseName else baseName) @ suffix)"

partial_function (option) unique_loop :: "(string \<times> string) list \<Rightarrow> string \<Rightarrow> nat \<Rightarrow> string option" where
  "unique_loop used baseName i =
     (if map_of used (unique_name baseName i) = None then Some (unique_name baseName i)
      else unique_loop used baseName (Suc i))"

definition NameAllocator_unique ::
  "NameAllocator \<Rightarrow> string \<Rightarrow> string \<Rightarrow> (string \<times> NameAllocator) option" where
  "NameAllocator_unique a baseName rawName =
     (if map_of (na_used a) baseName = None
      then Some (baseName, a\<lparr>na_used := AList.update baseName rawName (na_used a)\<rparr>)
      else
        (case unique_loop (na_used a) baseName 2 of
           None \<Rightarrow> None
         | Some name \<Rightarrow> Some (name, a\<lparr>na_used := AList.update name rawName (na_used a)\<rparr>)))"

definition NameAllocator_Allocate :: "NameAllocator \<Rightarrow> string \<Rightarrow> (NameMapping \<times> NameAllocator) option" where
  "NameAllocator_Allocate a raw =
     (let (baseName, wireName) = NormalizePropertyName raw
      in case NameAllocator_unique a baseName raw of
           None \<Rightarrow> None
         | Some (name, a) \<Rightarrow>
             Some (\<lparr>nm_Name = name,
               nm_WireName = (if name \<noteq> baseName \<and> wireName = '''' then raw else wireName)\<rparr>, a))"

text \<open>The names of one schema, in the order of its fields.\<close>

fun allocate_all :: "NameAllocator \<Rightarrow> string list \<Rightarrow> (NameMapping list \<times> NameAllocator) option" where
  "allocate_all a [] = Some ([], a)"
| "allocate_all a (raw # raws) =
     (case NameAllocator_Allocate a raw of
        None \<Rightarrow> None
      | Some (mapping, a) \<Rightarrow>
          (case allocate_all a raws of None \<Rightarrow> None | Some (mappings, a) \<Rightarrow> Some (mapping # mappings, a)))"

subsection \<open>The free names\<close>

fun dec_value :: "string \<Rightarrow> nat" where
  "dec_value [] = 0"
| "dec_value s = dec_value (butlast s) * 10 + (byte (last s) - 48)"

lemma dec_value_snoc: "dec_value (s @ [c]) = dec_value s * 10 + (byte c - 48)"
  by (cases s) (simp_all add: butlast_append)

lemma dec_value_format: "dec_value (format_d n) = n"
proof (induction n rule: format_d.induct)
  case (1 n)
  show ?case
  proof (cases "n < 10")
    case True
    then show ?thesis by (simp add: format_d.simps [of n])
  next
    case False
    then show ?thesis using 1 by (simp add: format_d.simps [of n] dec_value_snoc)
  qed
qed

lemma format_d_digits: "c \<in> set (format_d n) \<Longrightarrow> 48 \<le> byte c \<and> byte c \<le> 57"
proof (induction n rule: format_d.induct)
  case (1 n)
  have "n mod 10 < 10" by simp
  then show ?case using 1 by (auto simp: format_d.simps [of n] split: if_splits)
qed

lemma underscore_split:
  assumes "xs @ x # ys = xs' @ x # ys'" and "x \<notin> set ys" and "x \<notin> set ys'"
  shows "ys = ys'"
proof -
  have "takeWhile (\<lambda>c. c \<noteq> x) (rev (zs @ x # zs')) = rev zs'" if "x \<notin> set zs'" for zs zs'
    using that by (subst rev_append) (simp add: takeWhile_tail takeWhile_append)
  then show ?thesis using assms by (metis rev_rev_ident)
qed

lemma unique_name_inj:
  assumes "unique_name b i = unique_name b j"
  shows "i = j"
proof -
  have "CHR ''_'' \<notin> set (format_d n)" for n using format_d_digits [of "CHR ''_''" n] by auto
  moreover have "\<exists>p. unique_name b n = p @ CHR ''_'' # format_d n" for n by (auto simp: unique_name_def Let_def)
  ultimately have "format_d i = format_d j" using assms underscore_split by metis
  then show ?thesis by (metis dec_value_format)
qed

lemma free_candidate: "\<exists>i. i \<le> length used \<and> map_of used (unique_name b (i + k)) = None"
proof (rule ccontr)
  assume "\<not> ?thesis"
  then have "(\<lambda>i. unique_name b (i + k)) ` {..length used} \<subseteq> fst ` set used"
    by (force simp: map_of_eq_None_iff)
  then have "card ((\<lambda>i. unique_name b (i + k)) ` {..length used}) \<le> card (fst ` set used)"
    by (intro card_mono) auto
  moreover have "card ((\<lambda>i. unique_name b (i + k)) ` {..length used}) = Suc (length used)"
    by (subst card_image) (auto intro!: inj_onI dest: unique_name_inj)
  moreover have "card (fst ` set used) \<le> length used"
    by (metis card_length length_map set_map)
  ultimately show False by simp
qed

lemma unique_loop_finds:
  assumes "map_of used (unique_name b (i + k)) = None"
  shows "\<exists>j \<le> i. unique_loop used b k = Some (unique_name b (j + k)) \<and> map_of used (unique_name b (j + k)) = None"
  using assms
proof (induction i arbitrary: k)
  case 0
  then show ?case by (simp add: unique_loop.simps [of used b k])
next
  case (Suc i)
  show ?case
  proof (cases "map_of used (unique_name b k) = None")
    case True
    then show ?thesis by (auto simp: unique_loop.simps [of used b k] intro!: exI [of _ 0])
  next
    case False
    obtain j where "j \<le> i" "unique_loop used b (Suc k) = Some (unique_name b (j + Suc k))"
        "map_of used (unique_name b (j + Suc k)) = None"
      using Suc.IH [of "Suc k"] Suc.prems by auto
    then show ?thesis using False by (intro exI [of _ "Suc j"]) (auto simp: unique_loop.simps [of used b k])
  qed
qed

subsection \<open>Valid names\<close>

lemma name_char_values [simp]:
  "isPropertyNameChar (byte CHR ''_'')" "\<forall>c \<in> set ''param''. isPropertyNameChar (byte c)"
  "\<forall>c \<in> set ''dollar''. isPropertyNameChar (byte c)" "\<forall>c \<in> set ''at''. isPropertyNameChar (byte c)"
  by (simp_all add: isPropertyNameChar_def)

lemma isPropertyNameChar_byte: "isPropertyNameChar r \<Longrightarrow> byte (char_of r) = r"
  by (auto simp: isPropertyNameChar_def)

definition name_chars :: "string \<Rightarrow> bool" where
  "name_chars s \<longleftrightarrow> (\<forall>c \<in> set s. isPropertyNameChar (byte c))"

lemma name_chars_append [simp]: "name_chars (a @ b) \<longleftrightarrow> name_chars a \<and> name_chars b"
  by (auto simp: name_chars_def)

lemma name_chars_underscore [simp]: "name_chars (CHR ''_'' # s) \<longleftrightarrow> name_chars s"
  by (simp add: name_chars_def isPropertyNameChar_def)

lemma name_chars_take: "name_chars s \<Longrightarrow> name_chars (take n s)"
  by (auto simp: name_chars_def dest: in_set_takeD)

lemma name_chars_words: "name_chars ''_''" "name_chars ''param''" "name_chars ''dollar''" "name_chars ''at''"
  by (simp_all add: name_chars_def isPropertyNameChar_def)

lemma write_rune_chars: "name_chars b \<Longrightarrow> name_chars (write_rune b r)"
proof (cases "isPropertyNameChar r")
  case True
  then show "name_chars b \<Longrightarrow> ?thesis"
    using isPropertyNameChar_byte [of r] by (simp add: write_rune_def) (simp add: name_chars_def)
next
  case False
  moreover have "name_chars ''dollar_''" "name_chars ''at_''" by code_simp+
  ultimately show "name_chars b \<Longrightarrow> ?thesis"
    using name_chars_words(1) by (simp add: write_rune_def writeNamedSeparator_def)
qed

lemma written_chars: "name_chars b \<Longrightarrow> name_chars (foldl write_rune b rs)"
  by (induction rs arbitrary: b) (simp_all add: write_rune_chars)

lemma format_d_chars: "name_chars (format_d n)"
  using format_d_digits by (auto simp: name_chars_def isPropertyNameChar_def)

lemma hex_digit_char: "n < 16 \<Longrightarrow> isPropertyNameChar (byte (hex_digit n))"
  by (auto simp: hex_digit_def isPropertyNameChar_def)

lemma format_08x_chars: "name_chars (format_08x w)" "length (format_08x w) = 8"
proof -
  have "unat (x AND 15) < 16" for x :: "32 word"
  proof -
    have "unat (x AND 15) = unat x mod 16"
      using take_bit_eq_mask [of 4 x] unsigned_take_bit_eq [of 4 x] by (simp add: take_bit_eq_mod mask_eq_exp_minus_1)
    then show ?thesis by simp
  qed
  then show "name_chars (format_08x w)" by (auto simp: format_08x_def name_chars_def hex_digit_char)
  show "length (format_08x w) = 8" by (simp add: format_08x_def)
qed

lemma valid_iff: "ValidPropertyName s \<longleftrightarrow> s \<noteq> '''' \<and> length s \<le> 64 \<and> name_chars s"
  by (cases s) (auto simp: ValidPropertyName_def MaxPropertyNameLength_def name_chars_def list_all_iff)

lemma safePropertyName_valid: "ValidPropertyName (safePropertyName raw)"
  using written_chars [of "''''" "runes raw"] format_08x_chars name_chars_words
  by (auto simp: safePropertyName_def valid_iff Let_def MaxPropertyNameLength_def name_chars_def [of "''''"] name_chars_take)

lemma format_d_length: "n < 10 ^ k \<Longrightarrow> 0 < k \<Longrightarrow> length (format_d n) \<le> k"
proof (induction n arbitrary: k rule: format_d.induct)
  case (1 n)
  show ?case
  proof (cases "n < 10")
    case True
    then show ?thesis using 1 by (simp add: format_d.simps [of n])
  next
    case False
    then obtain k' where k: "k = Suc k'" "0 < k'" using 1(2,3) by (cases k; cases "k - 1") auto
    then have "n div 10 < 10 ^ k'" using 1(2) by (simp add: less_mult_imp_div_less mult.commute)
    then show ?thesis using 1(1) [OF False _ k(2)] k(1) False by (simp add: format_d.simps [of n])
  qed
qed

lemma unique_name_valid:
  assumes "name_chars b" and "i < 10 ^ 63"
  shows "ValidPropertyName (unique_name b i)"
  using format_d_length [OF assms(2)] assms(1) format_d_chars [of i] name_chars_words
  by (auto simp: unique_name_def valid_iff Let_def MaxPropertyNameLength_def name_chars_take)

lemma Allocate_run:
  obtains name where "NameAllocator_Allocate a raw =
      Some (\<lparr>nm_Name = name, nm_WireName = (if safePropertyName raw = raw \<and> name = raw then '''' else raw)\<rparr>,
        a\<lparr>na_used := AList.update name raw (na_used a)\<rparr>)"
    and "map_of (na_used a) name = None"
    and "name = safePropertyName raw \<or> (\<exists>i \<le> length (na_used a). name = unique_name (safePropertyName raw) (i + 2))"
proof (cases "map_of (na_used a) (safePropertyName raw)")
  case None
  then show ?thesis
    by (intro that [of "safePropertyName raw"])
      (auto simp: NameAllocator_Allocate_def NameAllocator_unique_def NormalizePropertyName_def Let_def)
next
  case (Some r)
  obtain i where "i \<le> length (na_used a)" "map_of (na_used a) (unique_name (safePropertyName raw) (i + 2)) = None"
    using free_candidate by blast
  with unique_loop_finds [OF this(2)] obtain j where j: "j \<le> length (na_used a)"
      "unique_loop (na_used a) (safePropertyName raw) 2 = Some (unique_name (safePropertyName raw) (j + 2))"
      "map_of (na_used a) (unique_name (safePropertyName raw) (j + 2)) = None"
    using order_trans by blast
  with Some show ?thesis
    by (intro that [of "unique_name (safePropertyName raw) (j + 2)"])
      (auto simp: NameAllocator_Allocate_def NameAllocator_unique_def NormalizePropertyName_def Let_def)
qed

text \<open>
  C33. Allocating a name always ends: the loop that looks for a free name returns, after at most as
  many rounds as there are names in use and one more, with a name not in use. The allocator then
  holds that name for the field.
\<close>

theorem allocation_terminates:
  "\<exists>mapping a'. NameAllocator_Allocate a raw = Some (mapping, a') \<and>
     map_of (na_used a) (nm_Name mapping) = None \<and>
     na_used a' = AList.update (nm_Name mapping) raw (na_used a) \<and>
     (nm_Name mapping = safePropertyName raw \<or>
      (\<exists>i. 2 \<le> i \<and> i \<le> length (na_used a) + 2 \<and> nm_Name mapping = unique_name (safePropertyName raw) i))"
  by (rule Allocate_run [of a raw]) force

text \<open>The name by which a field is sent, as the request adapter picks it.\<close>

definition wire_name :: "NameMapping \<Rightarrow> string" where
  "wire_name mapping = (if nm_WireName mapping = '''' then nm_Name mapping else nm_WireName mapping)"

definition allocated_ok :: "string \<Rightarrow> NameMapping \<Rightarrow> bool" where
  "allocated_ok raw mapping \<longleftrightarrow> ValidPropertyName (nm_Name mapping) \<and> (raw = '''' \<or> wire_name mapping = raw)"

lemma Allocate_ok:
  assumes "length (na_used a) + 2 < 10 ^ 63"
  obtains mapping where "NameAllocator_Allocate a raw =
      Some (mapping, a\<lparr>na_used := AList.update (nm_Name mapping) raw (na_used a)\<rparr>)"
    and "map_of (na_used a) (nm_Name mapping) = None" and "allocated_ok raw mapping"
proof (rule Allocate_run [of a raw])
  fix name
  assume run: "NameAllocator_Allocate a raw =
      Some (\<lparr>nm_Name = name, nm_WireName = (if safePropertyName raw = raw \<and> name = raw then '''' else raw)\<rparr>,
        a\<lparr>na_used := AList.update name raw (na_used a)\<rparr>)"
    and fresh: "map_of (na_used a) name = None"
    and name: "name = safePropertyName raw \<or> (\<exists>i \<le> length (na_used a). name = unique_name (safePropertyName raw) (i + 2))"
  have "ValidPropertyName name"
    using name
  proof
    assume "\<exists>i \<le> length (na_used a). name = unique_name (safePropertyName raw) (i + 2)"
    then obtain i where "i \<le> length (na_used a)" "name = unique_name (safePropertyName raw) (i + 2)" by blast
    with assms show ?thesis
      using unique_name_valid [of "safePropertyName raw" "i + 2"] safePropertyName_valid [of raw] by (simp add: valid_iff)
  qed (simp add: safePropertyName_valid)
  let ?m = "\<lparr>nm_Name = name, nm_WireName = (if safePropertyName raw = raw \<and> name = raw then '''' else raw)\<rparr>"
  show thesis
    by (rule that [of ?m]) (use run fresh \<open>ValidPropertyName name\<close> in \<open>simp_all add: allocated_ok_def wire_name_def\<close>)
qed

lemma alist_update_fresh: "map_of xs k = None \<Longrightarrow> AList.update k v xs = xs @ [(k, v)]"
  by (induction xs) (auto split: if_splits)

lemma allocate_all_ok:
  assumes "length (na_used a) + length raws + 2 < 10 ^ 63"
  shows "\<exists>mappings a'. allocate_all a raws = Some (mappings, a') \<and> list_all2 allocated_ok raws mappings \<and>
    distinct (map nm_Name mappings) \<and> fst ` set (na_used a) \<inter> nm_Name ` set mappings = {}"
  using assms
proof (induction raws arbitrary: a)
  case Nil
  show ?case by simp
next
  case (Cons raw raws)
  obtain m where m: "NameAllocator_Allocate a raw =
        Some (m, a\<lparr>na_used := AList.update (nm_Name m) raw (na_used a)\<rparr>)"
      "map_of (na_used a) (nm_Name m) = None" "allocated_ok raw m"
    using Allocate_ok [of a raw] Cons.prems by auto
  let ?a = "a\<lparr>na_used := AList.update (nm_Name m) raw (na_used a)\<rparr>"
  have used: "na_used ?a = na_used a @ [(nm_Name m, raw)]" using m(2) by (simp add: alist_update_fresh)
  then obtain ms a' where "allocate_all ?a raws = Some (ms, a')" "list_all2 allocated_ok raws ms"
      "distinct (map nm_Name ms)" "fst ` set (na_used ?a) \<inter> nm_Name ` set ms = {}"
    using Cons.IH [of ?a] Cons.prems by auto
  then show ?case using m used by (auto simp: map_of_eq_None_iff)
qed

text \<open>
  C34. The names of one schema are usable and tell the fields apart: every field gets a name that a
  model accepts, no two fields get the same one, and from the mapping the field's own name is
  recovered, for every field that has a name.
\<close>

theorem allocated_names_valid_and_distinct:
  assumes "length raws + 2 < 2 ^ 63"
  shows "\<exists>mappings a. allocate_all NewNameAllocator raws = Some (mappings, a) \<and>
    list_all2 (\<lambda>raw mapping. ValidPropertyName (nm_Name mapping) \<and> (raw = '''' \<or> wire_name mapping = raw)) raws mappings \<and>
    distinct (map nm_Name mappings)"
proof -
  have "(2::nat) ^ 63 \<le> 10 ^ 63" by (intro power_mono) simp_all
  then show ?thesis
    using allocate_all_ok [of NewNameAllocator raws] assms
    by (auto simp: NewNameAllocator_def allocated_ok_def [abs_def])
qed

theorem allocated_names_valid_and_distinct_witness:
  "\<exists>mappings a. allocate_all NewNameAllocator [''filter[id]'', ''filter_id'', ''$top''] = Some (mappings, a) \<and>
     length mappings = 3 \<and> distinct (map nm_Name mappings)"
  using allocated_names_valid_and_distinct [of "[''filter[id]'', ''filter_id'', ''$top'']"]
  by (auto dest: list_all2_lengthD)

end

