(* ===== verification/Retention.thy ===== *)
theory Retention
  imports Auto_Deploy Install_Locks
begin

text \<open>
  How long published versions stay deployable: \<^verbatim>\<open>internal/appregistry/retention.go\<close> and
  \<^verbatim>\<open>retention_prune.go\<close>, with the loop of the pruning command in
  \<^verbatim>\<open>internal/daemon/app_registry_retention.go\<close> that applies the decisions.

  A Go map is an association list with distinct keys. Ranging over a map has no fixed order; the
  list stands for the order of one run, and the theorems hold for every list. A nil map is
  \<open>None\<close>, as is a nil pointer. The index is changed in place in the code, so the functions here
  return the changed index.
\<close>

subsection \<open>The retention index\<close>

definition RetentionIndexSchemaVersion :: int where "RetentionIndexSchemaVersion = 1"
definition DefaultUnusedRetention :: duration where "DefaultUnusedRetention = 72 * Hour"
definition DefaultDeployedRetention :: duration where "DefaultDeployedRetention = 720 * Hour"
definition FirstInstallFromVersion :: string where "FirstInstallFromVersion = ''registry:first-install''"

datatype deployment_state =
    DeploymentStateAvailable | DeploymentStateExpired | DeploymentStateDesired
  | DeploymentStateRedeployable | DeploymentStateLocked

record RetentionVersion =
  rt_PublishedAt :: time
  rt_EverDeployed :: bool
  rt_ExpiresAt :: "time option"

record RetentionIndex =
  ri_SchemaVersion :: int
  ri_Versions :: "(string \<times> RetentionVersion) list option"

record RetentionPolicy =
  po_UnusedRetention :: duration
  po_DeployedRetention :: duration

definition DefaultRetentionPolicy :: RetentionPolicy where
  "DefaultRetentionPolicy =
     \<lparr>po_UnusedRetention = DefaultUnusedRetention, po_DeployedRetention = DefaultDeployedRetention\<rparr>"

definition NewEmptyRetentionIndex :: RetentionIndex where
  "NewEmptyRetentionIndex = \<lparr>ri_SchemaVersion = RetentionIndexSchemaVersion, ri_Versions = Some []\<rparr>"

definition cloneTimePtr :: "time option \<Rightarrow> time option" where
  "cloneTimePtr value = (case value of None \<Rightarrow> None | Some t \<Rightarrow> if t = 0 then None else Some t)"

definition timePtrEqual :: "time option \<Rightarrow> time option \<Rightarrow> bool" where
  "timePtrEqual a b = (case (a, b) of (Some x, Some y) \<Rightarrow> x = y | (None, None) \<Rightarrow> True | _ \<Rightarrow> False)"

text \<open>The object read from JSON, whose field for the deadline had another name before.\<close>

record retentionVersionJSON =
  rj_PublishedAt :: time
  rj_EverDeployed :: bool
  rj_ExpiresAt :: "time option"
  rj_DeployableUntil :: "time option"

definition RetentionVersion_UnmarshalJSON :: "retentionVersionJSON \<Rightarrow> RetentionVersion" where
  "RetentionVersion_UnmarshalJSON raw =
     \<lparr>rt_PublishedAt = rj_PublishedAt raw, rt_EverDeployed = rj_EverDeployed raw,
      rt_ExpiresAt =
        (case rj_ExpiresAt raw of
           Some t \<Rightarrow> Some t
         | None \<Rightarrow>
             (case rj_DeployableUntil raw of
                None \<Rightarrow> None
              | Some t \<Rightarrow> if t = 0 then None else cloneTimePtr (Some t)))\<rparr>"

text \<open>
  \<open>semver\<close> is the package that validates versions: whether a version with its prefix \<^verbatim>\<open>v\<close> is
  valid, and its canonical form.
\<close>

record semver =
  semver_IsValid :: "string \<Rightarrow> bool"
  semver_Canonical :: "string \<Rightarrow> string"

definition Valid :: "semver \<Rightarrow> string \<Rightarrow> bool" where
  "Valid sv version0 =
     (let version = TrimSpace version0; canonical = ''v'' @ version
      in if version = '''' \<or> take 1 version = ''v'' then False
         else if \<not> semver_IsValid sv canonical then False
         else semver_Canonical sv canonical = takeWhile (\<lambda>c. c \<noteq> CHR ''+'') canonical)"

definition ValidateVersion :: "semver \<Rightarrow> string \<Rightarrow> unit result" where
  "ValidateVersion sv version =
     (if \<not> Valid sv version then Inl (Errorf ''plugin source: invalid semver %q'') else Inr ())"

definition validateRetentionVersion :: "semver \<Rightarrow> string \<Rightarrow> RetentionVersion \<Rightarrow> unit result" where
  "validateRetentionVersion sv mapKey entry =
     (if TrimSpace mapKey = '''' then Inl (Errorf ''version is required'')
      else
        (case ValidateVersion sv (TrimSpace mapKey) of
           Inl err \<Rightarrow> Inl (Wrapf ''version'' err)
         | Inr _ \<Rightarrow>
             if rt_PublishedAt entry = 0 then Inl (Errorf ''publishedAt is required'')
             else if rt_ExpiresAt entry = Some 0 then Inl (Errorf ''expiresAt must not be zero'')
             else Inr ()))"

text \<open>The first entry that is not valid is reported.\<close>

fun validate_each :: "string \<Rightarrow> (string \<Rightarrow> 'a \<Rightarrow> unit result) \<Rightarrow> (string \<times> 'a) list \<Rightarrow> unit result" where
  "validate_each msg check [] = Inr ()"
| "validate_each msg check ((k, e) # es) =
     (case check k e of Inl err \<Rightarrow> Inl (Wrapf msg err) | Inr _ \<Rightarrow> validate_each msg check es)"

definition validateRetentionIndex :: "semver \<Rightarrow> RetentionIndex option \<Rightarrow> unit result" where
  "validateRetentionIndex sv index0 =
     (case index0 of
        None \<Rightarrow> Inl (Errorf ''retention index is required'')
      | Some idx \<Rightarrow>
          if ri_SchemaVersion idx \<noteq> RetentionIndexSchemaVersion
          then Inl (Errorf ''unsupported retention index schema version %d'')
          else
            (case ri_Versions idx of
               None \<Rightarrow> Inl (Errorf ''retention index versions map is required'')
             | Some versions \<Rightarrow>
                 validate_each ''retention index version %q'' (validateRetentionVersion sv) versions))"

definition versions_of :: "RetentionIndex \<Rightarrow> (string \<times> RetentionVersion) list" where
  "versions_of idx = (case ri_Versions idx of None \<Rightarrow> [] | Some versions \<Rightarrow> versions)"

subsection \<open>Changes of the index\<close>

definition UpsertPublishedRetention ::
  "RetentionIndex option \<Rightarrow> string \<Rightarrow> time \<Rightarrow> RetentionPolicy \<Rightarrow> RetentionIndex option \<times> bool" where
  "UpsertPublishedRetention index0 version0 publishedAt policy =
     (case index0 of
        None \<Rightarrow> (None, False)
      | Some idx \<Rightarrow>
          (let version = TrimSpace version0; versions = versions_of idx;
               expiresAt = publishedAt + po_UnusedRetention policy
           in case map_of versions version of
                Some existing \<Rightarrow>
                  (if rt_PublishedAt existing = publishedAt \<and> timePtrEqual (rt_ExpiresAt existing) (Some expiresAt)
                   then (Some (idx\<lparr>ri_Versions := Some versions\<rparr>), False)
                   else
                     (let published = existing\<lparr>rt_PublishedAt := publishedAt\<rparr>;
                          renewed = (if \<not> rt_EverDeployed existing
                            then published\<lparr>rt_ExpiresAt := cloneTimePtr (Some expiresAt)\<rparr> else published)
                      in (Some (idx\<lparr>ri_Versions := Some (AList.update version renewed versions)\<rparr>), True)))
              | None \<Rightarrow>
                  (Some (idx\<lparr>ri_Versions := Some (AList.update version
                     \<lparr>rt_PublishedAt = publishedAt, rt_EverDeployed = False,
                      rt_ExpiresAt = cloneTimePtr (Some expiresAt)\<rparr> versions)\<rparr>), True)))"

text \<open>The two halves of a transition: leaving a version and entering one.\<close>

definition leave_version ::
  "string \<Rightarrow> RetentionPolicy \<Rightarrow> time \<Rightarrow> (string \<times> RetentionVersion) list \<Rightarrow> (string \<times> RetentionVersion) list" where
  "leave_version fromVersion policy now versions =
     (let entry = (case map_of versions fromVersion of
            Some e \<Rightarrow> e
          | None \<Rightarrow> \<lparr>rt_PublishedAt = now, rt_EverDeployed = True, rt_ExpiresAt = None\<rparr>)
      in AList.update fromVersion (entry\<lparr>rt_EverDeployed := True,
           rt_ExpiresAt := cloneTimePtr (Some (now + po_DeployedRetention policy))\<rparr>) versions)"

definition enter_version ::
  "string \<Rightarrow> time \<Rightarrow> (string \<times> RetentionVersion) list \<Rightarrow> (string \<times> RetentionVersion) list" where
  "enter_version toVersion now versions =
     (let entry = (case map_of versions toVersion of
            Some e \<Rightarrow> e
          | None \<Rightarrow> \<lparr>rt_PublishedAt = now, rt_EverDeployed = False, rt_ExpiresAt = None\<rparr>)
      in AList.update toVersion (entry\<lparr>rt_EverDeployed := True, rt_ExpiresAt := None\<rparr>) versions)"

definition ApplyDesiredVersionTransition ::
  "RetentionIndex option \<Rightarrow> string \<Rightarrow> string \<Rightarrow> RetentionPolicy \<Rightarrow> time \<Rightarrow> RetentionIndex option \<times> bool" where
  "ApplyDesiredVersionTransition index0 fromVersion0 toVersion0 policy now =
     (case index0 of
        None \<Rightarrow> (None, False)
      | Some idx \<Rightarrow>
          (let fromVersion = TrimSpace fromVersion0; toVersion = TrimSpace toVersion0;
               leaves = (fromVersion \<noteq> '''' \<and> fromVersion \<noteq> FirstInstallFromVersion);
               enters = (toVersion \<noteq> '''');
               left = (if leaves then leave_version fromVersion policy now (versions_of idx) else versions_of idx);
               entered = (if enters then enter_version toVersion now left else left)
           in (Some (idx\<lparr>ri_Versions := Some entered\<rparr>), leaves \<or> enters)))"

definition RemoveRetentionVersion :: "RetentionIndex option \<Rightarrow> string \<Rightarrow> RetentionIndex option \<times> bool" where
  "RemoveRetentionVersion index0 version0 =
     (case index0 of
        None \<Rightarrow> (None, False)
      | Some idx \<Rightarrow>
          (case ri_Versions idx of
             None \<Rightarrow> (Some idx, False)
           | Some versions \<Rightarrow>
               (case map_of versions (TrimSpace version0) of
                  None \<Rightarrow> (Some idx, False)
                | Some _ \<Rightarrow> (Some (idx\<lparr>ri_Versions := Some (AList.delete (TrimSpace version0) versions)\<rparr>), True))))"

subsection \<open>What can be deployed\<close>

definition retentionVersion :: "RetentionIndex option \<Rightarrow> string \<Rightarrow> RetentionVersion option" where
  "retentionVersion index0 version =
     (case index0 of None \<Rightarrow> None | Some idx \<Rightarrow> map_of (versions_of idx) (TrimSpace version))"

definition VersionDeploymentState ::
  "string \<Rightarrow> string \<Rightarrow> RetentionIndex option \<Rightarrow> RetentionPolicy \<Rightarrow> time \<Rightarrow> deployment_state \<times> time option" where
  "VersionDeploymentState version0 desiredVersion0 retention policy now =
     (let version = TrimSpace version0; desiredVersion = TrimSpace desiredVersion0
      in if version = desiredVersion \<and> version \<noteq> '''' then (DeploymentStateDesired, None)
         else
           (case retentionVersion retention version of
              None \<Rightarrow> (DeploymentStateAvailable, None)
            | Some entry \<Rightarrow>
                (case (if rt_ExpiresAt entry = Some 0 then None else rt_ExpiresAt entry) of
                   None \<Rightarrow>
                     if rt_EverDeployed entry then (DeploymentStateRedeployable, None)
                     else if now < rt_PublishedAt entry + po_UnusedRetention policy then (DeploymentStateAvailable, None)
                     else (DeploymentStateExpired, None)
                 | Some expiresAt \<Rightarrow>
                     if rt_EverDeployed entry
                     then (if now < expiresAt then (DeploymentStateRedeployable, cloneTimePtr (Some expiresAt))
                       else (DeploymentStateLocked, cloneTimePtr (Some expiresAt)))
                     else (if now < expiresAt then (DeploymentStateAvailable, None)
                       else (DeploymentStateExpired, None)))))"

definition VersionSelectable ::
  "string \<Rightarrow> string \<Rightarrow> RetentionIndex option \<Rightarrow> RetentionPolicy \<Rightarrow> time \<Rightarrow> unit result" where
  "VersionSelectable version desiredVersion retention policy now =
     (case fst (VersionDeploymentState version desiredVersion retention policy now) of
        DeploymentStateAvailable \<Rightarrow> Inr ()
      | DeploymentStateRedeployable \<Rightarrow> Inr ()
      | DeploymentStateDesired \<Rightarrow> Inl ErrAppVersionAlreadyInstalled
      | DeploymentStateExpired \<Rightarrow> Inl ErrAppVersionExpired
      | DeploymentStateLocked \<Rightarrow> Inl ErrAppVersionLocked)"

definition RetryVersionSelectable ::
  "string \<Rightarrow> RetentionIndex option \<Rightarrow> RetentionPolicy \<Rightarrow> time \<Rightarrow> unit result" where
  "RetryVersionSelectable version retention policy now = VersionSelectable version '''' retention policy now"

definition DeployedVersionsFromRetention :: "RetentionIndex option \<Rightarrow> string list" where
  "DeployedVersionsFromRetention index0 =
     (case index0 of
        None \<Rightarrow> []
      | Some idx \<Rightarrow> map fst (filter (\<lambda>(version, entry). rt_EverDeployed entry) (versions_of idx)))"

definition RetentionExpired :: "RetentionVersion \<Rightarrow> time \<Rightarrow> bool" where
  "RetentionExpired entry now =
     (case rt_ExpiresAt entry of None \<Rightarrow> False | Some t \<Rightarrow> t \<noteq> 0 \<and> \<not> now < t)"

definition UnusedVersionExpired :: "RetentionVersion \<Rightarrow> RetentionPolicy \<Rightarrow> time \<Rightarrow> bool" where
  "UnusedVersionExpired entry policy now =
     (if rt_EverDeployed entry then False
      else if (case rt_ExpiresAt entry of None \<Rightarrow> False | Some t \<Rightarrow> t \<noteq> 0) then RetentionExpired entry now
      else \<not> now < rt_PublishedAt entry + po_UnusedRetention policy)"

subsection \<open>Pruning\<close>

datatype prune_kind = RetentionPruneDeleteUnused | RetentionPruneDeleteArtifact

record RetentionPruneAction =
  pa_Version :: string
  pa_Kind :: prune_kind

definition PublishedVersionKeys :: "'m Index option \<Rightarrow> string \<Rightarrow> string list" where
  "PublishedVersionKeys index0 appName =
     (case index0 of
        None \<Rightarrow> []
      | Some apps \<Rightarrow> (case map_of apps appName of None \<Rightarrow> [] | Some versions \<Rightarrow> map fst versions))"

definition prune_decision ::
  "string \<Rightarrow> string list \<Rightarrow> string list \<Rightarrow> time \<Rightarrow> string \<times> RetentionVersion \<Rightarrow> RetentionPruneAction option" where
  "prune_decision desiredVersion deployedVersions published now row =
     (let (version, entry0) = row;
          entry = (if version \<in> set deployedVersions then entry0\<lparr>rt_EverDeployed := True\<rparr> else entry0)
      in if version = desiredVersion then None
         else if \<not> RetentionExpired entry now then None
         else if \<not> rt_EverDeployed entry then Some \<lparr>pa_Version = version, pa_Kind = RetentionPruneDeleteUnused\<rparr>
         else if version \<in> set published then Some \<lparr>pa_Version = version, pa_Kind = RetentionPruneDeleteArtifact\<rparr>
         else None)"

definition EvaluateRetentionPrune ::
  "'m Index option \<Rightarrow> RetentionIndex option \<Rightarrow> string \<Rightarrow> string \<Rightarrow> string list \<Rightarrow> time \<Rightarrow> RetentionPruneAction list" where
  "EvaluateRetentionPrune index0 retention appName desiredVersion deployedVersions now =
     (case retention of
        None \<Rightarrow> []
      | Some r \<Rightarrow>
          List.map_filter (prune_decision (TrimSpace desiredVersion) deployedVersions
            (PublishedVersionKeys index0 (TrimSpace appName)) now) (versions_of r))"

definition ShouldApplyRetentionPruneAction :: "RetentionPruneAction \<Rightarrow> RetentionVersion \<Rightarrow> time \<Rightarrow> bool" where
  "ShouldApplyRetentionPruneAction action entry now =
     (case pa_Kind action of
        RetentionPruneDeleteUnused \<Rightarrow> \<not> rt_EverDeployed entry \<and> RetentionExpired entry now
      | RetentionPruneDeleteArtifact \<Rightarrow> rt_EverDeployed entry \<and> RetentionExpired entry now)"

definition DeployedVersionsFromChangeRequests :: "AppVersionChangeRequest list \<Rightarrow> string list" where
  "DeployedVersionsFromChangeRequests requests =
     concat (map (\<lambda>request.
       (let version = TrimSpace (cr_ToVersion request) in if version \<noteq> '''' then [version] else []) @
       (let fromVersion = TrimSpace (cr_FromVersion request)
        in if fromVersion \<noteq> '''' \<and> fromVersion \<noteq> FirstInstallFromVersion then [fromVersion] else [])) requests)"

definition drop_published :: "'m Index option \<Rightarrow> string \<Rightarrow> string \<Rightarrow> 'm Index option \<times> bool" where
  "drop_published index0 appName version =
     (case index0 of
        None \<Rightarrow> (None, False)
      | Some apps \<Rightarrow>
          (case map_of apps appName of
             None \<Rightarrow> (Some apps, False)
           | Some versions \<Rightarrow>
               (case map_of versions version of
                  None \<Rightarrow> (Some apps, False)
                | Some _ \<Rightarrow>
                    (let left = AList.delete version versions
                     in (Some (if left = [] then AList.delete appName apps else AList.update appName left apps), True)))))"

definition ApplyRetentionPruneAction ::
  "'m Index option \<Rightarrow> RetentionIndex option \<Rightarrow> string \<Rightarrow> RetentionPruneAction \<Rightarrow>
    'm Index option \<times> RetentionIndex option \<times> bool" where
  "ApplyRetentionPruneAction index0 retention appName action =
     (if pa_Kind action \<noteq> RetentionPruneDeleteUnused then (index0, retention, False)
      else
        (let (index', dropped) = drop_published index0 appName (pa_Version action);
             (retention', removed) = RemoveRetentionVersion retention (pa_Version action)
         in (index', retention', dropped \<or> removed)))"

text \<open>
  The loop of the command over the decisions of one attempt. What it depends on outside are the
  answers of the storage: \<open>fresh n version\<close> is the row of the \<open>n\<close>-th fresh read of the retention
  file, and \<open>delete n\<close> the outcome of the \<open>n\<close>-th removal. The objects it removes are collected: the
  entry of a version, or its artifacts.
\<close>

datatype stored_object = EntryObject string | ArtifactPrefix string

record 'm prune_state =
  pr_index :: "'m Index option"
  pr_retention :: "RetentionIndex option"
  pr_changed :: bool
  pr_reads :: nat
  pr_deletes :: nat
  pr_deleted :: "stored_object list"

definition delete_object :: "(nat \<Rightarrow> error option) \<Rightarrow> stored_object \<Rightarrow> 'm prune_state \<Rightarrow> unit result \<times> 'm prune_state" where
  "delete_object delete object st =
     (let st' = st\<lparr>pr_deletes := Suc (pr_deletes st)\<rparr>
      in case delete (pr_deletes st) of
           Some err \<Rightarrow> (Inl err, st')
         | None \<Rightarrow> (Inr (), st'\<lparr>pr_deleted := pr_deleted st @ [object]\<rparr>))"

definition prune_one ::
  "(nat \<Rightarrow> string \<Rightarrow> RetentionVersion option result) \<Rightarrow> (nat \<Rightarrow> error option) \<Rightarrow> string list \<Rightarrow> string \<Rightarrow> time \<Rightarrow>
    RetentionPruneAction \<Rightarrow> 'm prune_state \<Rightarrow> unit result \<times> 'm prune_state" where
  "prune_one fresh delete deployedVersions appName now action st =
     (if pa_Version action \<in> set deployedVersions \<and> pa_Kind action = RetentionPruneDeleteUnused then (Inr (), st)
      else
        (let read = st\<lparr>pr_reads := Suc (pr_reads st)\<rparr>
         in case fresh (pr_reads st) (pa_Version action) of
              Inl err \<Rightarrow> (Inl err, read)
            | Inr None \<Rightarrow> (Inr (), read)
            | Inr (Some entry) \<Rightarrow>
                (if \<not> ShouldApplyRetentionPruneAction action entry now then (Inr (), read)
                 else
                   (case ApplyRetentionPruneAction (pr_index st) (pr_retention st) appName action of
                      (index', retention', changed) \<Rightarrow>
                        (let applied = read\<lparr>pr_index := index', pr_retention := retention',
                               pr_changed := pr_changed st \<or> changed\<rparr>
                         in case pa_Kind action of
                              RetentionPruneDeleteUnused \<Rightarrow>
                                (case delete_object delete (EntryObject (pa_Version action)) applied of
                                   (Inl err, st) \<Rightarrow> (Inl err, st)
                                 | (Inr _, st) \<Rightarrow> delete_object delete (ArtifactPrefix (pa_Version action)) st)
                            | RetentionPruneDeleteArtifact \<Rightarrow>
                                delete_object delete (ArtifactPrefix (pa_Version action)) applied)))))"

fun prune_each where
  "prune_each step [] st = (Inr (), st)"
| "prune_each step (action # actions) st =
     (case step action st of (Inl err, st) \<Rightarrow> (Inl err, st) | (Inr _, st) \<Rightarrow> prune_each step actions st)"

text \<open>
  The start of the command when it is given a configuration: the desired version is projected from
  the change requests, and the install lock is claimed for it.
\<close>

definition prune_desired where
  "prune_desired unmarshal appName d =
     (case AppVersionChangeRequestService_ListKnownVersionsByApp unmarshal True appName d of
        (Inl err, d) \<Rightarrow> (Inl (Wrapf ''list known versions'' err), d)
      | (Inr known, d) \<Rightarrow> (Inr (LatestKnownVersion known), d))"

definition prune_claim where
  "prune_claim now lockHolder appName desiredVersion d =
     (case AppVersionInstallLockService_Acquire True now appName desiredVersion lockHolder
         DefaultAppVersionInstallLockTTL d of
        (Inl err, d) \<Rightarrow> (Inl (Wrapf ''claim app version install lock'' err), d)
      | (Inr _, d) \<Rightarrow> (Inr desiredVersion, d))"

definition prune_start where
  "prune_start unmarshal now lockHolder appName d =
     (case prune_desired unmarshal appName d of
        (Inl err, d) \<Rightarrow> (Inl err, d)
      | (Inr desired, d) \<Rightarrow> prune_claim now lockHolder appName desired d)"

subsection \<open>What pruning decides\<close>

lemma RetentionExpired_iff: "RetentionExpired entry now \<longleftrightarrow> (\<exists>t. rt_ExpiresAt entry = Some t \<and> t \<noteq> 0 \<and> t \<le> now)"
  by (auto simp: RetentionExpired_def not_less split: option.splits)

lemma prune_action_row:
  assumes "a \<in> set (EvaluateRetentionPrune index0 (Some r) appName desired deployed now)"
  obtains e where "(pa_Version a, e) \<in> set (versions_of r)" and "pa_Version a \<noteq> TrimSpace desired"
    and "RetentionExpired e now"
    and "pa_Kind a = RetentionPruneDeleteUnused \<Longrightarrow> \<not> rt_EverDeployed e \<and> pa_Version a \<notin> set deployed"
proof -
  obtain v e where "(v, e) \<in> set (versions_of r)"
      "prune_decision (TrimSpace desired) deployed (PublishedVersionKeys index0 (TrimSpace appName)) now (v, e) = Some a"
    using assms by (auto simp: EvaluateRetentionPrune_def map_filter_def)
  then show ?thesis
    by (intro that [of e]) (auto simp: prune_decision_def Let_def RetentionExpired_iff split: if_splits)
qed

definition trimmed_keys :: "(string \<times> 'a) list \<Rightarrow> bool" where
  "trimmed_keys m \<longleftrightarrow> wf_alist m \<and> (\<forall>k \<in> fst ` set m. TrimSpace k = k)"

lemma retention_row:
  assumes "trimmed_keys (versions_of r)" and "(v, e) \<in> set (versions_of r)"
  shows "retentionVersion (Some r) v = Some e" and "TrimSpace v = v"
  using assms by (auto simp: trimmed_keys_def retentionVersion_def map_of_mem [symmetric] image_iff)

text \<open>
  C10. Pruning and admission agree: a version that pruning would remove at some time is not the
  desired one and is not selectable at that time, so nothing that could be deployed is removed;
  and the whole of a version is removed only if neither the index nor the change requests say that
  it was ever deployed.
\<close>

theorem selectable_versions_not_pruned:
  assumes "a \<in> set (EvaluateRetentionPrune index0 (Some r) appName desired deployed now)"
    and "trimmed_keys (versions_of r)"
  shows "pa_Version a \<noteq> TrimSpace desired \<and>
    VersionSelectable (pa_Version a) desired (Some r) policy now \<in> {Inl ErrAppVersionExpired, Inl ErrAppVersionLocked} \<and>
    (pa_Kind a = RetentionPruneDeleteUnused \<longrightarrow>
      pa_Version a \<notin> set deployed \<and> pa_Version a \<notin> set (DeployedVersionsFromRetention (Some r)))"
proof -
  obtain e where e: "(pa_Version a, e) \<in> set (versions_of r)" "RetentionExpired e now"
    and v: "pa_Version a \<noteq> TrimSpace desired"
    and unused: "pa_Kind a = RetentionPruneDeleteUnused \<Longrightarrow> \<not> rt_EverDeployed e \<and> pa_Version a \<notin> set deployed"
    using prune_action_row [OF assms(1)] by blast
  note row = retention_row [OF assms(2) e(1)]
  obtain t where "rt_ExpiresAt e = Some t" "t \<noteq> 0" "t \<le> now" using e(2) by (auto simp: RetentionExpired_iff)
  then have "VersionSelectable (pa_Version a) desired (Some r) policy now \<in> {Inl ErrAppVersionExpired, Inl ErrAppVersionLocked}"
    using v row by (auto simp: VersionSelectable_def VersionDeploymentState_def Let_def)
  moreover have "pa_Version a \<notin> set (DeployedVersionsFromRetention (Some r))" if "\<not> rt_EverDeployed e"
    using that e(1) assms(2) by (auto simp: DeployedVersionsFromRetention_def trimmed_keys_def dest: eq_key_imp_eq_value)
  ultimately show ?thesis using v unused by blast
qed

definition sample_retention :: RetentionIndex where
  "sample_retention = \<lparr>ri_SchemaVersion = 1, ri_Versions = Some
     [(''1.0.0'', \<lparr>rt_PublishedAt = 10, rt_EverDeployed = False, rt_ExpiresAt = Some 20\<rparr>),
      (''1.1.0'', \<lparr>rt_PublishedAt = 30, rt_EverDeployed = True, rt_ExpiresAt = None\<rparr>)]\<rparr>"

lemma sample_retention_keys: "trimmed_keys (versions_of sample_retention)"
  by (simp add: trimmed_keys_def sample_retention_def versions_of_def is_graph_def)

theorem selectable_versions_not_pruned_witness:
  "\<lparr>pa_Version = ''1.0.0'', pa_Kind = RetentionPruneDeleteUnused\<rparr> \<in>
     set (EvaluateRetentionPrune (None :: unit Index option) (Some sample_retention) ''mail'' ''1.1.0'' [] 40) \<and>
   VersionSelectable ''1.0.0'' ''1.1.0'' (Some sample_retention) DefaultRetentionPolicy 40 \<noteq> Inr ()"
proof -
  have m: "\<lparr>pa_Version = ''1.0.0'', pa_Kind = RetentionPruneDeleteUnused\<rparr> \<in>
     set (EvaluateRetentionPrune (None :: unit Index option) (Some sample_retention) ''mail'' ''1.1.0'' [] 40)"
    by (simp add: EvaluateRetentionPrune_def map_filter_def prune_decision_def sample_retention_def versions_of_def
        RetentionExpired_def is_graph_def)
  from selectable_versions_not_pruned [OF m sample_retention_keys, of DefaultRetentionPolicy] m show ?thesis by auto
qed

subsection \<open>What a transition protects\<close>

lemma map_of_leave_version:
  "map_of (leave_version v policy now vs) k =
    (if k = v then Some ((case map_of vs v of Some e \<Rightarrow> e
        | None \<Rightarrow> \<lparr>rt_PublishedAt = now, rt_EverDeployed = True, rt_ExpiresAt = None\<rparr>)
       \<lparr>rt_EverDeployed := True, rt_ExpiresAt := cloneTimePtr (Some (now + po_DeployedRetention policy))\<rparr>)
     else map_of vs k)"
  by (simp add: leave_version_def Let_def)

lemma map_of_enter_version:
  "map_of (enter_version v now vs) k =
    (if k = v then Some ((case map_of vs v of Some e \<Rightarrow> e
        | None \<Rightarrow> \<lparr>rt_PublishedAt = now, rt_EverDeployed = False, rt_ExpiresAt = None\<rparr>)
       \<lparr>rt_EverDeployed := True, rt_ExpiresAt := None\<rparr>)
     else map_of vs k)"
  by (simp add: enter_version_def Let_def)

lemma versions_of_update: "versions_of (idx\<lparr>ri_Versions := Some vs\<rparr>) = vs"
  by (simp add: versions_of_def)

lemma transition_versions:
  assumes "ApplyDesiredVersionTransition (Some index0) fromV toV policy now = (Some index', changed)"
    and "TrimSpace toV \<noteq> ''''"
  shows "\<exists>e. map_of (versions_of index') (TrimSpace toV) = Some e \<and> rt_EverDeployed e \<and> rt_ExpiresAt e = None"
    and "TrimSpace fromV \<notin> {'''', FirstInstallFromVersion, TrimSpace toV} \<Longrightarrow>
      \<exists>e. map_of (versions_of index') (TrimSpace fromV) = Some e \<and> rt_EverDeployed e \<and>
        rt_ExpiresAt e = cloneTimePtr (Some (now + po_DeployedRetention policy))"
    and "v \<notin> {TrimSpace fromV, TrimSpace toV} \<Longrightarrow> map_of (versions_of index') v = map_of (versions_of index0) v"
  using assms
  by (auto simp: ApplyDesiredVersionTransition_def Let_def versions_of_update map_of_enter_version
      map_of_leave_version split: if_splits)

text \<open>
  C35. Admitting a version protects it and gives the version it replaces its grace period. After the
  transition the new version never expires: pruning does not remove it and a retry of it is
  allowed at any time. The replaced version stays selectable exactly until the retention for
  deployed versions has passed and is locked from then on. No other version changes.
\<close>

theorem transition_protects_versions:
  assumes "ApplyDesiredVersionTransition (Some index0) fromV toV policy now = (Some index', changed)"
    and "TrimSpace toV \<noteq> ''''" and "TrimSpace fromV \<notin> {'''', FirstInstallFromVersion, TrimSpace toV}"
    and "0 < now + po_DeployedRetention policy"
  shows "RetryVersionSelectable toV (Some index') policy t = Inr () \<and>
    (\<forall>e. retentionVersion (Some index') toV = Some e \<longrightarrow> \<not> RetentionExpired e t) \<and>
    VersionSelectable fromV toV (Some index') policy t =
      (if t < now + po_DeployedRetention policy then Inr () else Inl ErrAppVersionLocked) \<and>
    (v \<notin> {TrimSpace fromV, TrimSpace toV} \<longrightarrow> map_of (versions_of index') v = map_of (versions_of index0) v)"
proof -
  note rows = transition_versions [OF assms(1,2)]
  obtain e where e: "map_of (versions_of index') (TrimSpace toV) = Some e" "rt_EverDeployed e" "rt_ExpiresAt e = None"
    using rows(1) by blast
  obtain f where f: "map_of (versions_of index') (TrimSpace fromV) = Some f" "rt_EverDeployed f"
      "rt_ExpiresAt f = Some (now + po_DeployedRetention policy)"
    using rows(2) [OF assms(3)] assms(4) by (auto simp: cloneTimePtr_def)
  have "RetryVersionSelectable toV (Some index') policy t = Inr ()"
    using e assms(2) by (simp add: RetryVersionSelectable_def VersionSelectable_def VersionDeploymentState_def
        retentionVersion_def Let_def)
  moreover have "VersionSelectable fromV toV (Some index') policy t =
      (if t < now + po_DeployedRetention policy then Inr () else Inl ErrAppVersionLocked)"
    using f assms(3,4) by (simp add: VersionSelectable_def VersionDeploymentState_def retentionVersion_def Let_def)
  ultimately show ?thesis using e rows(3) by (auto simp: retentionVersion_def RetentionExpired_def)
qed

theorem transition_protects_versions_witness:
  "\<exists>index'. ApplyDesiredVersionTransition (Some sample_retention) ''1.1.0'' ''1.0.0'' DefaultRetentionPolicy 40 = (Some index', True) \<and>
     RetryVersionSelectable ''1.0.0'' (Some index') DefaultRetentionPolicy 50 = Inr () \<and>
     VersionSelectable ''1.1.0'' ''1.0.0'' (Some index') DefaultRetentionPolicy 50 = Inr ()"
proof -
  let ?t = "ApplyDesiredVersionTransition (Some sample_retention) ''1.1.0'' ''1.0.0'' DefaultRetentionPolicy 40"
  have trim: "TrimSpace ''1.1.0'' = ''1.1.0''" "TrimSpace ''1.0.0'' = ''1.0.0''" by (simp_all add: is_graph_def)
  obtain index' where i: "?t = (Some index', True)"
    by (simp add: ApplyDesiredVersionTransition_def Let_def trim)
  show ?thesis
    using transition_protects_versions [OF i, of 50] i
    by (simp add: trim FirstInstallFromVersion_def DefaultRetentionPolicy_def DefaultDeployedRetention_def Hour_def)
qed

subsection \<open>What the command removes\<close>

fun object_version :: "stored_object \<Rightarrow> string" where
  "object_version (EntryObject v) = v"
| "object_version (ArtifactPrefix v) = v"

text \<open>A removal that a fresh read of the row justified.\<close>

definition justified :: "(nat \<Rightarrow> string \<Rightarrow> RetentionVersion option result) \<Rightarrow> string list \<Rightarrow> time \<Rightarrow> stored_object \<Rightarrow> bool" where
  "justified fresh deployed now ob \<longleftrightarrow>
     (\<exists>n e. fresh n (object_version ob) = Inr (Some e) \<and> RetentionExpired e now \<and>
       (ob = EntryObject (object_version ob) \<longrightarrow> \<not> rt_EverDeployed e \<and> object_version ob \<notin> set deployed))"

lemma delete_object_deleted:
  "delete_object delete ob st = (x, st') \<Longrightarrow> set (pr_deleted st') \<subseteq> insert ob (set (pr_deleted st))"
  by (auto simp: delete_object_def Let_def split: option.splits)

lemma justifiedI:
  assumes "fresh n (object_version ob) = Inr (Some e)" and "RetentionExpired e now"
    and "ob = EntryObject (object_version ob) \<Longrightarrow> \<not> rt_EverDeployed e \<and> object_version ob \<notin> set deployed"
  shows "justified fresh deployed now ob"
  using assms unfolding justified_def by blast

lemma prune_one_deleted:
  assumes "prune_one fresh delete deployed appName now a st = (x, st')" and "ob \<in> set (pr_deleted st')"
    and "ob \<notin> set (pr_deleted st)"
  shows "object_version ob = pa_Version a \<and> justified fresh deployed now ob"
  using assms
  by (auto simp: prune_one_def Let_def ShouldApplyRetentionPruneAction_def
      intro: justifiedI [of fresh "pr_reads st"] dest!: delete_object_deleted subsetD
      split: if_splits sum.splits option.splits prod.splits prune_kind.splits)

lemma prune_each_deleted:
  assumes "prune_each (prune_one fresh delete deployed appName now) as st = (x, st')"
    and "ob \<in> set (pr_deleted st')" and "ob \<notin> set (pr_deleted st)"
  shows "object_version ob \<in> pa_Version ` set as \<and> justified fresh deployed now ob"
  using assms
proof (induction as arbitrary: st)
  case (Cons a as)
  obtain y st1 where y: "prune_one fresh delete deployed appName now a st = (y, st1)" by fastforce
  show ?case
  proof (cases "ob \<in> set (pr_deleted st1)")
    case True
    then show ?thesis using prune_one_deleted [OF y] Cons.prems(3) by auto
  next
    case False
    then have "prune_each (prune_one fresh delete deployed appName now) as st1 = (x, st')"
      using Cons.prems(1,2) y by (auto split: sum.splits)
    then show ?thesis using Cons.IH Cons.prems(2) False by auto
  qed
qed simp


definition prune_initial :: "unit prune_state" where
  "prune_initial = \<lparr>pr_index = None, pr_retention = Some sample_retention, pr_changed = False, pr_reads = 0,
     pr_deletes = 0, pr_deleted = []\<rparr>"


text \<open>
  C36. With a configuration the pruning command cannot start for an app that was never deployed:
  the desired version is then empty, and the install lock is not granted for an empty version. So
  the unused versions of such an app are never removed this way, on any database.
\<close>

theorem prune_refuses_undeployed_app:
  assumes "prune_start unmarshal now lockHolder appName d = (x, d')"
    and "AppVersionChangeRequestService_ListKnownVersionsByApp unmarshal True appName d = (Inr [], d1)"
  shows "x = Inl (Wrapf ''claim app version install lock''
    (Errorf ''acquire app version install lock: app and version are required''))"
  using assms by (auto simp: prune_start_def prune_desired_def prune_claim_def LatestKnownVersion_def LatestKnownInstallation_def
      AppVersionInstallLockService_Acquire_def Let_def)

theorem prune_refuses_undeployed_app_witness:
  "\<exists>e. fst (prune_start (\<lambda>_. None) 5 ''h'' ''mail'' empty_db) = Inl e"
proof -
  obtain d1 where l: "AppVersionChangeRequestService_ListKnownVersionsByApp (\<lambda>_. None) True ''mail'' empty_db = (Inr [], d1)"
    using ListRequestsByApp_healthy [of empty_db "''mail''" "\<lambda>_. None"]
    by (auto simp: AppVersionChangeRequestService_ListKnownVersionsByApp_def app_requests_def knownVersionsFromRequests_def index_rows is_graph_def)
  obtain x d' where "prune_start (\<lambda>_. None) 5 ''h'' ''mail'' empty_db = (x, d')" by fastforce
  from prune_refuses_undeployed_app [OF this l] this show ?thesis by simp
qed

end
