(* ===== verification/Registry_Objects.thy ===== *)
theory Registry_Objects
  imports Gestalt_Prelude
begin

text \<open>
  The objects of an app registry and their conditional writes: \<^verbatim>\<open>internal/appregistry/catalog_cas.go\<close>
  and the calls of \<^verbatim>\<open>internal/daemon/app_registry_storage.go\<close>.

  The storage itself is outside the program and is an argument: what other writers do to the objects
  before the \<open>n\<close>-th call, the calls that fail, the error that reports a generation that does not
  match, and the generation of the object that the \<open>n\<close>-th call writes. Every call is one step, and
  other writers act between the steps only. A call that fails has written nothing.
\<close>

subsection \<open>Objects and calls\<close>

text \<open>The generation is 0 while the object does not exist. The data is \<open>None\<close> when it is empty.\<close>

record 'd object_state =
  ob_generation :: int
  ob_data :: "'d option"

record 'o storage =
  sg_others :: "nat \<Rightarrow> 'o \<Rightarrow> 'o"
  sg_fault :: "nat \<Rightarrow> error option"
  sg_conflict :: error
  sg_generation :: "nat \<Rightarrow> int"

type_synonym 'o session = "'o \<times> nat"

datatype upload_outcome = Uploaded | PreconditionFailed error | UploadFailed error

definition downloadAppRegistryObject ::
  "'o storage \<Rightarrow> ('o \<Rightarrow> 'd object_state) \<Rightarrow> 'o session \<Rightarrow> 'd object_state result \<times> 'o session" where
  "downloadAppRegistryObject sg obj s =
     (case s of (objs, n) \<Rightarrow>
        (let objs' = sg_others sg n objs
         in (case sg_fault sg n of Some err \<Rightarrow> Inl err | None \<Rightarrow> Inr (obj objs'), (objs', Suc n))))"

definition uploadAppRegistryIndexFile ::
  "'o storage \<Rightarrow> ('o \<Rightarrow> 'd object_state) \<Rightarrow> ('d object_state \<Rightarrow> 'o \<Rightarrow> 'o) \<Rightarrow> 'd \<Rightarrow> int \<Rightarrow> 'o session \<Rightarrow>
    upload_outcome \<times> 'o session" where
  "uploadAppRegistryIndexFile sg obj put document generation s =
     (case s of (objs, n) \<Rightarrow>
        (let objs' = sg_others sg n objs
         in case sg_fault sg n of
              Some err \<Rightarrow> (UploadFailed err, (objs', Suc n))
            | None \<Rightarrow>
                if ob_generation (obj objs') \<noteq> generation then (PreconditionFailed (sg_conflict sg), (objs', Suc n))
                else (Uploaded, (put \<lparr>ob_generation = sg_generation sg n, ob_data = Some document\<rparr> objs', Suc n))))"

text \<open>An empty object stands for a new catalog; data that cannot be decoded is an error.\<close>

definition catalog_of :: "string \<Rightarrow> 'a \<Rightarrow> 'a result object_state \<Rightarrow> 'a result" where
  "catalog_of message fresh object =
     (case ob_data object of
        None \<Rightarrow> Inr fresh
      | Some (Inl err) \<Rightarrow> Inl (Wrapf message err)
      | Some (Inr catalog) \<Rightarrow> Inr catalog)"

definition appRegistryCatalogUpdateAttempts :: nat where "appRegistryCatalogUpdateAttempts = 5"

lemma download_ready:
  "sg_fault sg n = None \<Longrightarrow> sg_others sg n = id \<Longrightarrow>
    downloadAppRegistryObject sg obj (objs, n) = (Inr (obj objs), (objs, Suc n))"
  by (simp add: downloadAppRegistryObject_def)

lemma upload_ready:
  "sg_fault sg n = None \<Longrightarrow> sg_others sg n = id \<Longrightarrow> ob_generation (obj objs) = g \<Longrightarrow>
    uploadAppRegistryIndexFile sg obj put document g (objs, n) =
      (Uploaded, (put \<lparr>ob_generation = sg_generation sg n, ob_data = Some document\<rparr> objs, Suc n))"
  by (simp add: uploadAppRegistryIndexFile_def)

lemma upload_conflict:
  "sg_fault sg n = None \<Longrightarrow> ob_generation (obj (sg_others sg n objs)) \<noteq> g \<Longrightarrow>
    uploadAppRegistryIndexFile sg obj put document g (objs, n) =
      (PreconditionFailed (sg_conflict sg), (sg_others sg n objs, Suc n))"
  by (simp add: uploadAppRegistryIndexFile_def)

subsection \<open>Compare and swap of one catalog\<close>

datatype CatalogWriteOutcome = CatalogWriteOutcomeNotAttempted | CatalogWriteOutcomeUnchanged | CatalogWriteOutcomeUpdated

definition DefaultCatalogUpdateAttempts :: nat where "DefaultCatalogUpdateAttempts = 5"

text \<open>
  The operations on the documents: \<open>decode\<close> also takes the empty object, and \<open>encode\<close> stands for the
  encoding and the temporary file. The argument counts the attempts that are left, this one included.
\<close>

record ('d, 'a) catalog_ops =
  ca_decode :: "'d option \<Rightarrow> 'a result"
  ca_mutate :: "'a \<Rightarrow> ('a \<times> bool) result"
  ca_encode :: "'a \<Rightarrow> 'd result"

fun cas_attempts ::
  "'o storage \<Rightarrow> ('o \<Rightarrow> 'd object_state) \<Rightarrow> ('d object_state \<Rightarrow> 'o \<Rightarrow> 'o) \<Rightarrow> ('d, 'a) catalog_ops \<Rightarrow> nat \<Rightarrow>
    'o session \<Rightarrow> CatalogWriteOutcome result \<times> 'o session" where
  "cas_attempts sg obj put ops 0 s =
     (Inl (Errorf ''update %s: exceeded retry limit after concurrent catalog updates''), s)"
| "cas_attempts sg obj put ops (Suc left) s =
     (case downloadAppRegistryObject sg obj s of
        (Inl err, s) \<Rightarrow> (Inl err, s)
      | (Inr existing, s) \<Rightarrow>
          (case ca_decode ops (ob_data existing) of
             Inl err \<Rightarrow> (Inl err, s)
           | Inr decoded \<Rightarrow>
               (case ca_mutate ops decoded of
                  Inl err \<Rightarrow> (Inl err, s)
                | Inr (updated, changed) \<Rightarrow>
                    if \<not> changed then (Inr CatalogWriteOutcomeUnchanged, s)
                    else
                      (case ca_encode ops updated of
                         Inl err \<Rightarrow> (Inl err, s)
                       | Inr data \<Rightarrow>
                           (case uploadAppRegistryIndexFile sg obj put data (ob_generation existing) s of
                              (UploadFailed err, s) \<Rightarrow> (Inl err, s)
                            | (PreconditionFailed err, s) \<Rightarrow>
                                if 0 < left then cas_attempts sg obj put ops left s else (Inl err, s)
                            | (Uploaded, s) \<Rightarrow> (Inr CatalogWriteOutcomeUpdated, s))))))"

definition compareAndSwapCatalog ::
  "bool \<Rightarrow> 'o storage \<Rightarrow> ('o \<Rightarrow> 'd object_state) \<Rightarrow> ('d object_state \<Rightarrow> 'o \<Rightarrow> 'o) \<Rightarrow> int \<Rightarrow> ('d, 'a) catalog_ops \<Rightarrow>
    'o session \<Rightarrow> CatalogWriteOutcome result \<times> 'o session" where
  "compareAndSwapCatalog store sg obj put attempts ops s =
     (if \<not> store then (Inl (Errorf ''registry object store is required''), s)
      else cas_attempts sg obj put ops (if attempts \<le> 0 then DefaultCatalogUpdateAttempts else nat attempts) s)"

subsection \<open>Atomicity\<close>

text \<open>What the other writers alone make of the objects in the calls from \<open>n\<close> up to \<open>m\<close>.\<close>

fun others_run :: "'o storage \<Rightarrow> nat \<Rightarrow> nat \<Rightarrow> 'o \<Rightarrow> 'o" where
  "others_run sg n 0 objs = objs"
| "others_run sg n (Suc calls) objs = others_run sg (Suc n) calls (sg_others sg n objs)"

lemma others_run_add: "others_run sg n (a + b) objs = others_run sg (n + a) b (others_run sg n a objs)"
  by (induction a arbitrary: n objs) simp_all

text \<open>The storage gives an object a new generation whenever its data changes.\<close>

definition generations_identify :: "'o storage \<Rightarrow> ('o \<Rightarrow> 'd object_state) \<Rightarrow> bool" where
  "generations_identify sg obj \<longleftrightarrow>
     (\<forall>n objs. ob_generation (obj (sg_others sg n objs)) = ob_generation (obj objs) \<longrightarrow>
       ob_data (obj (sg_others sg n objs)) = ob_data (obj objs))"

definition swapped ::
  "'o storage \<Rightarrow> ('o \<Rightarrow> 'd object_state) \<Rightarrow> ('d object_state \<Rightarrow> 'o \<Rightarrow> 'o) \<Rightarrow> ('d, 'a) catalog_ops \<Rightarrow> 'o session \<Rightarrow>
    CatalogWriteOutcome result \<Rightarrow> 'o session \<Rightarrow> bool" where
  "swapped sg obj put ops s r s' \<longleftrightarrow>
     (case (s, s') of ((objs, n), (objs', m)) \<Rightarrow>
        n \<le> m \<and>
        (let before = others_run sg n (m - n) objs
         in if r = Inr CatalogWriteOutcomeUpdated
            then \<exists>x y data. ca_decode ops (ob_data (obj before)) = Inr x \<and> ca_mutate ops x = Inr (y, True) \<and>
              ca_encode ops y = Inr data \<and>
              objs' = put \<lparr>ob_generation = sg_generation sg (m - 1), ob_data = Some data\<rparr> before
            else objs' = before))"

lemma swapped_later:
  assumes "swapped sg obj put ops (others_run sg n k objs, n + k) r s'"
  shows "swapped sg obj put ops (objs, n) r s'"
proof (cases s')
  case (Pair objs' m)
  then have "n + k \<le> m" using assms by (simp add: swapped_def)
  then have "others_run sg (n + k) (m - (n + k)) (others_run sg n k objs) = others_run sg n (m - n) objs"
    using others_run_add [of sg n k "m - (n + k)" objs] by simp
  then show ?thesis using assms Pair \<open>n + k \<le> m\<close> by (simp add: swapped_def)
qed

lemma swapped_read: "r \<noteq> Inr CatalogWriteOutcomeUpdated \<Longrightarrow> swapped sg obj put ops (objs, n) r (sg_others sg n objs, Suc n)"
  by (simp add: swapped_def)

lemma swapped_write_refused:
  "r \<noteq> Inr CatalogWriteOutcomeUpdated \<Longrightarrow>
    swapped sg obj put ops (objs, n) r (sg_others sg (Suc n) (sg_others sg n objs), Suc (Suc n))"
  by (simp add: swapped_def numeral_2_eq_2 Suc_diff_le)

lemma swapped_write:
  assumes "generations_identify sg obj"
    and "ob_generation (obj (sg_others sg (Suc n) (sg_others sg n objs))) = ob_generation (obj (sg_others sg n objs))"
    and "ca_decode ops (ob_data (obj (sg_others sg n objs))) = Inr x" "ca_mutate ops x = Inr (y, True)"
    and "ca_encode ops y = Inr data"
  shows "swapped sg obj put ops (objs, n) (Inr CatalogWriteOutcomeUpdated)
    (put \<lparr>ob_generation = sg_generation sg (Suc n), ob_data = Some data\<rparr> (sg_others sg (Suc n) (sg_others sg n objs)),
     Suc (Suc n))"
  using assms by (simp add: swapped_def generations_identify_def Suc_diff_le)

lemma cas_attempts_swapped:
  assumes g: "generations_identify sg obj"
  shows "cas_attempts sg obj put ops left s = (r, s') \<Longrightarrow> swapped sg obj put ops s r s'"
proof (induction left arbitrary: s)
  case 0
  then show ?case by (cases s) (auto simp: swapped_def)
next
  case (Suc left)
  obtain objs n where s: "s = (objs, n)" by force
  have retry: "swapped sg obj put ops s r s'"
    if "cas_attempts sg obj put ops left (sg_others sg (Suc n) (sg_others sg n objs), Suc (Suc n)) = (r, s')"
    using swapped_later [of sg obj put ops n 2 objs r s'] Suc.IH [OF that] s by (simp add: numeral_2_eq_2)
  show ?case
    using Suc.prems retry swapped_write [OF g]
    by (auto simp: s downloadAppRegistryObject_def uploadAppRegistryIndexFile_def Let_def
        intro: swapped_read swapped_write_refused split: option.splits sum.splits prod.splits if_splits)
qed


text \<open>A counter that another writer raises between the first download and the first upload.\<close>

definition sample_counter_storage :: "int object_state storage" where
  "sample_counter_storage =
     \<lparr>sg_others = (\<lambda>n ob. if n = 1 then \<lparr>ob_generation = ob_generation ob + 1, ob_data = Some 7\<rparr> else ob),
      sg_fault = (\<lambda>_. None), sg_conflict = Errorf ''conflict'', sg_generation = (\<lambda>n. int n + 10)\<rparr>"

definition sample_counter_ops :: "(int, int) catalog_ops" where
  "sample_counter_ops =
     \<lparr>ca_decode = (\<lambda>d. Inr (case d of None \<Rightarrow> 0 | Some x \<Rightarrow> x)), ca_mutate = (\<lambda>x. Inr (x + 1, True)), ca_encode = Inr\<rparr>"


end
