(* ===== verification/Retention_Loop.thy ===== *)
theory Retention_Loop
  imports Retention Registry_Objects
begin

text \<open>
  The attempts of the pruning command, \<^verbatim>\<open>pruneAppRegistryRetention\<close> in
  \<^verbatim>\<open>internal/daemon/app_registry_retention.go\<close>, around the decisions of \<open>Retention\<close>: both catalogs are
  read, the actions are applied, and the catalogs are stored one after the other under their
  generations.
\<close>

subsection \<open>The attempts\<close>

record 'm retention_objects =
  ro_index :: "'m Index result object_state"
  ro_retention :: "RetentionIndex result object_state"

definition put_index :: "'m Index result object_state \<Rightarrow> 'm retention_objects \<Rightarrow> 'm retention_objects" where
  "put_index object objs = objs\<lparr>ro_index := object\<rparr>"

definition put_retention :: "RetentionIndex result object_state \<Rightarrow> 'm retention_objects \<Rightarrow> 'm retention_objects" where
  "put_retention object objs = objs\<lparr>ro_retention := object\<rparr>"

text \<open>
  The two flags of the code are set together, so one is kept. The counters and the removed objects
  of the state go on through the attempts. The last argument but two counts the attempts left.
\<close>

fun prune_attempts where
  "prune_attempts sg step deployed appName desired dryRun now 0 s st =
     (Inl (Errorf ''prune retention for %s: exceeded retry limit after concurrent updates''), s, st)"
| "prune_attempts sg step deployed appName desired dryRun now (Suc left) s st =
     (case downloadAppRegistryObject sg ro_index s of
        (Inl err, s) \<Rightarrow> (Inl err, s, st)
      | (Inr indexObject, s) \<Rightarrow>
          (case downloadAppRegistryObject sg ro_retention s of
             (Inl err, s) \<Rightarrow> (Inl err, s, st)
           | (Inr retentionObject, s) \<Rightarrow>
               (case catalog_of ''decode index'' [] indexObject of
                  Inl err \<Rightarrow> (Inl err, s, st)
                | Inr apps \<Rightarrow>
                    (case catalog_of ''decode retention'' NewEmptyRetentionIndex retentionObject of
                       Inl err \<Rightarrow> (Inl err, s, st)
                     | Inr retention \<Rightarrow>
                         (let actions = EvaluateRetentionPrune (Some apps) (Some retention) appName desired deployed now
                          in if dryRun \<or> actions = [] then (Inr (), s, st)
                             else
                               (case prune_each step actions
                                   (st\<lparr>pr_index := Some apps, pr_retention := Some retention, pr_changed := False\<rparr>) of
                                  (Inl err, st) \<Rightarrow> (Inl err, s, st)
                                | (Inr _, st) \<Rightarrow>
                                    if \<not> pr_changed st then (Inr (), s, st)
                                    else
                                      (case uploadAppRegistryIndexFile sg ro_retention put_retention
                                          (Inr (the (pr_retention st))) (ob_generation retentionObject) s of
                                         (UploadFailed err, s) \<Rightarrow> (Inl err, s, st)
                                       | (PreconditionFailed err, s) \<Rightarrow>
                                           if 0 < left
                                           then prune_attempts sg step deployed appName desired dryRun now left s st
                                           else (Inl err, s, st)
                                       | (Uploaded, s) \<Rightarrow>
                                           (case uploadAppRegistryIndexFile sg ro_index put_index
                                               (Inr (the (pr_index st))) (ob_generation indexObject) s of
                                              (UploadFailed err, s) \<Rightarrow> (Inl err, s, st)
                                            | (PreconditionFailed err, s) \<Rightarrow>
                                                if 0 < left
                                                then prune_attempts sg step deployed appName desired dryRun now left s st
                                                else (Inl err, s, st)
                                            | (Uploaded, s) \<Rightarrow> (Inr (), s, st)))))))))"

definition pruneAppRegistryRetention where
  "pruneAppRegistryRetention sg fresh delete deployed appName desired dryRun now s st =
     prune_attempts sg (prune_one fresh delete deployed appName now) deployed appName desired dryRun now
       appRegistryCatalogUpdateAttempts s st"

subsection \<open>A conflict on the index\<close>

lemma map_filter_none: "\<forall>x \<in> set xs. f x = None \<Longrightarrow> List.map_filter f xs = []"
  by (induction xs) (simp_all add: map_filter_simps)

lemma map_filter_single:
  assumes "wf_alist xs" and "(v, e) \<in> set xs" and "f (v, e) = Some a"
    and "\<forall>(k, e') \<in> set xs. k \<noteq> v \<longrightarrow> f (k, e') = None"
  shows "List.map_filter f xs = [a]"
  using assms
proof (induction xs)
  case (Cons x xs)
  obtain k e' where x: "x = (k, e')" by force
  show ?case
  proof (cases "k = v")
    case True
    have keys: "\<forall>y \<in> set xs. fst y \<noteq> v" and "e' = e" using Cons.prems x True by (auto simp: image_iff)
    moreover have "\<forall>y \<in> set xs. f y = None" using Cons.prems(4) keys by fastforce
    ultimately show ?thesis using Cons.prems(3) True by (simp add: x map_filter_simps map_filter_none)
  next
    case False
    then show ?thesis using Cons.IH Cons.prems x by (simp add: map_filter_simps)
  qed
qed simp

text \<open>The only row of the catalog that has expired is that of a version that was never deployed.\<close>

definition only_expired :: "RetentionIndex \<Rightarrow> string \<Rightarrow> RetentionVersion \<Rightarrow> string list \<Rightarrow> string \<Rightarrow> time \<Rightarrow> bool" where
  "only_expired r v e deployed desired now \<longleftrightarrow>
     wf_alist (versions_of r) \<and> ri_Versions r \<noteq> None \<and> (v, e) \<in> set (versions_of r) \<and> TrimSpace v = v \<and>
     RetentionExpired e now \<and> \<not> rt_EverDeployed e \<and> v \<notin> set deployed \<and> v \<noteq> TrimSpace desired \<and>
     (\<forall>(k, e') \<in> set (versions_of r). k \<noteq> v \<longrightarrow> \<not> RetentionExpired e' now)"

lemma RetentionExpired_deployed [simp]: "RetentionExpired (entry\<lparr>rt_EverDeployed := b\<rparr>) now = RetentionExpired entry now"
  by (simp add: RetentionExpired_def)

lemma only_expired_actions:
  assumes "only_expired r v e deployed desired now"
  shows "EvaluateRetentionPrune index0 (Some r) appName desired deployed now =
    [\<lparr>pa_Version = v, pa_Kind = RetentionPruneDeleteUnused\<rparr>]"
  unfolding EvaluateRetentionPrune_def option.case
  by (rule map_filter_single [where v = v and e = e])
    (use assms in \<open>auto simp: only_expired_def prune_decision_def Let_def\<close>)

lemma only_expired_removed:
  assumes "only_expired r v e deployed desired now"
  obtains r' where "RemoveRetentionVersion (Some r) v = (Some r', True)"
    and "\<And>index0. EvaluateRetentionPrune index0 (Some r') appName desired deployed now = []"
proof -
  obtain vs where vs: "ri_Versions r = Some vs" and rows: "versions_of r = vs"
    using assms by (auto simp: only_expired_def versions_of_def)
  have found: "map_of vs v = Some e" using assms rows by (auto simp: only_expired_def)
  let ?r = "r\<lparr>ri_Versions := Some (AList.delete v vs)\<rparr>"
  have gone: "\<forall>(k, e') \<in> set (AList.delete v vs). \<not> RetentionExpired e' now"
    using assms rows by (auto simp: only_expired_def AList.delete_eq)
  have "EvaluateRetentionPrune index0 (Some ?r) appName desired deployed now = []" for index0 :: "'a Index option"
    unfolding EvaluateRetentionPrune_def option.case
    by (rule map_filter_none) (use gone in \<open>auto simp: versions_of_def prune_decision_def Let_def\<close>)
  moreover have "RemoveRetentionVersion (Some r) v = (Some ?r, True)"
    using assms found vs by (simp add: RemoveRetentionVersion_def only_expired_def)
  ultimately show ?thesis by (rule that [rotated])
qed

lemma prune_unused_step:
  assumes "fresh (pr_reads st) v = Inr (Some e)" and "\<And>k. delete k = None"
    and "\<not> rt_EverDeployed e" "RetentionExpired e now" "v \<notin> set deployed"
    and "pr_retention st = Some r" "RemoveRetentionVersion (Some r) v = (Some r', True)"
  shows "\<exists>st'. prune_each (prune_one fresh delete deployed appName now)
      [\<lparr>pa_Version = v, pa_Kind = RetentionPruneDeleteUnused\<rparr>] st = (Inr (), st') \<and>
    pr_changed st' \<and> pr_retention st' = Some r' \<and>
    pr_deleted st' = pr_deleted st @ [EntryObject v, ArtifactPrefix v]"
  using assms
  by (simp add: prune_one_def ShouldApplyRetentionPruneAction_def ApplyRetentionPruneAction_def delete_object_def Let_def
      split: prod.split)

text \<open>
  C37. A concurrent change of the index between its download and its upload leaves a removed version
  in the index. The entry and the artifacts of the version have been deleted and the retention
  catalog has been stored without it, so the retry finds nothing to prune and reports success; the
  index is what the other writer stored.
\<close>

theorem prune_conflict_keeps_index:
  assumes "only_expired r v e deployed desired now" and "fresh (pr_reads st) v = Inr (Some e)" "\<And>k. delete k = None"
    and "\<And>k. sg_fault sg k = None" "\<And>k. k \<noteq> Suc (Suc (Suc n)) \<Longrightarrow> sg_others sg k = id"
    and "\<And>o'. sg_others sg (Suc (Suc (Suc n))) o' = o'\<lparr>ro_index := \<lparr>ob_generation = g, ob_data = Some (Inr idx')\<rparr>\<rparr>"
    and "g \<noteq> ob_generation (ro_index objs)"
    and "ob_data (ro_index objs) = Some (Inr idx)" "ob_data (ro_retention objs) = Some (Inr r)"
  shows "\<exists>objs' m st'. pruneAppRegistryRetention sg fresh delete deployed appName desired False now (objs, n) st =
      (Inr (), (objs', m), st') \<and>
    ob_data (ro_index objs') = Some (Inr idx') \<and>
    EntryObject v \<in> set (pr_deleted st') \<and> ArtifactPrefix v \<in> set (pr_deleted st')"
proof -
  obtain r' where r': "RemoveRetentionVersion (Some r) v = (Some r', True)"
      "\<And>index0 :: 'a Index option. EvaluateRetentionPrune index0 (Some r') appName desired deployed now = []"
    using only_expired_removed [OF assms(1)] by blast
  obtain st' where st': "prune_each (prune_one fresh delete deployed appName now)
      [\<lparr>pa_Version = v, pa_Kind = RetentionPruneDeleteUnused\<rparr>]
      (st\<lparr>pr_index := Some idx, pr_retention := Some r, pr_changed := False\<rparr>) = (Inr (), st')"
      "pr_changed st'" "pr_retention st' = Some r'" "pr_deleted st' = pr_deleted st @ [EntryObject v, ArtifactPrefix v]"
    using prune_unused_step [where st = "st\<lparr>pr_index := Some idx, pr_retention := Some r, pr_changed := False\<rparr>"
        and fresh = fresh and delete = delete and e = e and v = v and now = now and deployed = deployed and r = r
        and r' = r' and appName = appName] assms(1-3) r'(1)
    by (auto simp: only_expired_def)
  show ?thesis
    using assms(4-9) st' r'(2) only_expired_actions [OF assms(1), of "Some idx" appName]
    by (simp add: pruneAppRegistryRetention_def appRegistryCatalogUpdateAttempts_def eval_nat_numeral download_ready
        catalog_of_def upload_ready upload_conflict put_retention_def)
qed

definition sample_apps :: "unit Index" where
  "sample_apps = [(''mail'', [(''1.0.0'', 1, ())])]"

definition sample_retention_objects :: "unit retention_objects" where
  "sample_retention_objects =
     \<lparr>ro_index = \<lparr>ob_generation = 1, ob_data = Some (Inr sample_apps)\<rparr>,
      ro_retention = \<lparr>ob_generation = 1, ob_data = Some (Inr sample_retention)\<rparr>\<rparr>"

definition published_apps :: "unit Index" where
  "published_apps = [(''mail'', [(''1.0.0'', 1, ()), (''2.0.0'', 9, ())])]"

definition publishing_storage :: "unit retention_objects storage" where
  "publishing_storage =
     \<lparr>sg_others = (\<lambda>k. if k = Suc (Suc (Suc 0))
        then (\<lambda>objs. objs\<lparr>ro_index := \<lparr>ob_generation = 2, ob_data = Some (Inr published_apps)\<rparr>\<rparr>) else id),
      sg_fault = (\<lambda>_. None), sg_conflict = Errorf ''conflict'', sg_generation = (\<lambda>n. int n + 10)\<rparr>"

theorem prune_conflict_keeps_index_witness:
  "\<exists>objs' m st'. pruneAppRegistryRetention publishing_storage (\<lambda>_ v. Inr (map_of (versions_of sample_retention) v)) (\<lambda>_. None)
      [] ''mail'' ''1.1.0'' False 40 (sample_retention_objects, 0) prune_initial = (Inr (), (objs', m), st') \<and>
    ob_data (ro_index objs') = Some (Inr published_apps) \<and> ''1.0.0'' \<in> set (PublishedVersionKeys (Some published_apps) ''mail'') \<and>
    ArtifactPrefix ''1.0.0'' \<in> set (pr_deleted st')"
proof -
  let ?e = "\<lparr>rt_PublishedAt = 10, rt_EverDeployed = False, rt_ExpiresAt = Some 20\<rparr>"
  have only: "only_expired sample_retention ''1.0.0'' ?e [] ''1.1.0'' 40"
    by (simp add: only_expired_def sample_retention_def versions_of_def RetentionExpired_def is_graph_def)
  have row: "map_of (versions_of sample_retention) ''1.0.0'' = Some ?e"
    by (simp add: sample_retention_def versions_of_def)
  have "''1.0.0'' \<in> set (PublishedVersionKeys (Some published_apps) ''mail'')"
    by (simp add: PublishedVersionKeys_def published_apps_def)
  then show ?thesis
    using prune_conflict_keeps_index [OF only, of "\<lambda>_ v. Inr (map_of (versions_of sample_retention) v)" prune_initial
        "\<lambda>_. None" publishing_storage 0 2 published_apps sample_retention_objects sample_apps "''mail''"] row
    by (auto simp: publishing_storage_def sample_retention_objects_def)
qed

end
