(* ===== verification/Pending_Index.thy ===== *)
theory Pending_Index
  imports Auto_Deploy Registry_Objects
begin

text \<open>
  The catalogs of publications that are in flight or have failed, \<^verbatim>\<open>internal/appregistry/pending.go\<close>,
  and the three commands of \<^verbatim>\<open>internal/daemon/app_registry_pending.go\<close> that change them, with the loop that
  stores them under optimistic concurrency. A map is an association list that stands for the order
  of one iteration. All functions but the decoders treat a nil map
  like an empty one, so maps are plain lists here; a nil pointer is \<open>None\<close>. The publication recorded
  with a version is carried along and has type \<open>'p\<close>.
\<close>

subsection \<open>The catalogs\<close>

definition PendingIndexSchemaVersion :: int where "PendingIndexSchemaVersion = 1"
definition FailedIndexSchemaVersion :: int where "FailedIndexSchemaVersion = 1"
definition PendingPhasePublishing :: string where "PendingPhasePublishing = ''publishing''"
definition FailedReasonWorkflowFailed :: string where "FailedReasonWorkflowFailed = ''workflow_failed''"
definition FailedReasonStale :: string where "FailedReasonStale = ''stale''"
definition PendingStaleAfter :: duration where "PendingStaleAfter = 30 * Minute"
definition FailedRetainFor :: duration where "FailedRetainFor = 30 * 24 * Hour"

record 'p PendingVersion =
  pe_Version :: string
  pe_SourceRef :: string
  pe_Repository :: string
  pe_StartedAt :: time
  pe_UpdatedAt :: time
  pe_Phase :: string
  pe_Publication :: "'p option"

record 'p PendingIndex =
  pi_SchemaVersion :: int
  pi_App :: string
  pi_Pending :: "(string \<times> 'p PendingVersion) list"

record 'p FailedVersion =
  fv_Version :: string
  fv_SourceRef :: string
  fv_Repository :: string
  fv_StartedAt :: time
  fv_FailedAt :: time
  fv_Reason :: string
  fv_Publication :: "'p option"

record 'p FailedIndex =
  fi_SchemaVersion :: int
  fi_App :: string
  fi_Failed :: "(string \<times> 'p FailedVersion) list"

definition NewEmptyPendingIndex :: "string \<Rightarrow> 'p PendingIndex" where
  "NewEmptyPendingIndex appName =
     \<lparr>pi_SchemaVersion = PendingIndexSchemaVersion, pi_App = TrimSpace appName, pi_Pending = []\<rparr>"

definition NewEmptyFailedIndex :: "string \<Rightarrow> 'p FailedIndex" where
  "NewEmptyFailedIndex appName =
     \<lparr>fi_SchemaVersion = FailedIndexSchemaVersion, fi_App = TrimSpace appName, fi_Failed = []\<rparr>"

definition IndexContainsVersion :: "'m Index option \<Rightarrow> string \<Rightarrow> string \<Rightarrow> bool" where
  "IndexContainsVersion index0 appName version =
     (case index0 of
        None \<Rightarrow> False
      | Some apps \<Rightarrow>
          (case map_of apps (TrimSpace appName) of
             None \<Rightarrow> False
           | Some versions \<Rightarrow> map_of versions (TrimSpace version) \<noteq> None))"

subsection \<open>Pruning\<close>

definition failedVersionFromPending :: "'p PendingVersion \<Rightarrow> time \<Rightarrow> string \<Rightarrow> 'p FailedVersion" where
  "failedVersionFromPending entry failedAt reason =
     \<lparr>fv_Version = pe_Version entry, fv_SourceRef = pe_SourceRef entry, fv_Repository = pe_Repository entry,
      fv_StartedAt = pe_StartedAt entry, fv_FailedAt = failedAt, fv_Reason = reason,
      fv_Publication = pe_Publication entry\<rparr>"

definition pending_stale :: "time \<Rightarrow> 'p PendingVersion \<Rightarrow> bool" where
  "pending_stale now entry \<longleftrightarrow> PendingStaleAfter < now - pe_StartedAt entry"

type_synonym 'p prune_maps =
  "(string \<times> 'p PendingVersion) list \<times> (string \<times> 'p FailedVersion) list \<times> bool \<times> bool"

definition prune_pending_entry ::
  "(string \<Rightarrow> bool) \<Rightarrow> time \<Rightarrow> string \<Rightarrow> 'p prune_maps \<Rightarrow> string \<times> 'p PendingVersion \<Rightarrow> 'p prune_maps" where
  "prune_pending_entry published now exceptVersion maps row =
     (case (maps, row) of
        ((pending, failed, pendingChanged, failedChanged), (version, entry)) \<Rightarrow>
          if version = exceptVersion then maps
          else if published version then (AList.delete version pending, failed, True, failedChanged)
          else if pending_stale now entry
          then (AList.delete version pending,
             AList.update version (failedVersionFromPending entry now FailedReasonStale) failed, True, True)
          else maps)"

text \<open>
  Without an index of failed versions the entries moved there are put into a new one that the
  caller does not get.
\<close>

definition PrunePendingIndex ::
  "'p PendingIndex option \<Rightarrow> 'p FailedIndex option \<Rightarrow> 'm Index option \<Rightarrow> time \<Rightarrow> string \<Rightarrow>
    'p PendingIndex option \<times> 'p FailedIndex option \<times> bool \<times> bool" where
  "PrunePendingIndex pending0 failed0 published now exceptVersion =
     (case pending0 of
        None \<Rightarrow> (None, failed0, False, False)
      | Some pending \<Rightarrow>
          if pi_Pending pending = [] then (Some pending, failed0, False, False)
          else
            (let failed = (case failed0 of None \<Rightarrow> NewEmptyFailedIndex (pi_App pending) | Some f \<Rightarrow> f);
                 (pendings, faileds, pendingChanged, failedChanged) =
                   foldl (prune_pending_entry (IndexContainsVersion published (pi_App pending)) now
                       (TrimSpace exceptVersion))
                     (pi_Pending pending, fi_Failed failed, False, False) (pi_Pending pending)
             in (Some (pending\<lparr>pi_Pending := pendings\<rparr>), map_option (\<lambda>f. f\<lparr>fi_Failed := faileds\<rparr>) failed0,
                 pendingChanged, failedChanged)))"

definition keep_failed :: "(string \<Rightarrow> bool) \<Rightarrow> time \<Rightarrow> string \<times> 'p FailedVersion \<Rightarrow> bool" where
  "keep_failed published now row =
     (case row of (version, entry) \<Rightarrow> \<not> published version \<and> \<not> FailedRetainFor < now - fv_FailedAt entry)"

definition PruneFailedIndex ::
  "'p FailedIndex option \<Rightarrow> 'm Index option \<Rightarrow> time \<Rightarrow> 'p FailedIndex option \<times> bool" where
  "PruneFailedIndex failed0 published now =
     (case failed0 of
        None \<Rightarrow> (None, False)
      | Some failed \<Rightarrow>
          (let kept = filter (keep_failed (IndexContainsVersion published (fi_App failed)) now) (fi_Failed failed)
           in (Some (failed\<lparr>fi_Failed := kept\<rparr>), kept \<noteq> fi_Failed failed)))"

subsection \<open>Single entries\<close>

definition RemoveFailedVersion :: "'p FailedIndex option \<Rightarrow> string \<Rightarrow> 'p FailedIndex option \<times> bool" where
  "RemoveFailedVersion index0 version =
     (case index0 of
        None \<Rightarrow> (None, False)
      | Some failed \<Rightarrow>
          (case map_of (fi_Failed failed) (TrimSpace version) of
             None \<Rightarrow> (Some failed, False)
           | Some _ \<Rightarrow> (Some (failed\<lparr>fi_Failed := AList.delete (TrimSpace version) (fi_Failed failed)\<rparr>), True)))"

text \<open>
  \<^verbatim>\<open>strings.ToLower\<close> maps the bytes of an ASCII string; other strings go through the case table of
  Unicode, which is the argument \<open>unicode_lower\<close>.
\<close>

definition lower_byte :: "char \<Rightarrow> char" where
  "lower_byte c = (if 65 \<le> (of_char c :: nat) \<and> of_char c \<le> (90 :: nat) then char_of (of_char c + 32 :: nat) else c)"

definition ToLower :: "(string \<Rightarrow> string) \<Rightarrow> string \<Rightarrow> string" where
  "ToLower unicode_lower s = (if ascii s then map lower_byte s else unicode_lower s)"

definition UpsertPendingVersion ::
  "(string \<Rightarrow> string) \<Rightarrow> 'p PendingIndex option \<Rightarrow> string \<Rightarrow> 'p PendingVersion \<Rightarrow> time \<Rightarrow> 'p PendingIndex \<times> bool" where
  "UpsertPendingVersion unicode_lower index0 appName version0 now =
     (let pending = (case index0 of None \<Rightarrow> NewEmptyPendingIndex appName | Some p \<Rightarrow> p);
          key = TrimSpace (pe_Version version0);
          version = version0\<lparr>pe_Version := key,
            pe_SourceRef := ToLower unicode_lower (TrimSpace (pe_SourceRef version0)),
            pe_Repository := TrimSpace (pe_Repository version0),
            pe_Phase := PendingPhasePublishing,
            pe_UpdatedAt := now,
            pe_StartedAt := (case map_of (pi_Pending pending) key of Some existing \<Rightarrow> pe_StartedAt existing | None \<Rightarrow> now)\<rparr>
      in (pending\<lparr>pi_Pending := AList.update key version (pi_Pending pending)\<rparr>, True))"

definition RemovePendingVersion ::
  "'p PendingIndex option \<Rightarrow> string \<Rightarrow> 'p PendingIndex option \<times> 'p PendingVersion option" where
  "RemovePendingVersion index0 version =
     (case index0 of
        None \<Rightarrow> (None, None)
      | Some pending \<Rightarrow>
          (case map_of (pi_Pending pending) (TrimSpace version) of
             None \<Rightarrow> (Some pending, None)
           | Some entry \<Rightarrow>
               (Some (pending\<lparr>pi_Pending := AList.delete (TrimSpace version) (pi_Pending pending)\<rparr>), Some entry)))"

definition RecordFailedVersion ::
  "'p FailedIndex option \<Rightarrow> string \<Rightarrow> 'p PendingVersion \<Rightarrow> time \<Rightarrow> string \<Rightarrow> 'p FailedIndex \<times> bool" where
  "RecordFailedVersion index0 appName pending failedAt reason =
     (let failed = (case index0 of None \<Rightarrow> NewEmptyFailedIndex appName | Some f \<Rightarrow> f);
          version = TrimSpace (pe_Version pending)
      in case map_of (fi_Failed failed) version of
           Some _ \<Rightarrow> (failed, False)
         | None \<Rightarrow>
             (failed\<lparr>fi_Failed :=
                AList.update version (failedVersionFromPending pending failedAt reason) (fi_Failed failed)\<rparr>, True))"

definition PublishStartedAtFromPending :: "'p PendingIndex option \<Rightarrow> string \<Rightarrow> time option" where
  "PublishStartedAtFromPending index0 version =
     (case index0 of
        None \<Rightarrow> None
      | Some pending \<Rightarrow>
          (case map_of (pi_Pending pending) (TrimSpace version) of
             None \<Rightarrow> None
           | Some entry \<Rightarrow> if pe_StartedAt entry = 0 then None else Some (pe_StartedAt entry)))"

subsection \<open>The commands\<close>

text \<open>
  Setting a version pending. The pending index is not nil here: the code reads its map before the
  upsert. What the upsert returns is dropped by the code, but it is the index that was passed in,
  changed in place.
\<close>

definition ApplyPendingSet ::
  "(string \<Rightarrow> string) \<Rightarrow> 'p PendingIndex \<Rightarrow> 'p FailedIndex option \<Rightarrow> 'm Index option \<Rightarrow> string \<Rightarrow>
    'p PendingVersion \<Rightarrow> time \<Rightarrow> 'p PendingIndex \<times> 'p FailedIndex option \<times> bool \<times> bool" where
  "ApplyPendingSet unicode_lower pending0 failed0 published appName version now =
     (let versionKey = TrimSpace (pe_Version version);
          (failed1, removedFailed) = RemoveFailedVersion failed0 versionKey;
          (pending2, failed2, prunedPending, prunedFailed) =
            PrunePendingIndex (Some pending0) failed1 published now versionKey;
          (failed3, agedFailed) = PruneFailedIndex failed2 published now;
          failedChanged = (removedFailed \<or> prunedFailed \<or> agedFailed);
          pending = the pending2
      in if IndexContainsVersion published appName versionKey
         then (let (p, removed) = RemovePendingVersion (Some pending) versionKey
               in (the p, failed3, prunedPending \<or> removed \<noteq> None, failedChanged))
         else
           (let refreshed =
              (case map_of (pi_Pending pending) versionKey of
                 None \<Rightarrow> pending
               | Some entry \<Rightarrow>
                   if pending_stale now entry then the (fst (RemovePendingVersion (Some pending) versionKey)) else pending)
            in (fst (UpsertPendingVersion unicode_lower (Some refreshed) appName version now), failed3, True,
                failedChanged)))"

text \<open>
  What the commands do to the catalogs they have loaded, with the two flags that say which
  catalog has to be stored.
\<close>

record ('p, 'm) pending_state =
  ps_pending :: "'p PendingIndex"
  ps_failed :: "'p FailedIndex"
  ps_published :: "'m Index option"
  ps_pendingChanged :: bool
  ps_failedChanged :: bool

definition pending_set ::
  "(string \<Rightarrow> string) \<Rightarrow> string \<Rightarrow> 'p PendingVersion \<Rightarrow> time \<Rightarrow> ('p, 'm) pending_state \<Rightarrow> ('p, 'm) pending_state" where
  "pending_set unicode_lower appName version now st =
     (case ApplyPendingSet unicode_lower (ps_pending st) (Some (ps_failed st)) (ps_published st) appName version now of
        (pending, failed, pendingChanged, failedChanged) \<Rightarrow>
          st\<lparr>ps_pending := pending, ps_failed := the failed,
             ps_pendingChanged := ps_pendingChanged st \<or> pendingChanged,
             ps_failedChanged := ps_failedChanged st \<or> failedChanged\<rparr>)"

definition pending_clear :: "string \<Rightarrow> ('p, 'm) pending_state \<Rightarrow> ('p, 'm) pending_state" where
  "pending_clear version st =
     (case RemovePendingVersion (Some (ps_pending st)) version of
        (_, None) \<Rightarrow> st
      | (pending, Some _) \<Rightarrow> st\<lparr>ps_pending := the pending, ps_pendingChanged := True\<rparr>)"

definition pending_fail :: "string \<Rightarrow> string \<Rightarrow> time \<Rightarrow> ('p, 'm) pending_state \<Rightarrow> ('p, 'm) pending_state" where
  "pending_fail appName version now st =
     (case RemovePendingVersion (Some (ps_pending st)) version of
        (_, None) \<Rightarrow> st
      | (pending, Some removed) \<Rightarrow>
          (let st' = st\<lparr>ps_pending := the pending, ps_pendingChanged := True\<rparr>
           in case RecordFailedVersion (Some (ps_failed st)) appName removed now FailedReasonWorkflowFailed of
                (failed, changed) \<Rightarrow>
                  if changed then st'\<lparr>ps_failed := failed, ps_failedChanged := True\<rparr> else st'))"

datatype 'p pending_command =
    PendingSet "'p PendingVersion" time
  | PendingClear string
  | PendingFail string time

fun run_command ::
  "(string \<Rightarrow> string) \<Rightarrow> string \<Rightarrow> 'p pending_command \<Rightarrow> ('p, 'm) pending_state \<Rightarrow> ('p, 'm) pending_state" where
  "run_command unicode_lower appName (PendingSet version now) st = pending_set unicode_lower appName version now st"
| "run_command unicode_lower appName (PendingClear version) st = pending_clear version st"
| "run_command unicode_lower appName (PendingFail version now) st = pending_fail appName version now st"

subsection \<open>Storing the catalogs\<close>

text \<open>
  The three objects of an app, each with what its data decodes to: an error or a catalog.
\<close>

record ('p, 'm) catalog_objects =
  co_pending :: "'p PendingIndex result object_state"
  co_failed :: "'p FailedIndex result object_state"
  co_index :: "'m Index result object_state"

definition loadAppRegistryPendingCatalog ::
  "('p, 'm) catalog_objects storage \<Rightarrow> string \<Rightarrow> ('p, 'm) catalog_objects session \<Rightarrow>
    (('p, 'm) pending_state \<times> int \<times> int) result \<times> ('p, 'm) catalog_objects session" where
  "loadAppRegistryPendingCatalog sg appName s =
     (case downloadAppRegistryObject sg co_pending s of
        (Inl err, s) \<Rightarrow> (Inl err, s)
      | (Inr pendingObject, s) \<Rightarrow>
          (case downloadAppRegistryObject sg co_failed s of
             (Inl err, s) \<Rightarrow> (Inl err, s)
           | (Inr failedObject, s) \<Rightarrow>
               (case downloadAppRegistryObject sg co_index s of
                  (Inl err, s) \<Rightarrow> (Inl err, s)
                | (Inr indexObject, s) \<Rightarrow>
                    ((case catalog_of ''decode pending catalog'' (NewEmptyPendingIndex appName) pendingObject of
                        Inl err \<Rightarrow> Inl err
                      | Inr pending \<Rightarrow>
                          (case catalog_of ''decode failed catalog'' (NewEmptyFailedIndex appName) failedObject of
                             Inl err \<Rightarrow> Inl err
                           | Inr failed \<Rightarrow>
                               (case catalog_of ''decode published index'' [] indexObject of
                                  Inl err \<Rightarrow> Inl err
                                | Inr published \<Rightarrow>
                                    Inr (\<lparr>ps_pending = pending, ps_failed = failed, ps_published = Some published,
                                       ps_pendingChanged = False, ps_failedChanged = False\<rparr>,
                                      ob_generation pendingObject, ob_generation failedObject)))), s))))"

definition put_pending ::
  "'p PendingIndex result object_state \<Rightarrow> ('p, 'm) catalog_objects \<Rightarrow> ('p, 'm) catalog_objects" where
  "put_pending object objs = objs\<lparr>co_pending := object\<rparr>"

definition put_failed ::
  "'p FailedIndex result object_state \<Rightarrow> ('p, 'm) catalog_objects \<Rightarrow> ('p, 'm) catalog_objects" where
  "put_failed object objs = objs\<lparr>co_failed := object\<rparr>"

definition uploadAppRegistryCatalogDocument where
  "uploadAppRegistryCatalogDocument sg obj put generation document s =
     uploadAppRegistryIndexFile sg obj put (Inr document) generation s"

text \<open>The upload of one catalog when its flag is set.\<close>

definition upload_if ::
  "bool \<Rightarrow> (('p, 'm) catalog_objects session \<Rightarrow> upload_outcome \<times> ('p, 'm) catalog_objects session) \<Rightarrow> ('p, 'm) catalog_objects session \<Rightarrow>
    upload_outcome \<times> ('p, 'm) catalog_objects session" where
  "upload_if changed upload s = (if changed then upload s else (Uploaded, s))"

text \<open>The argument counts the attempts that are left, this one included.\<close>

fun mutate_attempts ::
  "('p, 'm) catalog_objects storage \<Rightarrow> string \<Rightarrow> (('p, 'm) pending_state \<Rightarrow> ('p, 'm) pending_state) \<Rightarrow> nat \<Rightarrow> ('p, 'm) catalog_objects session \<Rightarrow>
    unit result \<times> ('p, 'm) catalog_objects session" where
  "mutate_attempts sg appName mutate 0 s =
     (Inl (Errorf ''update pending catalog for %s: exceeded retry limit after concurrent updates''), s)"
| "mutate_attempts sg appName mutate (Suc left) s =
     (case loadAppRegistryPendingCatalog sg appName s of
        (Inl err, s) \<Rightarrow> (Inl err, s)
      | (Inr (loaded, pendingGen, failedGen), s) \<Rightarrow>
          (let st = mutate loaded
           in if \<not> ps_pendingChanged st \<and> \<not> ps_failedChanged st then (Inr (), s)
              else
                (case upload_if (ps_pendingChanged st)
                   (uploadAppRegistryCatalogDocument sg co_pending put_pending pendingGen (ps_pending st)) s of
                   (UploadFailed err, s) \<Rightarrow> (Inl err, s)
                 | (PreconditionFailed err, s) \<Rightarrow>
                     if 0 < left then mutate_attempts sg appName mutate left s else (Inl err, s)
                 | (Uploaded, s) \<Rightarrow>
                     (case upload_if (ps_failedChanged st)
                        (uploadAppRegistryCatalogDocument sg co_failed put_failed failedGen (ps_failed st)) s of
                        (UploadFailed err, s) \<Rightarrow> (Inl err, s)
                      | (PreconditionFailed err, s) \<Rightarrow>
                          if 0 < left then mutate_attempts sg appName mutate left s else (Inl err, s)
                      | (Uploaded, s) \<Rightarrow> (Inr (), s)))))"

definition mutateAppRegistryPendingCatalog ::
  "('p, 'm) catalog_objects storage \<Rightarrow> string \<Rightarrow> (('p, 'm) pending_state \<Rightarrow> ('p, 'm) pending_state) \<Rightarrow> ('p, 'm) catalog_objects session \<Rightarrow>
    unit result \<times> ('p, 'm) catalog_objects session" where
  "mutateAppRegistryPendingCatalog sg appName mutate s =
     mutate_attempts sg appName mutate appRegistryCatalogUpdateAttempts s"


subsection \<open>What pruning leaves\<close>

lemma prune_fold_pending:
  "distinct (map fst rows) \<Longrightarrow>
    map_of (fst (foldl (prune_pending_entry pub now ex) (p, f, a, b) rows)) v =
      (case map_of rows v of
         Some e \<Rightarrow> if v \<noteq> ex \<and> (pub v \<or> pending_stale now e) then None else map_of p v
       | None \<Rightarrow> map_of p v)"
proof (induction rows arbitrary: p f a b)
  case Nil
  then show ?case by simp
next
  case (Cons row rows)
  obtain k e where row: "row = (k, e)" by force
  have fresh: "map_of rows k = None" using Cons.prems row by (simp add: map_of_eq_None_iff)
  show ?case
    using Cons.IH Cons.prems fresh
    by (auto simp: row prune_pending_entry_def delete_conv' split: option.split)
qed

lemma prune_fold_failed:
  "distinct (map fst rows) \<Longrightarrow>
    map_of (fst (snd (foldl (prune_pending_entry pub now ex) (p, f, a, b) rows))) v =
      (case map_of rows v of
         Some e \<Rightarrow>
           if v \<noteq> ex \<and> \<not> pub v \<and> pending_stale now e then Some (failedVersionFromPending e now FailedReasonStale)
           else map_of f v
       | None \<Rightarrow> map_of f v)"
proof (induction rows arbitrary: p f a b)
  case Nil
  then show ?case by simp
next
  case (Cons row rows)
  obtain k e where row: "row = (k, e)" by force
  have fresh: "map_of rows k = None" using Cons.prems row by (simp add: map_of_eq_None_iff)
  show ?case
    using Cons.IH Cons.prems fresh
    by (auto simp: row prune_pending_entry_def update_conv' split: option.split)
qed

lemma prune_fold_distinct:
  "distinct (map fst p) \<Longrightarrow> distinct (map fst f) \<Longrightarrow>
    distinct (map fst (fst (foldl (prune_pending_entry pub now ex) (p, f, a, b) rows))) \<and>
    distinct (map fst (fst (snd (foldl (prune_pending_entry pub now ex) (p, f, a, b) rows))))"
  by (induction rows arbitrary: p f a b)
    (auto simp: prune_pending_entry_def distinct_delete distinct_update split: prod.split)

lemma PrunePendingIndex_some:
  "PrunePendingIndex (Some p) (Some f) published now ex =
     (let r = foldl (prune_pending_entry (IndexContainsVersion published (pi_App p)) now (TrimSpace ex))
        (pi_Pending p, fi_Failed f, False, False) (pi_Pending p)
      in (Some (p\<lparr>pi_Pending := fst r\<rparr>), Some (f\<lparr>fi_Failed := fst (snd r)\<rparr>), fst (snd (snd r)), snd (snd (snd r))))"
  by (cases p; cases f) (auto simp: PrunePendingIndex_def Let_def split: prod.split)

lemma RemovePendingVersion_some:
  "RemovePendingVersion (Some p) version =
     (Some (p\<lparr>pi_Pending := AList.delete (TrimSpace version) (pi_Pending p)\<rparr>), map_of (pi_Pending p) (TrimSpace version))"
  by (cases p) (auto simp: RemovePendingVersion_def delete_id dest: map_of_eq_None_iff [THEN iffD1] split: option.split)

lemma RemoveFailedVersion_some:
  "fst (RemoveFailedVersion (Some f) version) =
     Some (f\<lparr>fi_Failed := AList.delete (TrimSpace version) (fi_Failed f)\<rparr>)"
  by (cases f) (auto simp: RemoveFailedVersion_def delete_id map_of_eq_None_iff split: option.split)

lemma PruneFailedIndex_some:
  "fst (PruneFailedIndex (Some f) published now) =
     Some (f\<lparr>fi_Failed := filter (keep_failed (IndexContainsVersion published (fi_App f)) now) (fi_Failed f)\<rparr>)"
  by (simp add: PruneFailedIndex_def Let_def)

lemma map_of_keep_failed:
  "distinct (map fst f) \<Longrightarrow>
    map_of (filter (keep_failed pub now) f) v =
      (case map_of f v of Some e \<Rightarrow> if keep_failed pub now (v, e) then Some e else None | None \<Rightarrow> None)"
  by (induction f) (auto simp: keep_failed_def map_of_eq_None_iff split: option.split)

lemma IndexContainsVersion_trim:
  "TrimSpace a = TrimSpace b \<Longrightarrow> IndexContainsVersion published a v = IndexContainsVersion published b v"
  unfolding IndexContainsVersion_def by metis

subsection \<open>Setting a version pending\<close>

text \<open>The entry that is stored for the version.\<close>

definition set_entry :: "(string \<Rightarrow> string) \<Rightarrow> 'p PendingVersion \<Rightarrow> time \<Rightarrow> 'p PendingVersion option \<Rightarrow> 'p PendingVersion" where
  "set_entry unicode_lower version now existing =
     version\<lparr>pe_Version := TrimSpace (pe_Version version),
       pe_SourceRef := ToLower unicode_lower (TrimSpace (pe_SourceRef version)),
       pe_Repository := TrimSpace (pe_Repository version),
       pe_Phase := PendingPhasePublishing,
       pe_UpdatedAt := now,
       pe_StartedAt := (case existing of Some e \<Rightarrow> if pending_stale now e then now else pe_StartedAt e | None \<Rightarrow> now)\<rparr>"

definition catalogs_ok :: "string \<Rightarrow> ('p, 'm) pending_state \<Rightarrow> bool" where
  "catalogs_ok appName st \<longleftrightarrow>
     distinct (map fst (pi_Pending (ps_pending st))) \<and> distinct (map fst (fi_Failed (ps_failed st))) \<and>
     list_all (\<lambda>(v, e). v = TrimSpace (pe_Version e)) (pi_Pending (ps_pending st)) \<and>
     fst ` set (pi_Pending (ps_pending st)) \<inter> fst ` set (fi_Failed (ps_failed st)) = {} \<and>
     TrimSpace (pi_App (ps_pending st)) = TrimSpace appName \<and> TrimSpace (fi_App (ps_failed st)) = TrimSpace appName"

abbreviation is_published :: "string \<Rightarrow> ('p, 'm) pending_state \<Rightarrow> string \<Rightarrow> bool" where
  "is_published appName st \<equiv> IndexContainsVersion (ps_published st) appName"

abbreviation pending_of :: "('p, 'm) pending_state \<Rightarrow> string \<Rightarrow> 'p PendingVersion option" where
  "pending_of st \<equiv> map_of (pi_Pending (ps_pending st))"

abbreviation failed_of :: "('p, 'm) pending_state \<Rightarrow> string \<Rightarrow> 'p FailedVersion option" where
  "failed_of st \<equiv> map_of (fi_Failed (ps_failed st))"

text \<open>The two maps after the pruning that skips the version.\<close>

definition pruned_maps :: "string \<Rightarrow> time \<Rightarrow> ('p, 'm) pending_state \<Rightarrow> 'p prune_maps" where
  "pruned_maps key now st =
     foldl (prune_pending_entry (is_published (pi_App (ps_pending st)) st) now key)
       (pi_Pending (ps_pending st), AList.delete key (fi_Failed (ps_failed st)), False, False)
       (pi_Pending (ps_pending st))"

lemma pending_set_maps:
  fixes st :: "('p, 'm) pending_state" and version :: "'p PendingVersion" and now :: time
  defines "key \<equiv> TrimSpace (pe_Version version)"
  defines "P \<equiv> fst (pruned_maps key now st)"
  shows "pi_Pending (ps_pending (pending_set ul app version now st)) =
      (if is_published app st key then AList.delete key P
       else AList.update key (set_entry ul version now (map_of P key))
         (case map_of P key of Some e \<Rightarrow> if pending_stale now e then AList.delete key P else P | None \<Rightarrow> P))"
    and "fi_Failed (ps_failed (pending_set ul app version now st)) =
      filter (keep_failed (is_published (fi_App (ps_failed st)) st) now) (fst (snd (pruned_maps key now st)))"
    and "ps_published (pending_set ul app version now st) = ps_published st"
    and "pi_App (ps_pending (pending_set ul app version now st)) = pi_App (ps_pending st)"
    and "fi_App (ps_failed (pending_set ul app version now st)) = fi_App (ps_failed st)"
  unfolding key_def P_def
  by (simp_all add: pending_set_def ApplyPendingSet_def PrunePendingIndex_some RemovePendingVersion_some
      RemoveFailedVersion_some PruneFailedIndex_some Let_def case_prod_beta pruned_maps_def
      UpsertPendingVersion_def set_entry_def delete_conv' split: option.split)

lemma pruned_maps_of:
  assumes "catalogs_ok app st"
  shows "map_of (fst (pruned_maps key now st)) v =
      (case pending_of st v of
         Some e \<Rightarrow> if v \<noteq> key \<and> (is_published app st v \<or> pending_stale now e) then None else Some e
       | None \<Rightarrow> None)"
    and "map_of (fst (snd (pruned_maps key now st))) v =
      (case pending_of st v of
         Some e \<Rightarrow>
           if v \<noteq> key \<and> \<not> is_published app st v \<and> pending_stale now e
           then Some (failedVersionFromPending e now FailedReasonStale)
           else if v = key then None else failed_of st v
       | None \<Rightarrow> if v = key then None else failed_of st v)"
    and "distinct (map fst (fst (pruned_maps key now st)))"
    and "distinct (map fst (fst (snd (pruned_maps key now st))))"
proof -
  have d: "distinct (map fst (pi_Pending (ps_pending st)))" "distinct (map fst (AList.delete key (fi_Failed (ps_failed st))))"
    and t: "is_published (pi_App (ps_pending st)) st = is_published app st"
    using assms IndexContainsVersion_trim [of "pi_App (ps_pending st)" app]
    by (auto simp: catalogs_ok_def distinct_delete)
  show "map_of (fst (pruned_maps key now st)) v =
      (case pending_of st v of
         Some e \<Rightarrow> if v \<noteq> key \<and> (is_published app st v \<or> pending_stale now e) then None else Some e
       | None \<Rightarrow> None)"
    unfolding pruned_maps_def t prune_fold_pending [OF d(1)] by (simp split: option.split)
  show "map_of (fst (snd (pruned_maps key now st))) v =
      (case pending_of st v of
         Some e \<Rightarrow>
           if v \<noteq> key \<and> \<not> is_published app st v \<and> pending_stale now e
           then Some (failedVersionFromPending e now FailedReasonStale)
           else if v = key then None else failed_of st v
       | None \<Rightarrow> if v = key then None else failed_of st v)"
    unfolding pruned_maps_def t prune_fold_failed [OF d(1)] by (simp add: delete_conv' split: option.split)
  show "distinct (map fst (fst (pruned_maps key now st)))" "distinct (map fst (fst (snd (pruned_maps key now st))))"
    unfolding pruned_maps_def using prune_fold_distinct [OF d] by blast+
qed

lemma pending_set_pending:
  assumes "catalogs_ok app st"
  shows "pending_of (pending_set ul app version now st) v =
    (if v = TrimSpace (pe_Version version)
     then if is_published app st v then None else Some (set_entry ul version now (pending_of st v))
     else case pending_of st v of
            Some e \<Rightarrow> if is_published app st v \<or> pending_stale now e then None else Some e
          | None \<Rightarrow> None)"
  by (simp add: pending_set_maps(1) pruned_maps_of(1) [OF assms] delete_conv' update_conv' split: option.split)

lemma pending_set_failed:
  assumes "catalogs_ok app st"
  shows "failed_of (pending_set ul app version now st) v =
    (if v = TrimSpace (pe_Version version) \<or> is_published app st v then None
     else case pending_of st v of
            Some e \<Rightarrow> if pending_stale now e then Some (failedVersionFromPending e now FailedReasonStale) else None
          | None \<Rightarrow>
              (case failed_of st v of
                 Some e \<Rightarrow> if FailedRetainFor < now - fv_FailedAt e then None else Some e
               | None \<Rightarrow> None))"
proof -
  have t: "is_published (fi_App (ps_failed st)) st = is_published app st"
    using assms IndexContainsVersion_trim [of "fi_App (ps_failed st)" app] by (auto simp: catalogs_ok_def)
  have disj: "pending_of st v = Some e \<Longrightarrow> failed_of st v = None" for e
    using assms by (force simp: catalogs_ok_def map_of_eq_None_iff dest: map_of_SomeD)
  show ?thesis
    unfolding pending_set_maps(2) t map_of_keep_failed [OF pruned_maps_of(4) [OF assms]] pruned_maps_of(2) [OF assms]
    using disj
    by (auto simp: keep_failed_def failedVersionFromPending_def FailedRetainFor_def Hour_def split: option.split)
qed

lemma catalogs_okI:
  assumes "distinct (map fst (pi_Pending (ps_pending st)))" "distinct (map fst (fi_Failed (ps_failed st)))"
    and "\<And>v e. pending_of st v = Some e \<Longrightarrow> v = TrimSpace (pe_Version e) \<and> failed_of st v = None"
    and "TrimSpace (pi_App (ps_pending st)) = TrimSpace app" "TrimSpace (fi_App (ps_failed st)) = TrimSpace app"
  shows "catalogs_ok app st"
proof -
  have in_map: "(v, e) \<in> set (pi_Pending (ps_pending st)) \<Longrightarrow> pending_of st v = Some e" for v e
    using assms(1) by (simp add: map_of_eq_Some_iff)
  have "v \<notin> fst ` set (fi_Failed (ps_failed st))" if "(v, e) \<in> set (pi_Pending (ps_pending st))" for v e
    using assms(3) [OF in_map [OF that]] by (metis map_of_eq_None_iff)
  then have "fst ` set (pi_Pending (ps_pending st)) \<inter> fst ` set (fi_Failed (ps_failed st)) = {}" by force
  moreover have "list_all (\<lambda>(v, e). v = TrimSpace (pe_Version e)) (pi_Pending (ps_pending st))"
    unfolding list_all_iff using assms(3) in_map by blast
  ultimately show ?thesis unfolding catalogs_ok_def using assms(1,2,4,5) by blast
qed

lemma catalogs_okD:
  assumes "catalogs_ok app st"
  shows "distinct (map fst (pi_Pending (ps_pending st)))" "distinct (map fst (fi_Failed (ps_failed st)))"
    and "TrimSpace (pi_App (ps_pending st)) = TrimSpace app" "TrimSpace (fi_App (ps_failed st)) = TrimSpace app"
    and "pending_of st v = Some e \<Longrightarrow> v = TrimSpace (pe_Version e)"
    and "pending_of st v = Some e \<Longrightarrow> failed_of st v = None"
proof -
  show "distinct (map fst (pi_Pending (ps_pending st)))" "distinct (map fst (fi_Failed (ps_failed st)))"
    "TrimSpace (pi_App (ps_pending st)) = TrimSpace app" "TrimSpace (fi_App (ps_failed st)) = TrimSpace app"
    using assms by (simp_all add: catalogs_ok_def)
  assume "pending_of st v = Some e"
  then have m: "(v, e) \<in> set (pi_Pending (ps_pending st))" by (rule map_of_SomeD)
  show "v = TrimSpace (pe_Version e)" using assms m by (auto simp: catalogs_ok_def list_all_iff)
  have "v \<notin> fst ` set (fi_Failed (ps_failed st))" using assms m by (force simp: catalogs_ok_def)
  then show "failed_of st v = None" by (simp add: map_of_eq_None_iff)
qed

lemma pending_set_ok: "catalogs_ok app st \<Longrightarrow> catalogs_ok app (pending_set ul app version now st)"
proof (rule catalogs_okI)
  assume ok: "catalogs_ok app st"
  note old = catalogs_okD [OF ok]
  show "distinct (map fst (pi_Pending (ps_pending (pending_set ul app version now st))))"
    by (simp add: pending_set_maps(1) distinct_update distinct_delete pruned_maps_of(3) [OF ok] split: option.split)
  show "distinct (map fst (fi_Failed (ps_failed (pending_set ul app version now st))))"
    by (simp add: pending_set_maps(2) distinct_map_filter pruned_maps_of(4) [OF ok])
  show "v = TrimSpace (pe_Version e) \<and> failed_of (pending_set ul app version now st) v = None"
    if "pending_of (pending_set ul app version now st) v = Some e" for v e
    using that old(5)
    by (auto simp: pending_set_pending [OF ok] pending_set_failed [OF ok] set_entry_def split: if_splits option.splits)
  show "TrimSpace (pi_App (ps_pending (pending_set ul app version now st))) = TrimSpace app"
    "TrimSpace (fi_App (ps_failed (pending_set ul app version now st))) = TrimSpace app"
    using old(3,4) by (simp_all add: pending_set_maps(4,5))
qed

lemma delete_pending_ok:
  assumes ok: "catalogs_ok app st"
    and same: "pi_Pending (ps_pending st') = AList.delete key (pi_Pending (ps_pending st))"
      "pi_App (ps_pending st') = pi_App (ps_pending st)" "fi_App (ps_failed st') = fi_App (ps_failed st)"
      "distinct (map fst (fi_Failed (ps_failed st')))"
    and failed: "\<And>v. v \<noteq> key \<Longrightarrow> failed_of st' v = failed_of st v"
  shows "catalogs_ok app st'"
proof (rule catalogs_okI)
  note old = catalogs_okD [OF ok]
  show "distinct (map fst (pi_Pending (ps_pending st')))" using old(1) by (simp only: same(1) distinct_delete)
  show "distinct (map fst (fi_Failed (ps_failed st')))" by (rule same(4))
  show "TrimSpace (pi_App (ps_pending st')) = TrimSpace app" "TrimSpace (fi_App (ps_failed st')) = TrimSpace app"
    using old(3,4) by (simp_all only: same)
  fix v e
  assume "pending_of st' v = Some e"
  then have "v \<noteq> key" and "pending_of st v = Some e" unfolding same(1) delete_conv' by (simp_all split: if_splits)
  then show "v = TrimSpace (pe_Version e) \<and> failed_of st' v = None" using old(5,6) failed by metis
qed

lemma pending_clear_ok:
  assumes ok: "catalogs_ok app st"
  shows "catalogs_ok app (pending_clear version st)"
proof (cases "pending_of st (TrimSpace version)")
  case None
  then show ?thesis using ok by (simp add: pending_clear_def RemovePendingVersion_some)
next
  case (Some e)
  show ?thesis
    by (rule delete_pending_ok [OF ok, of _ "TrimSpace version"])
      (simp_all add: pending_clear_def RemovePendingVersion_some Some catalogs_okD(2) [OF ok])
qed

lemma pending_fail_record:
  assumes "pending_of st (TrimSpace version) = Some e" and "failed_of st (TrimSpace (pe_Version e)) = None"
  shows "pending_fail app version now st =
    st\<lparr>ps_pending := (ps_pending st)\<lparr>pi_Pending := AList.delete (TrimSpace version) (pi_Pending (ps_pending st))\<rparr>,
       ps_pendingChanged := True,
       ps_failed := (ps_failed st)\<lparr>fi_Failed := AList.update (TrimSpace (pe_Version e))
         (failedVersionFromPending e now FailedReasonWorkflowFailed) (fi_Failed (ps_failed st))\<rparr>,
       ps_failedChanged := True\<rparr>"
  using assms by (simp add: pending_fail_def RemovePendingVersion_some RecordFailedVersion_def Let_def)

lemma pending_fail_ok:
  assumes ok: "catalogs_ok app st"
  shows "catalogs_ok app (pending_fail app version now st)"
proof (cases "pending_of st (TrimSpace version)")
  case None
  then show ?thesis using ok by (simp add: pending_fail_def RemovePendingVersion_some)
next
  case (Some e)
  have key: "TrimSpace (pe_Version e) = TrimSpace version" and f: "failed_of st (TrimSpace version) = None"
    using catalogs_okD(5,6) [OF ok Some] by simp_all
  show ?thesis
    by (rule delete_pending_ok [OF ok, of _ "TrimSpace version"])
      (simp_all add: pending_fail_record [OF Some] key f update_conv' distinct_update catalogs_okD(2) [OF ok])
qed

lemma run_command_ok: "catalogs_ok app st \<Longrightarrow> catalogs_ok app (run_command ul app c st)"
  by (cases c) (simp_all add: pending_set_ok pending_clear_ok pending_fail_ok)

subsection \<open>Loading and storing without a fault\<close>

lemma load_ready:
  assumes "\<And>k. sg_fault sg k = None" and "sg_others sg n = id" "sg_others sg (Suc n) = id" "sg_others sg (Suc (Suc n)) = id"
    and "ob_data (co_pending objs) = Some (Inr p)" "ob_data (co_failed objs) = Some (Inr f)"
    and "ob_data (co_index objs) = Some (Inr idx)"
  shows "loadAppRegistryPendingCatalog sg app (objs, n) =
    (Inr (\<lparr>ps_pending = p, ps_failed = f, ps_published = Some idx, ps_pendingChanged = False, ps_failedChanged = False\<rparr>,
       ob_generation (co_pending objs), ob_generation (co_failed objs)), (objs, Suc (Suc (Suc n))))"
  using assms by (simp add: loadAppRegistryPendingCatalog_def download_ready catalog_of_def)

lemma pending_fail_absent:
  "pending_of st (TrimSpace version) = None \<Longrightarrow> pending_fail app version now st = st"
  by (simp add: pending_fail_def RemovePendingVersion_some)

subsection \<open>Properties\<close>

text \<open>
  C12. Setting a version pending accounts for every version. The version itself is pending afterwards,
  keeping its start time unless that is stale, and is no longer failed; if it is published already
  it is neither. Every other pending version that is not published is kept as it is, or, when it
  has been pending for more than 30 minutes, is recorded as failed with the reason stale.
\<close>

theorem pending_set_accounts:
  assumes "catalogs_ok app st" and "st' = pending_set ul app version now st" and "key = TrimSpace (pe_Version version)"
  shows "pending_of st' key =
      (if is_published app st key then None else Some (set_entry ul version now (pending_of st key))) \<and>
    failed_of st' key = None \<and>
    (\<forall>v e. v \<noteq> key \<and> pending_of st v = Some e \<and> \<not> is_published app st v \<longrightarrow>
      (if PendingStaleAfter < now - pe_StartedAt e
       then pending_of st' v = None \<and> failed_of st' v = Some (failedVersionFromPending e now FailedReasonStale)
       else pending_of st' v = Some e \<and> failed_of st' v = None))"
  using assms by (simp add: pending_set_pending pending_set_failed pending_stale_def)

lemma sample_trim: "TrimSpace ''1'' = ''1''" "TrimSpace ''2'' = ''2''" "TrimSpace ''mail'' = ''mail''"
  by code_simp+

definition sample_entry :: "string \<Rightarrow> time \<Rightarrow> unit PendingVersion" where
  "sample_entry version started =
     \<lparr>pe_Version = version, pe_SourceRef = ''ab'', pe_Repository = [], pe_StartedAt = started, pe_UpdatedAt = started,
      pe_Phase = PendingPhasePublishing, pe_Publication = None\<rparr>"

definition sample_pending :: "unit PendingIndex" where
  "sample_pending = \<lparr>pi_SchemaVersion = 1, pi_App = ''mail'',
     pi_Pending = [(''1'', sample_entry ''1'' 1), (''2'', sample_entry ''2'' 1)]\<rparr>"

definition sample_failed :: "unit FailedIndex" where
  "sample_failed = \<lparr>fi_SchemaVersion = 1, fi_App = ''mail'', fi_Failed = []\<rparr>"

definition sample_catalogs :: "(unit, unit) pending_state" where
  "sample_catalogs = \<lparr>ps_pending = sample_pending, ps_failed = sample_failed, ps_published = Some [],
     ps_pendingChanged = False, ps_failedChanged = False\<rparr>"

lemma sample_catalogs_ok: "catalogs_ok ''mail'' sample_catalogs"
  by (simp add: catalogs_ok_def sample_catalogs_def sample_pending_def sample_failed_def sample_entry_def sample_trim)

theorem pending_set_accounts_witness:
  "failed_of (pending_set id ''mail'' (sample_entry ''1'' 0) (PendingStaleAfter + 2) sample_catalogs) ''2'' =
     Some (failedVersionFromPending (sample_entry ''2'' 1) (PendingStaleAfter + 2) FailedReasonStale)"
proof -
  have "pending_of sample_catalogs ''2'' = Some (sample_entry ''2'' 1)"
    "\<not> is_published ''mail'' sample_catalogs ''2''" "''2'' \<noteq> TrimSpace (pe_Version (sample_entry ''1'' 0))"
    by (simp_all add: sample_catalogs_def sample_pending_def sample_entry_def IndexContainsVersion_def sample_trim)
  moreover have "PendingStaleAfter < PendingStaleAfter + 2 - pe_StartedAt (sample_entry ''2'' 1)"
    by (simp add: sample_entry_def)
  ultimately show ?thesis
    using pending_set_accounts [OF sample_catalogs_ok refl refl, where ul = id and version = "sample_entry ''1'' 0"
        and now = "PendingStaleAfter + 2"] by metis
qed



text \<open>
  Recording a failed publication without a concurrent writer succeeds at the first attempt: the
  version leaves the pending catalog and is stored as failed with its start time.
\<close>

theorem failed_publication_recorded:
  assumes "\<And>k. sg_fault sg k = None" and "\<And>k. sg_others sg k = id"
    and "ob_data (co_pending objs) = Some (Inr p)" "ob_data (co_failed objs) = Some (Inr f)"
    and "ob_data (co_index objs) = Some (Inr idx)"
    and "map_of (pi_Pending p) (TrimSpace version) = Some e" "map_of (fi_Failed f) (TrimSpace (pe_Version e)) = None"
  shows "mutateAppRegistryPendingCatalog sg app (pending_fail app version now) (objs, n) =
    (Inr (), (objs\<lparr>
       co_pending := \<lparr>ob_generation = sg_generation sg (Suc (Suc (Suc n))),
         ob_data = Some (Inr (p\<lparr>pi_Pending := AList.delete (TrimSpace version) (pi_Pending p)\<rparr>))\<rparr>,
       co_failed := \<lparr>ob_generation = sg_generation sg (Suc (Suc (Suc (Suc n)))),
         ob_data = Some (Inr (f\<lparr>fi_Failed := AList.update (TrimSpace (pe_Version e))
           (failedVersionFromPending e now FailedReasonWorkflowFailed) (fi_Failed f)\<rparr>))\<rparr>\<rparr>,
     Suc (Suc (Suc (Suc (Suc n))))))"
  using assms
  by (simp add: mutateAppRegistryPendingCatalog_def appRegistryCatalogUpdateAttempts_def eval_nat_numeral load_ready
      pending_fail_record upload_if_def uploadAppRegistryCatalogDocument_def upload_ready put_pending_def put_failed_def)

definition sample_objects :: "(unit, unit) catalog_objects" where
  "sample_objects =
     \<lparr>co_pending = \<lparr>ob_generation = 1, ob_data = Some (Inr sample_pending)\<rparr>,
      co_failed = \<lparr>ob_generation = 1, ob_data = Some (Inr sample_failed)\<rparr>,
      co_index = \<lparr>ob_generation = 1, ob_data = Some (Inr [])\<rparr>\<rparr>"

definition sample_storage ::
  "(nat \<Rightarrow> (unit, unit) catalog_objects \<Rightarrow> (unit, unit) catalog_objects) \<Rightarrow> (unit, unit) catalog_objects storage" where
  "sample_storage others =
     \<lparr>sg_others = others, sg_fault = (\<lambda>_. None), sg_conflict = Errorf ''conflict'', sg_generation = (\<lambda>n. int n + 10)\<rparr>"

theorem failed_publication_recorded_witness:
  "fst (mutateAppRegistryPendingCatalog (sample_storage (\<lambda>_. id)) ''mail'' (pending_fail ''mail'' ''1'' 9) (sample_objects, 0)) =
     Inr ()"
  using failed_publication_recorded [of "sample_storage (\<lambda>_. id)" sample_objects sample_pending sample_failed "[]" "''1''"
      "sample_entry ''1'' 1" "''mail''" 9 0]
  by (simp add: sample_storage_def sample_objects_def sample_pending_def sample_failed_def sample_entry_def sample_trim)

text \<open>
  C39. The record of a failed publication is lost when another writer changes the failed catalog
  between its download and its upload. The pending catalog has been stored by then, so the retry
  finds no pending version and reports success, and the failed catalog is what the other writer left.
\<close>

theorem failed_conflict_loses_record:
  assumes "\<And>k. sg_fault sg k = None" and "\<And>k. k \<noteq> Suc (Suc (Suc (Suc n))) \<Longrightarrow> sg_others sg k = id"
    and "\<And>o'. sg_others sg (Suc (Suc (Suc (Suc n)))) o' = o'\<lparr>co_failed := \<lparr>ob_generation = g, ob_data = Some (Inr f')\<rparr>\<rparr>"
    and "g \<noteq> ob_generation (co_failed objs)"
    and "ob_data (co_pending objs) = Some (Inr p)" "ob_data (co_failed objs) = Some (Inr f)"
    and "ob_data (co_index objs) = Some (Inr idx)"
    and "map_of (pi_Pending p) (TrimSpace version) = Some e" "map_of (fi_Failed f) (TrimSpace (pe_Version e)) = None"
  shows "\<exists>objs' m. mutateAppRegistryPendingCatalog sg app (pending_fail app version now) (objs, n) = (Inr (), (objs', m)) \<and>
    ob_data (co_pending objs') = Some (Inr (p\<lparr>pi_Pending := AList.delete (TrimSpace version) (pi_Pending p)\<rparr>)) \<and>
    ob_data (co_failed objs') = Some (Inr f')"
  using assms
  by (simp add: mutateAppRegistryPendingCatalog_def appRegistryCatalogUpdateAttempts_def eval_nat_numeral load_ready
      pending_fail_record pending_fail_absent upload_if_def uploadAppRegistryCatalogDocument_def upload_ready upload_conflict
      put_pending_def delete_conv')

definition concurrent_writer :: "nat \<Rightarrow> (unit, unit) catalog_objects \<Rightarrow> (unit, unit) catalog_objects" where
  "concurrent_writer k =
     (if k = 4 then (\<lambda>objs. objs\<lparr>co_failed := \<lparr>ob_generation = 2, ob_data = Some (Inr sample_failed)\<rparr>\<rparr>) else id)"

theorem failed_conflict_loses_record_witness:
  "\<exists>objs' m. mutateAppRegistryPendingCatalog (sample_storage concurrent_writer) ''mail'' (pending_fail ''mail'' ''1'' 9)
     (sample_objects, 0) = (Inr (), (objs', m)) \<and> ob_data (co_failed objs') = Some (Inr sample_failed)"
  using failed_conflict_loses_record [of "sample_storage concurrent_writer" 0 2 sample_failed sample_objects sample_pending
      sample_failed "[]" "''1''" "sample_entry ''1'' 1" "''mail''" 9]
  by (auto simp: sample_storage_def sample_objects_def sample_pending_def sample_failed_def sample_entry_def
      sample_trim concurrent_writer_def eval_nat_numeral)

end
