(* ===== verification/Admission.thy ===== *)
theory Admission
  imports Retention Control_Plane
begin

text \<open>
  Admission of a version: \<^verbatim>\<open>internal/appregistry/installer.go\<close> with \<^verbatim>\<open>from_version.go\<close>. It claims the install
  lock, checks the change requests, the rollout and the source version, asks the registry for the
  retention catalog and the entry, creates the rollout, appends the change request, and releases the
  lock.

  What is not part of the database comes in as an argument: the answers of the registry, the
  validation of the candidate, the retention catalog (a state of type \<open>'k\<close> with its conditional
  update), the encoding of metadata and the fresh identifiers. \<open>now k\<close> is the \<open>k\<close>-th reading of the
  clock. The deadline of the context is not modelled; a call that it cancels is one that fails.
\<close>

subsection \<open>Data\<close>

datatype installMode =
  installModeLegacy | installModeAdd | installModeUpgrade | installModeSelect | installModeRetry

definition DefaultCatalogPollInterval :: duration where "DefaultCatalogPollInterval = Minute"
definition DefaultRolloutEnrollmentWindow :: duration where
  "DefaultRolloutEnrollmentWindow = 2 * DefaultCatalogPollInterval"
definition DefaultRolloutTimeout :: duration where "DefaultRolloutTimeout = 15 * Minute"
definition installWorkTimeoutBuffer :: duration where "installWorkTimeoutBuffer = 30 * Second"

definition installWorkTimeout :: "duration \<Rightarrow> duration" where
  "installWorkTimeout lockTTL0 =
     (let lockTTL = (if lockTTL0 \<le> 0 then DefaultAppVersionInstallLockTTL else lockTTL0)
      in if lockTTL \<le> installWorkTimeoutBuffer then lockTTL else lockTTL - installWorkTimeoutBuffer)"

lemma installWorkTimeout_within_lock:
  "0 < installWorkTimeout ttl \<and> installWorkTimeout ttl \<le> (if ttl \<le> 0 then DefaultAppVersionInstallLockTTL else ttl)"
  by (simp add: installWorkTimeout_def installWorkTimeoutBuffer_def DefaultAppVersionInstallLockTTL_def Let_def
      Second_def Minute_def)

definition ErrAppRolloutRetryNotAllowed :: error where
  "ErrAppRolloutRetryNotAllowed = Sentinel ''app rollout retry is not allowed''"
definition ErrAppAlreadyAdded :: error where
  "ErrAppAlreadyAdded = Sentinel ''app already has fleet-known versions''"
definition ErrAppNotAdded :: error where
  "ErrAppNotAdded = Sentinel ''app has no fleet-known versions''"
definition ErrRegistrySourceMismatch :: error where
  "ErrRegistrySourceMismatch = Sentinel ''app registry does not match configured source''"
definition ErrAppRegistryNotConfigured :: error where
  "ErrAppRegistryNotConfigured = Sentinel ''app registry is not configured''"

text \<open>The fields of a configured app that admission reads.\<close>

record ProviderEntry =
  ce_Registry :: string
  ce_RegistryApp :: string
  ce_PackageVersion :: string
  ce_ManifestVersion :: "string option"

definition IsRegistry :: "ProviderEntry \<Rightarrow> bool" where
  "IsRegistry e \<longleftrightarrow> TrimSpace (ce_Registry e) \<noteq> ''''"

definition RegistryAppName :: "ProviderEntry \<Rightarrow> string \<Rightarrow> string" where
  "RegistryAppName e runtimeApp =
     (if TrimSpace (ce_RegistryApp e) \<noteq> '''' then TrimSpace (ce_RegistryApp e) else TrimSpace runtimeApp)"

definition configPinnedAppVersion :: "ProviderEntry option \<Rightarrow> string" where
  "configPinnedAppVersion entry =
     (case entry of
        None \<Rightarrow> ''''
      | Some e \<Rightarrow>
          if ce_PackageVersion e \<noteq> '''' then ce_PackageVersion e
          else (case ce_ManifestVersion e of None \<Rightarrow> '''' | Some v \<Rightarrow> TrimSpace v))"

definition resolveFromVersion :: "AppInstallation list \<Rightarrow> ProviderEntry option \<Rightarrow> string" where
  "resolveFromVersion known configEntry =
     (if LatestKnownVersion known \<noteq> '''' then LatestKnownVersion known else configPinnedAppVersion configEntry)"

record AppRegistryConfig =
  rg_RetentionPolicy :: "RetentionPolicy result"
  rg_PublicURL :: "string result"

record registry_entry =
  en_Repository :: string
  en_SourceRef :: string
  en_PublicRoot :: string
  en_Artifacts :: "(string \<times> string) list"

definition artifactChecksumsFromEntry :: "registry_entry \<Rightarrow> (string \<times> string) list" where
  "artifactChecksumsFromEntry entry = map (\<lambda>(platform, sha). (platform, TrimSpace sha)) (en_Artifacts entry)"

record Installer =
  il_Registries :: "(string \<times> AppRegistryConfig) list"
  il_ConfigApps :: "(string \<times> ProviderEntry) list"
  il_ChangeRequests :: bool
  il_Locks :: bool
  il_SourceVersions :: bool
  il_Rollouts :: bool
  il_SourceVersion :: string
  il_RolloutMode :: AppRolloutMode

record 'k install_env =
  ie_validName :: "string \<Rightarrow> unit result"
  ie_fetchRetention :: "string \<Rightarrow> string \<Rightarrow> RetentionIndex option result"
  ie_fetchEntry :: "string \<Rightarrow> string \<Rightarrow> string \<Rightarrow> registry_entry result"
  ie_validate :: "string \<Rightarrow> string \<Rightarrow> string \<Rightarrow> registry_entry \<Rightarrow> db \<Rightarrow> unit result \<times> db"
  ie_entryURL :: "string \<Rightarrow> string \<Rightarrow> string \<Rightarrow> string"
  ie_mutateRetention :: "string \<Rightarrow> string \<Rightarrow> (RetentionIndex option \<Rightarrow> RetentionIndex option \<times> bool) \<Rightarrow> 'k \<Rightarrow> 'k"
  ie_unmarshal :: "string \<Rightarrow> (string \<times> val) list option"
  ie_requestID :: string
  ie_lockHolder :: string

record InstallOutput =
  io_Installation :: AppInstallation
  io_FromVersion :: string
  io_Rollout :: AppRollout
  io_Retried :: bool

subsection \<open>Admission\<close>

text \<open>The version the change starts from, by mode.\<close>

definition install_from :: "installMode \<Rightarrow> AppInstallation list \<Rightarrow> ProviderEntry option \<Rightarrow> string result" where
  "install_from mode known configEntry =
     (let currentDesired = LatestKnownVersion known
      in case mode of
           installModeAdd \<Rightarrow> if known \<noteq> [] then Inl ErrAppAlreadyAdded else Inr ''registry:first-install''
         | installModeUpgrade \<Rightarrow> if known = [] then Inl ErrAppNotAdded else Inr currentDesired
         | installModeSelect \<Rightarrow> Inr (if currentDesired = '''' then ''registry:first-install'' else currentDesired)
         | _ \<Rightarrow>
             if resolveFromVersion known configEntry = ''''
             then Inl (Errorf ''resolve from_version: no known fleet version and app is not pinned in config'')
             else Inr (resolveFromVersion known configEntry))"

definition install_config :: "'k install_env \<Rightarrow> string \<Rightarrow> string \<Rightarrow> installMode \<Rightarrow> ProviderEntry option \<Rightarrow> string result" where
  "install_config env registryName appName mode configEntry =
     (if mode \<noteq> installModeLegacy \<and> (case configEntry of None \<Rightarrow> True | Some e \<Rightarrow> \<not> IsRegistry e)
      then Inl (Wrapf ''%w: app %q is not registry-managed in deploy config'' ErrRegistrySourceMismatch)
      else if (case configEntry of None \<Rightarrow> False | Some e \<Rightarrow> IsRegistry e \<and> TrimSpace (ce_Registry e) \<noteq> registryName)
      then Inl ErrRegistrySourceMismatch
      else
        (let registryApp = (case configEntry of None \<Rightarrow> appName | Some e \<Rightarrow> RegistryAppName e appName)
         in case ie_validName env registryApp of
              Inl err \<Rightarrow> Inl (Wrapf ''invalid registry app name'' err)
            | Inr _ \<Rightarrow> Inr registryApp))"

definition check_known :: "installMode \<Rightarrow> string \<Rightarrow> string \<Rightarrow> db \<Rightarrow> unit result \<times> db" where
  "check_known mode appName version d =
     (if mode = installModeSelect \<or> mode = installModeRetry then (Inr (), d)
      else
        (case AppVersionChangeRequestService_HasKnownVersion appName version d of
           (Inl err, d) \<Rightarrow> (Inl (Wrapf ''check known app version'' err), d)
         | (Inr alreadyKnown, d) \<Rightarrow> (if alreadyKnown then Inl ErrAppVersionAlreadyInstalled else Inr (), d)))"

definition current_rollout :: "string \<Rightarrow> db \<Rightarrow> AppRollout option result \<times> db" where
  "current_rollout appName d =
     (case AppRolloutService_Get True appName d of
        (Inr current, d) \<Rightarrow>
          (if ro_State current = AppRolloutStateEnrolling \<or> ro_State current = AppRolloutStateRestarting
           then Inl registry_ErrAppRolloutActive else Inr (Some current), d)
      | (Inl err, d) \<Rightarrow>
          (if errors_is err ErrNotFound then Inr None else Inl (Wrapf ''check active app rollout'' err), d))"

definition failed_current :: "AppRollout option \<Rightarrow> string \<Rightarrow> bool" where
  "failed_current currentRollout version =
     (case currentRollout of
        None \<Rightarrow> False
      | Some r \<Rightarrow> ro_State r = AppRolloutStateFailed \<and> TrimSpace (ro_Version r) = version)"

text \<open>Selecting the failed desired version again is a retry.\<close>

definition retry_mode :: "installMode \<Rightarrow> string \<Rightarrow> AppRollout option \<Rightarrow> string \<Rightarrow> (installMode \<times> bool) result" where
  "retry_mode mode currentDesired currentRollout version =
     (if mode = installModeSelect \<and> currentDesired = version \<and> \<not> failed_current currentRollout version
      then Inl ErrAppVersionAlreadyInstalled
      else
        (let mode' = (if mode = installModeSelect \<and> currentDesired = version then installModeRetry else mode)
         in if mode' = installModeRetry \<and> \<not> (failed_current currentRollout version \<and> currentDesired = version)
            then Inl (Wrapf ''%w: version %q is not the failed current desired rollout'' ErrAppRolloutRetryNotAllowed)
            else Inr (mode', mode' = installModeRetry)))"

definition check_source :: "Installer \<Rightarrow> db \<Rightarrow> unit result \<times> db" where
  "check_source i d =
     (if TrimSpace (il_SourceVersion i) = '''' then (Inr (), d)
      else if \<not> il_SourceVersions i then (Inl (Errorf ''gestaltd source version service is not configured''), d)
      else
        (case GestaltdSourceVersionService_CurrentForAdmission True d of
           (Inl err, d) \<Rightarrow> (Inl (Wrapf ''resolve app rollout target source version'' err), d)
         | (Inr _, d) \<Rightarrow> (Inr (), d)))"

definition selectable :: "installMode \<Rightarrow> string \<Rightarrow> string \<Rightarrow> RetentionIndex option \<Rightarrow> RetentionPolicy \<Rightarrow> time \<Rightarrow> unit result" where
  "selectable mode version currentDesired retentionIndex policy now =
     (case mode of
        installModeRetry \<Rightarrow> RetryVersionSelectable version retentionIndex policy now
      | installModeLegacy \<Rightarrow> Inr ()
      | _ \<Rightarrow> VersionSelectable version currentDesired retentionIndex policy now)"

definition install_candidate ::
  "Installer \<Rightarrow> 'k install_env \<Rightarrow> time \<Rightarrow> installMode \<Rightarrow> string \<Rightarrow> string \<Rightarrow> string \<Rightarrow> string \<Rightarrow> string \<Rightarrow> db \<Rightarrow>
    (RetentionPolicy \<times> registry_entry) result \<times> db" where
  "install_candidate i env now mode registryName registryApp appName version currentDesired d =
     (case map_of (il_Registries i) registryName of
        None \<Rightarrow> (Inl (Wrapf ''%w: %q'' ErrAppRegistryNotConfigured), d)
      | Some registryConfig \<Rightarrow>
          (case rg_RetentionPolicy registryConfig of
             Inl err \<Rightarrow> (Inl err, d)
           | Inr policy \<Rightarrow>
               (case rg_PublicURL registryConfig of
                  Inl err \<Rightarrow> (Inl (Wrapf ''resolve registry public URL'' err), d)
                | Inr publicRoot \<Rightarrow>
                    (case ie_fetchRetention env publicRoot registryApp of
                       Inl err \<Rightarrow> (Inl (Wrapf ''fetch retention index'' err), d)
                     | Inr retentionIndex \<Rightarrow>
                         (case selectable mode version currentDesired retentionIndex policy now of
                            Inl err \<Rightarrow> (Inl err, d)
                          | Inr _ \<Rightarrow>
                              if mode = installModeRetry \<and> currentDesired \<noteq> version
                              then (Inl (Errorf ''retry version %q is not the current desired version''), d)
                              else
                                (case ie_fetchEntry env registryName registryApp version of
                                   Inl err \<Rightarrow> (Inl err, d)
                                 | Inr entry \<Rightarrow>
                                     (case ie_validate env registryName appName version entry d of
                                        (Inl err, d) \<Rightarrow> (Inl err, d)
                                      | (Inr _, d) \<Rightarrow> (Inr (policy, entry), d))))))))"

definition pending_rollout_for :: "Installer \<Rightarrow> string \<Rightarrow> string \<Rightarrow> time \<Rightarrow> AppRollout" where
  "pending_rollout_for i appName version requestedAt =
     (let rolloutMode = (if il_RolloutMode i = OtherMode '''' then AppRolloutModeEnrollment else il_RolloutMode i)
      in \<lparr>ro_App = appName, ro_Version = version,
          ro_State = (if rolloutMode = AppRolloutModeHeartbeat then AppRolloutStateRestarting else AppRolloutStateEnrolling),
          ro_Mode = rolloutMode, ro_TargetSourceVersion = '''', ro_MinimumHealthyInstances = 0,
          ro_CreatedAt = requestedAt, ro_EnrollmentEndsAt = requestedAt + DefaultRolloutEnrollmentWindow,
          ro_Deadline = requestedAt + DefaultRolloutTimeout, ro_HealthySince = 0, ro_HeartbeatEvaluatedAt = 0,
          ro_CompletedAt = 0, ro_FailedAt = 0, ro_FailureSummary = None\<rparr>)"

definition create_rollout :: "Installer \<Rightarrow> time \<Rightarrow> AppRollout \<Rightarrow> db \<Rightarrow> AppRollout result \<times> db" where
  "create_rollout i now pendingRollout d =
     (if TrimSpace (il_SourceVersion i) \<noteq> ''''
      then GestaltdSourceVersionService_CreateAppRollout (il_SourceVersions i) now (Some pendingRollout) d
      else AppRolloutService_Create True now (Some pendingRollout) d)"

definition install_known ::
  "'k install_env \<Rightarrow> string \<Rightarrow> string \<Rightarrow> string \<Rightarrow> string \<Rightarrow> string \<Rightarrow> registry_entry \<Rightarrow> time \<Rightarrow> AppInstallation" where
  "install_known env registryName registryApp appName version actor entry requestedAt =
     \<lparr>in_AppName = appName, in_Version = version, in_SourceRepository = en_Repository entry,
      in_SourceRef = en_SourceRef entry, in_Registry = registryName,
      in_ProviderReleaseURL = ie_entryURL env (en_PublicRoot entry) registryApp version,
      in_ArtifactChecksums = artifactChecksumsFromEntry entry, in_InstalledBy = actor,
      in_InstalledAt = requestedAt, in_UpdatedAt = requestedAt\<rparr>"

definition from_deadline :: "string \<Rightarrow> RetentionPolicy \<Rightarrow> time \<Rightarrow> time option" where
  "from_deadline fromVersion policy requestedAt =
     (if fromVersion \<noteq> [] \<and> fromVersion \<noteq> FirstInstallFromVersion
      then Some (requestedAt + po_DeployedRetention policy) else None)"

definition install_request ::
  "'k install_env \<Rightarrow> string \<Rightarrow> string \<Rightarrow> string \<Rightarrow> string \<Rightarrow> string \<Rightarrow> string \<Rightarrow> RetentionPolicy \<Rightarrow> registry_entry \<Rightarrow> time \<Rightarrow>
    AppVersionChangeRequest" where
  "install_request env registryName registryApp appName version actor fromVersion policy entry requestedAt =
     \<lparr>cr_ID = [], cr_App = appName, cr_FromVersion = fromVersion, cr_ToVersion = version, cr_Actor = actor,
      cr_Timestamp = requestedAt,
      cr_FromVersionDeployableUntil = from_deadline fromVersion policy requestedAt,
      cr_Metadata =
        ChangeRequestMetadata (Some (install_known env registryName registryApp appName version actor entry requestedAt))\<rparr>"

definition mirrorRetentionTransition ::
  "'k install_env \<Rightarrow> string \<Rightarrow> string \<Rightarrow> string \<Rightarrow> string \<Rightarrow> RetentionPolicy \<Rightarrow> time \<Rightarrow> 'k \<Rightarrow> 'k" where
  "mirrorRetentionTransition env registryName registryApp fromVersion toVersion policy now k =
     ie_mutateRetention env registryName registryApp
       (\<lambda>idx. ApplyDesiredVersionTransition idx fromVersion toVersion policy now) k"

definition install_commit ::
  "Installer \<Rightarrow> 'k install_env \<Rightarrow> (nat \<Rightarrow> time) \<Rightarrow> string \<Rightarrow> string \<Rightarrow> string \<Rightarrow> string \<Rightarrow> string \<Rightarrow> string \<Rightarrow> bool \<Rightarrow>
    RetentionPolicy \<Rightarrow> registry_entry \<Rightarrow> db \<Rightarrow> 'k \<Rightarrow> InstallOutput result \<times> db \<times> 'k" where
  "install_commit i env now registryName registryApp appName version actor fromVersion retried policy entry d k =
     (let requestedAt = truncate_ms (now 2)
      in case create_rollout i (now 3) (pending_rollout_for i appName version requestedAt) d of
           (Inl err, d) \<Rightarrow>
             (Inl (if errors_is err ErrAppRolloutActive then registry_ErrAppRolloutActive
                else Wrapf ''create app rollout'' err), d, k)
         | (Inr rollout, d) \<Rightarrow>
             (case AppVersionChangeRequestService_AppendRequest (ie_unmarshal env) (ie_requestID env) (now 4)
                 (Some (install_request env registryName registryApp appName version actor fromVersion policy entry
                   requestedAt)) d of
                (Inl err, d) \<Rightarrow>
                  (Inl (Wrapf ''append change request'' err),
                   snd (AppRolloutService_MarkFailed True (now 6) appName version (truncate_ms (now 5)) d), k)
              | (Inr addedRequest, d) \<Rightarrow>
                  (Inr \<lparr>io_Installation = installationFromChangeRequest addedRequest, io_FromVersion = fromVersion,
                     io_Rollout = rollout, io_Retried = retried\<rparr>, d,
                   mirrorRetentionTransition env registryName registryApp fromVersion version policy requestedAt k)))"

text \<open>
  What happens between the claim of the lock and its release. The database before the rollout is
  created is only read.
\<close>

definition install_checks ::
  "Installer \<Rightarrow> 'k install_env \<Rightarrow> (nat \<Rightarrow> time) \<Rightarrow> installMode \<Rightarrow> string \<Rightarrow> string \<Rightarrow> string \<Rightarrow> db \<Rightarrow>
    (string \<times> string \<times> bool \<times> RetentionPolicy \<times> registry_entry) result \<times> db" where
  "install_checks i env now mode registryName appName version d =
     (if \<not> il_ChangeRequests i then (Inl (Errorf ''app version change request service is not configured''), d)
      else if \<not> il_Rollouts i then (Inl (Errorf ''app rollout service is not configured''), d)
      else
        (case AppVersionChangeRequestService_ListKnownVersionsByApp (ie_unmarshal env) True appName d of
           (Inl err, d) \<Rightarrow> (Inl (Wrapf ''list known app versions'' err), d)
         | (Inr knownVersions, d) \<Rightarrow>
             (let configEntry = map_of (il_ConfigApps i) appName;
                  currentDesired = LatestKnownVersion knownVersions
              in case install_config env registryName appName mode configEntry of
                   Inl err \<Rightarrow> (Inl err, d)
                 | Inr registryApp \<Rightarrow>
                     (case install_from mode knownVersions configEntry of
                        Inl err \<Rightarrow> (Inl err, d)
                      | Inr fromVersion \<Rightarrow>
                          (case check_known mode appName version d of
                             (Inl err, d) \<Rightarrow> (Inl err, d)
                           | (Inr _, d) \<Rightarrow>
                               (case current_rollout appName d of
                                  (Inl err, d) \<Rightarrow> (Inl err, d)
                                | (Inr currentRollout, d) \<Rightarrow>
                                    (case retry_mode mode currentDesired currentRollout version of
                                       Inl err \<Rightarrow> (Inl err, d)
                                     | Inr (mode, retried) \<Rightarrow>
                                         (case check_source i d of
                                            (Inl err, d) \<Rightarrow> (Inl err, d)
                                          | (Inr _, d) \<Rightarrow>
                                              (case install_candidate i env (truncate_ms (now 1)) mode registryName
                                                  registryApp appName version currentDesired d of
                                                 (Inl err, d) \<Rightarrow> (Inl err, d)
                                               | (Inr (policy, entry), d) \<Rightarrow>
                                                   (Inr (registryApp, fromVersion, retried, policy, entry), d))))))))))"

definition install_locked ::
  "Installer \<Rightarrow> 'k install_env \<Rightarrow> (nat \<Rightarrow> time) \<Rightarrow> installMode \<Rightarrow> string \<Rightarrow> string \<Rightarrow> string \<Rightarrow> string \<Rightarrow> db \<Rightarrow> 'k \<Rightarrow>
    InstallOutput result \<times> db \<times> 'k" where
  "install_locked i env now mode registryName appName version actor d k =
     (case install_checks i env now mode registryName appName version d of
        (Inl err, d) \<Rightarrow> (Inl err, d, k)
      | (Inr (registryApp, fromVersion, retried, policy, entry), d) \<Rightarrow>
          install_commit i env now registryName registryApp appName version actor fromVersion retried policy entry d k)"

definition Installer_install ::
  "bool \<Rightarrow> Installer \<Rightarrow> 'k install_env \<Rightarrow> (nat \<Rightarrow> time) \<Rightarrow> InstallInput \<Rightarrow> installMode \<Rightarrow> db \<Rightarrow> 'k \<Rightarrow>
    InstallOutput result \<times> db \<times> 'k" where
  "Installer_install s i env now input mode d k =
     (let registryName = TrimSpace (ii_Registry input); appName = TrimSpace (ii_App input);
          version = TrimSpace (ii_Version input); actor = TrimSpace (ii_Actor input)
      in if \<not> s then (Inl (Errorf ''app registry installer is not configured''), d, k)
         else if registryName = '''' then (Inl (Errorf ''registry is required''), d, k)
         else if appName = '''' then (Inl (Errorf ''app is required''), d, k)
         else if version = '''' then (Inl (Errorf ''version is required''), d, k)
         else if \<not> il_Locks i then install_locked i env now mode registryName appName version actor d k
         else
           (case AppVersionInstallLockService_Acquire True (now 0) appName version (ie_lockHolder env)
               DefaultAppVersionInstallLockTTL d of
              (Inl err, d) \<Rightarrow>
                (Inl (if errors_is err ErrAppVersionInstallLockHeld then ErrInstallVersionLocked
                   else Wrapf ''claim app version install lock'' err), d, k)
            | (Inr _, d) \<Rightarrow>
                (case install_locked i env now mode registryName appName version actor d k of
                   (out, d, k) \<Rightarrow>
                     (out, snd (AppVersionInstallLockService_Release True appName version (ie_lockHolder env) d), k))))"

definition Installer_Install where "Installer_Install s i env now input = Installer_install s i env now input installModeLegacy"
definition Installer_Add where "Installer_Add s i env now input = Installer_install s i env now input installModeAdd"
definition Installer_Upgrade where "Installer_Upgrade s i env now input = Installer_install s i env now input installModeUpgrade"
definition Installer_Select where "Installer_Select s i env now input = Installer_install s i env now input installModeSelect"

subsection \<open>What the checks read\<close>

text \<open>The validation of a candidate only reads the database.\<close>

definition validate_reads :: "'k install_env \<Rightarrow> bool" where
  "validate_reads env \<longleftrightarrow>
     (\<forall>registryName appName version entry d. db_rows (snd (ie_validate env registryName appName version entry d)) = db_rows d)"

lemma check_known_rows: "check_known mode app v d = (x, d') \<Longrightarrow> db_rows d' = db_rows d"
  by (auto simp: check_known_def AppVersionChangeRequestService_HasKnownVersion_def Let_def
      dest: read_rows split: if_splits prod.splits sum.splits)

lemma current_rollout_rows: "current_rollout app d = (x, d') \<Longrightarrow> db_rows d' = db_rows d"
  by (auto simp: current_rollout_def AppRolloutService_Get_def dest: read_rows split: if_splits prod.splits sum.splits)

lemma check_source_rows: "check_source i d = (x, d') \<Longrightarrow> db_rows d' = db_rows d"
  by (auto simp: check_source_def GestaltdSourceVersionService_CurrentForAdmission_def GestaltdSourceVersionService_Get_def
      Let_def dest: read_rows split: if_splits prod.splits sum.splits)

lemma ListKnown_rows:
  "AppVersionChangeRequestService_ListKnownVersionsByApp unmarshal s app d = (x, d') \<Longrightarrow> db_rows d' = db_rows d"
  by (auto simp: AppVersionChangeRequestService_ListKnownVersionsByApp_def
      AppVersionChangeRequestService_ListRequestsByApp_def Let_def dest: read_rows split: if_splits prod.splits sum.splits)

lemma candidate_rows:
  "validate_reads env \<Longrightarrow> install_candidate i env t mode rn ra app v cd d = (x, d') \<Longrightarrow> db_rows d' = db_rows d"
  by (auto simp: install_candidate_def validate_reads_def split: if_splits prod.splits sum.splits option.splits)
    (metis snd_conv)+

lemma checks_rows:
  assumes "validate_reads env" and "install_checks i env now mode rn app v d = (x, d')"
  shows "db_rows d' = db_rows d"
  using assms(2) candidate_rows [OF assms(1)]
  by (auto simp: install_checks_def Let_def split: if_splits prod.splits sum.splits
      dest!: check_known_rows current_rollout_rows check_source_rows ListKnown_rows)

subsection \<open>What a change of the database can be\<close>

lemma create_rollout_effect:
  assumes "create_rollout i now r d = (Inr r', d')" and "rollouts_inv (db_rows d)"
    and "ascii (TrimSpace (ro_App r))" and "0 < ro_CreatedAt r"
  shows "create_done r' (db_rows d) (db_rows d') \<and> rollout_ok (TrimSpace (ro_App r)) r' \<and>
    ro_Version r' = TrimSpace (ro_Version r) \<and> ro_State r' = ro_State r \<and> ro_FailureSummary r' = ro_FailureSummary r"
proof (cases "TrimSpace (il_SourceVersion i) \<noteq> ''''")
  case True
  then have "create_app_done now r (db_rows d) r' (db_rows d')"
    using assms CreateAppRollout_Inr by (simp add: create_rollout_def)
  then show ?thesis by (auto simp: create_app_done_def pending_rollout_def normalizeAppRollout_def Let_def)
next
  case False
  then have run: "AppRolloutService_Create True now (Some r) d = (Inr r', d')" using assms(1) by (simp add: create_rollout_def)
  from Create_tx [OF run] have r': "r' = normalizeAppRollout now r" and v: "validateAppRollout (Some r) = Inr ()" by auto
  have "separates (db_rows d StoreAppRollouts) (ro_App r')"
    using assms(2,3) r' by (simp add: rollouts_inv_def ascii_keys_separates normalizeAppRollout_def)
  then have "create_done r' (db_rows d) (db_rows d')"
    using Create_effect [OF run] assms(2) by (simp add: rollouts_inv_def rollouts_ok_def)
  then show ?thesis using normalize_ok [OF v assms(4)] r' by (simp add: normalizeAppRollout_def)
qed

lemma create_rollout_Inl: "create_rollout i now r d = (Inl e, d') \<Longrightarrow> db_rows d' = db_rows d"
  by (auto simp: create_rollout_def dest: Create_Inl CreateAppRollout_Inl split: if_splits)

lemma rollouts_created:
  "rollout_ok k r \<Longrightarrow> ro_FailureSummary r = None \<Longrightarrow> rollouts (put_rollout r c) = (rollouts c)(k \<mapsto> r)"
  using rollouts_put [of k r c] by (cases r) (simp add: stored_summary_def)

lemma MarkFailed_created:
  assumes "AppRolloutService_MarkFailed True now app v at d = (x, d')" and "db_rows d = put_rollout r c"
    and "rollout_ok (TrimSpace app) r" "ro_FailureSummary r = None" "isActiveRolloutState (ro_State r)"
    and "ro_Version r = TrimSpace v" "ro_State r \<noteq> AppRolloutStateFailed"
  shows "(\<exists>e. x = Inl e) \<and> db_rows d' = put_rollout r c \<or>
    (\<exists>r'. x = Inr r' \<and> enter_state now AppRolloutStateFailed at r = Some r' \<and> db_rows d' = put_rollout r' (put_rollout r c))"
proof (cases x)
  case (Inl e)
  then show ?thesis using assms(1,2) transition_Inl by (auto simp: AppRolloutService_MarkFailed_def)
next
  case (Inr r')
  with assms(1) have "transition_done now (TrimSpace app) (TrimSpace v) AppRolloutStateFailed at None (db_rows d) r' (db_rows d')"
    using transition_Inr(1) by (simp add: AppRolloutService_MarkFailed_def)
  then show ?thesis
    using assms Inr rollouts_created [OF assms(3,4)] by (auto simp: transition_done_def)
qed

subsection \<open>The outcome of an admission\<close>

text \<open>
  What an admission of a version of an app makes of the rollouts and the change requests, apart from
  the locks. An admitted version has the new rollout and one more change request. A refused one adds
  no change request, and leaves the rollouts alone unless the error is that the change request could
  not be stored.
\<close>

definition request_added :: "string \<Rightarrow> string \<Rightarrow> string \<Rightarrow> contents \<Rightarrow> contents \<Rightarrow> bool" where
  "request_added app fromVersion version c c' \<longleftrightarrow>
     (\<exists>rec. c' StoreAppVersionChangeRequests = c StoreAppVersionChangeRequests @ [(record_id rec, rec)] \<and>
       map_of (c StoreAppVersionChangeRequests) (record_id rec) = None \<and>
       recString rec ''app'' = app \<and> recString rec ''to_version'' = version \<and>
       recString rec ''from_version'' = fromVersion)"

definition install_done :: "string \<Rightarrow> string \<Rightarrow> InstallOutput result \<Rightarrow> contents \<Rightarrow> contents \<Rightarrow> bool" where
  "install_done app version out c c' \<longleftrightarrow>
     (case out of
        Inr o' \<Rightarrow>
          \<not> has_active c app \<and> ro_App (io_Rollout o') = app \<and> ro_Version (io_Rollout o') = version \<and>
          isActiveRolloutState (ro_State (io_Rollout o')) \<and> rollouts c' = (rollouts c)(app \<mapsto> io_Rollout o') \<and>
          request_added app (TrimSpace (io_FromVersion o')) version c c'
      | Inl e \<Rightarrow>
          c' StoreAppVersionChangeRequests = c StoreAppVersionChangeRequests \<and>
          (rollouts c' = rollouts c \<or>
            (\<exists>e'. e = Wrapf ''append change request'' e') \<and> \<not> has_active c app \<and>
            (\<exists>r. rollouts c' = (rollouts c)(app \<mapsto> r) \<and> ro_Version r = version)))"

lemma rollout_store_differs [simp]: "StoreAppRollouts \<noteq> StoreAppVersionChangeRequests"
  "StoreAppVersionChangeRequests \<noteq> StoreAppRollouts" "StoreAppRollouts \<noteq> StoreAppVersionInstallLocks"
  "StoreAppVersionChangeRequests \<noteq> StoreAppVersionInstallLocks" "StoreAppVersionInstallLocks \<noteq> StoreAppRollouts"
  "StoreAppVersionInstallLocks \<noteq> StoreAppVersionChangeRequests"
  by (simp_all add: StoreAppRollouts_def StoreAppVersionChangeRequests_def StoreAppVersionInstallLocks_def)

lemma put_rollout_requests [simp]:
  "put_rollout r c StoreAppVersionChangeRequests = c StoreAppVersionChangeRequests"
  by (simp add: put_rollout_def)

lemma rollouts_requests [simp]: "rollouts (row_put StoreAppVersionChangeRequests rec c) = rollouts c"
  by (simp add: rollouts_def fun_eq_iff)

lemma pending_rollout_for_fields:
  "ro_App (pending_rollout_for i app v t) = app" "ro_Version (pending_rollout_for i app v t) = v"
  "ro_CreatedAt (pending_rollout_for i app v t) = t" "ro_FailureSummary (pending_rollout_for i app v t) = None"
  "isActiveRolloutState (ro_State (pending_rollout_for i app v t))"
  "ro_State (pending_rollout_for i app v t) \<noteq> AppRolloutStateFailed"
  by (simp_all add: pending_rollout_for_def Let_def isActiveRolloutState_def)

lemma install_request_fields:
  "cr_App (install_request env rn ra app v actor fromV policy entry t) = app"
  "cr_ToVersion (install_request env rn ra app v actor fromV policy entry t) = v"
  "cr_FromVersion (install_request env rn ra app v actor fromV policy entry t) = fromV"
  by (simp_all add: install_request_def Let_def)

lemma change_request_strings:
  "recString (change_request_record i now r) ''app'' = TrimSpace (cr_App r)"
  "recString (change_request_record i now r) ''to_version'' = TrimSpace (cr_ToVersion r)"
  "recString (change_request_record i now r) ''from_version'' = TrimSpace (cr_FromVersion r)"
  by (auto simp: change_request_record_def recString_def Let_def split: option.split)

lemma install_commit_done:
  assumes run: "install_commit i env now rn ra app v actor fromV retried policy entry d k = (out, d', k')"
    and inv: "rollouts_inv (db_rows d)" "ascii app" "TrimSpace app = app" "TrimSpace v = v" "0 < truncate_ms (now 2)"
  shows "install_done app v out (db_rows d) (db_rows d')"
proof -
  let ?p = "pending_rollout_for i app v (truncate_ms (now 2))"
  let ?req = "install_request env rn ra app v actor fromV policy entry (truncate_ms (now 2))"
  obtain x d1 where x: "create_rollout i (now 3) ?p d = (x, d1)" by fastforce
  show ?thesis
  proof (cases x)
    case (Inl e)
    then have "db_rows d' = db_rows d" "\<exists>e'. out = Inl e'"
      using run x create_rollout_Inl by (auto simp: install_commit_def Let_def)
    then show ?thesis by (auto simp: install_done_def)
  next
    case (Inr r)
    have cr: "create_done r (db_rows d) (db_rows d1)" "rollout_ok app r" "ro_Version r = v" "ro_State r = ro_State ?p"
      "ro_FailureSummary r = None"
      using create_rollout_effect [OF x [unfolded Inr] inv(1)] inv by (simp_all add: pending_rollout_for_fields)
    have c1: "db_rows d1 = put_rollout r (db_rows d)" and free: "\<not> has_active (db_rows d) app" and r_app: "ro_App r = app"
      using cr(1,2) by (auto simp: create_done_def rollout_ok_def)
    note put = rollouts_created [OF cr(2,5)]
    obtain y d2 where y: "AppVersionChangeRequestService_AppendRequest (ie_unmarshal env) (ie_requestID env) (now 4)
        (Some ?req) d1 = (y, d2)" by fastforce
    show ?thesis
    proof (cases y)
      case (Inl e)
      then have c2: "db_rows d2 = put_rollout r (db_rows d)" using AppendRequest_rows [OF y] c1 by (auto simp: Let_def)
      obtain z d3 where z: "AppRolloutService_MarkFailed True (now 6) app v (truncate_ms (now 5)) d2 = (z, d3)" by fastforce
      have out: "d' = d3" "out = Inl (Wrapf ''append change request'' e)" using run x y z Inl Inr by (auto simp: install_commit_def Let_def)
      from MarkFailed_created [OF z c2] cr inv(3,4)
      consider (err) e' where "z = Inl e'" "db_rows d3 = put_rollout r (db_rows d)"
        | (ok) r' where "enter_state (now 6) AppRolloutStateFailed (truncate_ms (now 5)) r = Some r'"
            "db_rows d3 = put_rollout r' (put_rollout r (db_rows d))"
        by (auto simp: pending_rollout_for_fields)
      then show ?thesis
      proof cases
        case err
        then show ?thesis using out free put cr(3) by (auto simp: install_done_def)
      next
        case ok
        have "ro_FailureSummary r' = None" using ok(1) cr(5) by (auto simp: enter_state_def)
        from rollouts_created [OF enter_state_ok [OF ok(1) cr(2)] this] ok enter_state_frame(2,11) [OF ok(1)] show ?thesis
          using out free put cr(3) by (auto simp: install_done_def)
      qed
    next
      case (Inr added)
      let ?rec = "change_request_record (ie_requestID env) (now 4) ?req"
      have c2: "db_rows d2 = row_put StoreAppVersionChangeRequests ?rec (put_rollout r (db_rows d))"
        "map_of (db_rows d StoreAppVersionChangeRequests) (record_id ?rec) = None"
        using AppendRequest_rows [OF y] c1 Inr by (auto simp: Let_def)
      have out: "d' = d2" "out = Inr \<lparr>io_Installation = installationFromChangeRequest added, io_FromVersion = fromV,
          io_Rollout = r, io_Retried = retried\<rparr>"
        using run x y \<open>x = Inr r\<close> Inr by (auto simp: install_commit_def Let_def)
      have "request_added app (TrimSpace fromV) v (db_rows d) (db_rows d2)"
        unfolding request_added_def
        by (rule exI [of _ ?rec])
          (use c2 inv(3,4) in \<open>simp add: change_request_strings install_request_fields row_put_def update_fresh\<close>)
      then show ?thesis using out c2(1) free put cr(3,4) r_app by (simp add: install_done_def pending_rollout_for_fields)
    qed
  qed
qed

lemma install_done_cong:
  assumes "install_done app v out c1 c2"
    and "c StoreAppRollouts = c1 StoreAppRollouts" "c StoreAppVersionChangeRequests = c1 StoreAppVersionChangeRequests"
    and "c' StoreAppRollouts = c2 StoreAppRollouts" "c' StoreAppVersionChangeRequests = c2 StoreAppVersionChangeRequests"
  shows "install_done app v out c c'"
proof -
  have "rollouts c = rollouts c1" "rollouts c' = rollouts c2" using assms(2,4) by (simp_all add: rollouts_def fun_eq_iff)
  moreover from this have "has_active c app = has_active c1 app" by (simp add: has_active_def)
  ultimately have "install_done app v out c c' = install_done app v out c1 c2"
    unfolding install_done_def request_added_def by (simp only: assms(3,5))
  then show ?thesis using assms(1) by simp
qed

lemma rollouts_inv_cong: "c StoreAppRollouts = c' StoreAppRollouts \<Longrightarrow> rollouts_inv c = rollouts_inv c'"
  by (simp add: rollouts_inv_def rollouts_ok_def rollouts_def ascii_keys_def)

lemma deletes_other [simp]: "m \<noteq> n \<Longrightarrow> fold (row_delete n) ids c m = c m"
  by (induction ids arbitrary: c) simp_all

lemma Acquire_other:
  assumes "AppVersionInstallLockService_Acquire s now app v holder ttl d = (x, d')" and "lock_rows_ok (db_rows d)"
    and "n \<noteq> StoreAppVersionInstallLocks"
  shows "db_rows d' n = db_rows d n"
  using assms(1,2)
  by (cases rule: Acquire_cases) (use assms(3) in \<open>auto simp: expired_removed_def lock_taken_def put_lock_def\<close>)

lemma Release_other:
  "n \<noteq> StoreAppVersionInstallLocks \<Longrightarrow>
    db_rows (snd (AppVersionInstallLockService_Release s app v holder d)) n = db_rows d n"
  using Release_rows [of s app v holder d] by (cases "AppVersionInstallLockService_Release s app v holder d") auto

lemma install_locked_done:
  assumes "install_locked i env now mode rn app v actor d k = (out, d', k')" and "validate_reads env"
    and "rollouts_inv (db_rows d)" "ascii app" "TrimSpace app = app" "TrimSpace v = v" "0 < truncate_ms (now 2)"
  shows "install_done app v out (db_rows d) (db_rows d')"
proof -
  obtain x d1 where x: "install_checks i env now mode rn app v d = (x, d1)" by fastforce
  note rows = checks_rows [OF assms(2) x]
  show ?thesis
  proof (cases x)
    case (Inl e)
    then show ?thesis using assms(1) x rows by (auto simp: install_locked_def install_done_def)
  next
    case (Inr y)
    then show ?thesis
      using assms x rows install_commit_done [of i env now rn _ app v actor _ _ _ _ d1 k out d' k']
      by (cases y) (auto simp: install_locked_def)
  qed
qed

subsection \<open>Properties\<close>

text \<open>
  C5. Admission is all or nothing, in every mode and whatever calls fail. If it reports success, no
  rollout of the app was active, the app now has the returned active rollout of the requested
  version, and exactly one change request to that version was appended. If it reports an error, no
  change request was added, so the desired version is the same, and no rollout changed unless the
  error is that the change request could not be stored.
\<close>

theorem admission_all_or_nothing:
  assumes "Installer_install s i env now input mode d k = (out, d', k')" and "validate_reads env"
    and "rollouts_inv (db_rows d)" "lock_rows_ok (db_rows d)" "ascii (TrimSpace (ii_App input))" "0 < truncate_ms (now 2)"
  shows "install_done (TrimSpace (ii_App input)) (TrimSpace (ii_Version input)) out (db_rows d) (db_rows d')"
proof -
  let ?app = "TrimSpace (ii_App input)" and ?v = "TrimSpace (ii_Version input)"
  let ?locked = "install_locked i env now mode (TrimSpace (ii_Registry input)) ?app ?v (TrimSpace (ii_Actor input))"
  have refused: "install_done ?app ?v (Inl e) (db_rows d) (db_rows d)" for e by (simp add: install_done_def)
  have unlocked: "install_done ?app ?v out (db_rows d) (db_rows d')" if "?locked d k = (out, d', k')"
    by (rule install_locked_done [OF that assms(2,3,5)]) (use assms(6) in simp_all)
  show ?thesis
  proof (cases "s \<and> TrimSpace (ii_Registry input) \<noteq> '''' \<and> ?app \<noteq> '''' \<and> ?v \<noteq> '''' \<and> il_Locks i")
    case False
    then show ?thesis
      using assms(1) refused unlocked by (auto simp: Installer_install_def Let_def split: if_splits)
  next
    case True
    obtain x d1 where x: "AppVersionInstallLockService_Acquire True (now 0) ?app ?v (ie_lockHolder env)
        DefaultAppVersionInstallLockTTL d = (x, d1)" by fastforce
    note other = Acquire_other [OF x assms(4)]
    show ?thesis
    proof (cases x)
      case (Inl e)
      then have "\<exists>e'. out = Inl e'" "d' = d1" using assms(1) True x by (auto simp: Installer_install_def Let_def)
      then show ?thesis
        by (auto intro!: install_done_cong [OF refused] simp: other)
    next
      case (Inr u)
      obtain out2 d2 k2 where l: "?locked d1 k = (out2, d2, k2)" using prod_cases3 by blast
      have "rollouts_inv (db_rows d1)" using assms(3) rollouts_inv_cong [of "db_rows d1" "db_rows d"] other [of StoreAppRollouts] by simp
      from install_locked_done [OF l assms(2) this assms(5)] assms(6)
      have "install_done ?app ?v out2 (db_rows d1) (db_rows d2)" by simp
      moreover have "out = out2" "d' = snd (AppVersionInstallLockService_Release True ?app ?v (ie_lockHolder env) d2)"
        using assms(1) True x Inr l by (auto simp: Installer_install_def Let_def)
      ultimately show ?thesis by (auto intro: install_done_cong simp: other Release_other)
    qed
  qed
qed

definition sample_installer :: Installer where
  "sample_installer =
     \<lparr>il_Registries = [(''main'', \<lparr>rg_RetentionPolicy = Inr DefaultRetentionPolicy, rg_PublicURL = Inr ''u''\<rparr>)],
      il_ConfigApps = [(''mail'', \<lparr>ce_Registry = ''main'', ce_RegistryApp = [], ce_PackageVersion = [],
        ce_ManifestVersion = None\<rparr>)],
      il_ChangeRequests = True, il_Locks = False, il_SourceVersions = False, il_Rollouts = True,
      il_SourceVersion = [], il_RolloutMode = OtherMode []\<rparr>"

definition sample_env :: "unit install_env" where
  "sample_env =
     \<lparr>ie_validName = (\<lambda>_. Inr ()), ie_fetchRetention = (\<lambda>_ _. Inr None),
      ie_fetchEntry = (\<lambda>_ _ _. Inr \<lparr>en_Repository = ''r'', en_SourceRef = ''s'', en_PublicRoot = ''u'', en_Artifacts = []\<rparr>),
      ie_validate = (\<lambda>_ _ _ _ d. (Inr (), d)), ie_entryURL = (\<lambda>_ _ _. ''u''), ie_mutateRetention = (\<lambda>_ _ _ k. k),
      ie_unmarshal = (\<lambda>_. None), ie_requestID = ''x'', ie_lockHolder = ''h''\<rparr>"

definition sample_input :: InstallInput where
  "sample_input = \<lparr>ii_Registry = ''main'', ii_App = ''mail'', ii_Version = ''1'', ii_Actor = ''a''\<rparr>"

lemma sample_install_trim: "TrimSpace ''main'' = ''main''" "TrimSpace ''mail'' = ''mail''" "TrimSpace ''1'' = ''1''"
  "TrimSpace ''a'' = ''a''" "TrimSpace ''registry:first-install'' = ''registry:first-install''"
  by code_simp+

lemma sample_env_reads: "validate_reads sample_env"
  by (simp add: validate_reads_def sample_env_def)

lemma empty_db_inv: "rollouts_inv (db_rows empty_db)" "lock_rows_ok (db_rows empty_db)"
  by (simp_all add: rollouts_inv_def rollouts_ok_def rollouts_def ascii_keys_def lock_rows_ok_def)

lemma sample_checks:
  "\<exists>d'. install_checks sample_installer sample_env (\<lambda>_. Second) installModeAdd ''main'' ''mail'' ''1'' empty_db =
     (Inr (''mail'', ''registry:first-install'', False, DefaultRetentionPolicy,
       \<lparr>en_Repository = ''r'', en_SourceRef = ''s'', en_PublicRoot = ''u'', en_Artifacts = []\<rparr>), d') \<and>
     db_healthy d' \<and> schema_ok d' \<and> db_rows d' = db_rows empty_db"
proof -
  let ?d1 = "empty_db\<lparr>db_tick := Suc (db_tick empty_db)\<rparr>"
  let ?d2 = "?d1\<lparr>db_tick := Suc (db_tick ?d1)\<rparr>"
  let ?d3 = "?d2\<lparr>db_tick := Suc (db_tick ?d2)\<rparr>"
  have l: "AppVersionChangeRequestService_ListKnownVersionsByApp (\<lambda>_. None) True ''mail'' empty_db = (Inr [], ?d1)"
    using ListRequestsByApp_healthy [of empty_db "''mail''" "\<lambda>_. None"]
    by (simp add: AppVersionChangeRequestService_ListKnownVersionsByApp_def app_requests_def knownVersionsFromRequests_def
        index_rows sample_install_trim)
  have h: "check_known installModeAdd ''mail'' ''1'' ?d1 = (Inr (), ?d2)"
    by (simp add: check_known_def AppVersionChangeRequestService_HasKnownVersion_def healthy_store(3) index_rows
        sample_install_trim)
  have g: "current_rollout ''mail'' ?d2 = (Inr None, ?d3)"
    by (simp add: current_rollout_def AppRolloutService_Get_def healthy_store(1) sample_install_trim)
  have "install_checks sample_installer sample_env (\<lambda>_. Second) installModeAdd ''main'' ''mail'' ''1'' empty_db =
     (Inr (''mail'', ''registry:first-install'', False, DefaultRetentionPolicy,
       \<lparr>en_Repository = ''r'', en_SourceRef = ''s'', en_PublicRoot = ''u'', en_Artifacts = []\<rparr>), ?d3)"
    using l h g
    by (simp add: install_checks_def sample_installer_def sample_env_def install_config_def IsRegistry_def RegistryAppName_def
        install_from_def retry_mode_def check_source_def install_candidate_def selectable_def VersionSelectable_def
        VersionDeploymentState_def retentionVersion_def LatestKnownVersion_def LatestKnownInstallation_def
        sample_install_trim)
  then show ?thesis by (intro exI [of _ ?d3]) (simp add: fun_eq_iff)
qed

lemma Create_schema:
  assumes "schema_ok d" and "AppRolloutService_Create s now ro d = (x, d')"
  shows "schema_ok d'"
proof -
  have body: "schema_ok d2" if "schema_ok d1" "create_body op r d1 = (t, d2)" for op r d1 t d2
    using that by (auto simp: create_body_def Let_def split: prod.splits sum.splits if_splits option.splits list.splits
        dest: schema_inv.inv_rules)
  show ?thesis
    using assms
    by (auto simp: AppRolloutService_Create_def split: if_splits sum.splits option.splits
        dest!: schema_inv.inv_with_tx [OF assms(1)] intro: body)
qed

lemma sample_pending_valid: "validateAppRollout (Some (pending_rollout_for sample_installer ''mail'' ''1'' Second)) = Inr ()"
  by (simp add: validateAppRollout_def pending_rollout_for_def sample_installer_def sample_install_trim Let_def
      DefaultRolloutEnrollmentWindow_def DefaultCatalogPollInterval_def DefaultRolloutTimeout_def Second_def Minute_def)

lemma sample_create:
  assumes "db_healthy d" "schema_ok d" "db_rows d = db_rows empty_db"
  obtains r d' where "create_rollout sample_installer Second (pending_rollout_for sample_installer ''mail'' ''1'' Second) d =
      (Inr r, d')" and "db_healthy d'" "schema_ok d'"
      "db_rows d' StoreAppVersionChangeRequests = []"
proof -
  let ?p = "pending_rollout_for sample_installer ''mail'' ''1'' Second"
  have "\<not> has_active (db_rows d) x" for x by (simp add: assms(3) has_active_def rollouts_def)
  then obtain d' where run: "AppRolloutService_Create True Second (Some ?p) d = (Inr (normalizeAppRollout Second ?p), d')"
      and h: "db_healthy d'"
    using Create_healthy [OF assms(1,2), of True ?p Second] sample_pending_valid assms(3) by (auto simp: separates_def)
  have "db_rows d' StoreAppVersionChangeRequests = []" using Create_rows [OF run] assms(3) by auto
  moreover have "create_rollout sample_installer Second ?p d = (Inr (normalizeAppRollout Second ?p), d')"
    using run by (simp add: create_rollout_def sample_installer_def)
  ultimately show thesis using that h Create_schema [OF assms(2) run] by blast
qed

theorem admission_all_or_nothing_witness:
  "\<exists>o' d'. Installer_install True sample_installer sample_env (\<lambda>_. Second) sample_input installModeAdd empty_db () =
      (Inr o', d', ()) \<and>
    has_active (db_rows d') ''mail'' \<and> request_added ''mail'' ''registry:first-install'' ''1'' (db_rows empty_db) (db_rows d')"
proof -
  let ?e = "\<lparr>en_Repository = ''r'', en_SourceRef = ''s'', en_PublicRoot = ''u'', en_Artifacts = []\<rparr>"
  let ?req = "install_request sample_env ''main'' ''mail'' ''mail'' ''1'' ''a'' ''registry:first-install''
    DefaultRetentionPolicy ?e Second"
  obtain d1 where c: "install_checks sample_installer sample_env (\<lambda>_. Second) installModeAdd ''main'' ''mail'' ''1'' empty_db =
      (Inr (''mail'', ''registry:first-install'', False, DefaultRetentionPolicy, ?e), d1)"
    and d1: "db_healthy d1" "schema_ok d1" "db_rows d1 = db_rows empty_db" using sample_checks by blast
  have sec: "truncate_ms Second = Second" "0 < Second" by code_simp+
  obtain r d2 where cr: "create_rollout sample_installer Second (pending_rollout_for sample_installer ''mail'' ''1'' Second) d1 =
      (Inr r, d2)" and d2: "db_healthy d2" "schema_ok d2" "db_rows d2 StoreAppVersionChangeRequests = []"
    by (rule sample_create [OF d1])
  obtain q d3 where ap: "AppVersionChangeRequestService_AppendRequest (\<lambda>_. None) ''x'' Second (Some ?req) d2 = (Inr q, d3)"
    using AppendRequest_healthy [OF d2(1,2), of ?req "''x''" Second "\<lambda>_. None"] d2(3)
    by (auto simp: install_request_fields sample_install_trim)
  have env: "ie_unmarshal sample_env = (\<lambda>_. None)" "ie_requestID sample_env = ''x''" "il_Locks sample_installer = False"
    "ie_mutateRetention sample_env = (\<lambda>_ _ _ k. k)"
    by (simp_all add: sample_env_def sample_installer_def)
  obtain o' where run: "Installer_install True sample_installer sample_env (\<lambda>_. Second) sample_input installModeAdd empty_db () =
      (Inr o', d3, ())" and o': "io_FromVersion o' = ''registry:first-install''"
    using c cr ap by (auto simp: Installer_install_def install_locked_def install_commit_def sample_input_def
        sample_install_trim Let_def sec env)
  have "install_done ''mail'' ''1'' (Inr o') (db_rows empty_db) (db_rows d3)"
    using admission_all_or_nothing [OF run sample_env_reads empty_db_inv]
    by (simp add: sample_input_def sample_install_trim ascii_def sec)
  then show ?thesis using run o' by (auto simp: install_done_def has_active_def sample_install_trim)
qed





end
