(* ===== verification/Spec2Isabelle.thy ===== *)
theory Spec2Isabelle
  imports Control_Invariants Tool_Names Retention_Loop Pending_Index Admission
begin

text \<open>
  Verification of the app control plane of gestaltd.
\<close>

end
